(* ===== verification/Prelude.thy ===== *)
theory Prelude
  imports Main "HOL-Library.Word" "HOL-Library.AList"
begin

text \<open>
  What the component theories share: the Go types the sources use and their meaning.
  \<^item> a \<open>[]byte\<close> is a list of 8-bit words;
  \<^item> an \<open>int64\<close> is an \<^typ>\<open>int\<close> in range, with \<open>wrap64\<close> where the source's arithmetic
    may leave the range;
  \<^item> a \<open>time.Time\<close> is the number of nanoseconds since the Unix epoch, with the zero
    \<open>Time\<close> of Go (January 1, year 1) as \<open>zero_time\<close>; \<open>Time.Sub\<close> saturates as the
    Go library does (\<open>time_sub\<close>);
  \<^item> a \<open>map[K]V\<close> is an association list with distinct keys. The order of the list is
    the iteration order of \<open>range\<close>, which Go leaves unspecified: no property below
    depends on it. The operations meet the \<open>keyed_store\<close> contract, in which the lemmas
    about lookups after updates are proved once.
\<close>

named_theorems go_time \<open>comparisons of saturating time differences\<close>
named_theorems go_map \<open>lookups in updated maps\<close>

type_synonym byte = "8 word"
type_synonym bytes = "8 word list"
type_synonym gotime = int
type_synonym duration = int

section \<open>Signed 64-bit arithmetic\<close>

definition int64_min :: int where "int64_min = - (2 ^ 63)"
definition int64_max :: int where "int64_max = 2 ^ 63 - 1"

abbreviation is_int64 :: "int \<Rightarrow> bool" where
  "is_int64 x \<equiv> int64_min \<le> x \<and> x \<le> int64_max"

definition wrap64 :: "int \<Rightarrow> int" where
  "wrap64 x = (x + 2 ^ 63) mod 2 ^ 64 - 2 ^ 63"

lemma wrap64_in_range [simp]: "is_int64 (wrap64 x)"
  by (simp add: wrap64_def int64_min_def int64_max_def)

lemma wrap64_id: "is_int64 x \<Longrightarrow> wrap64 x = x"
  by (simp add: wrap64_def int64_min_def int64_max_def)

lemma wrap64_dvd: "2 ^ 64 dvd wrap64 x - x"
proof -
  have "wrap64 x - x = (x + 2 ^ 63) mod 2 ^ 64 - (x + 2 ^ 63)" by (simp add: wrap64_def)
  moreover have "2 ^ 64 dvd (x + 2 ^ 63) mod 2 ^ 64 - (x + 2 ^ 63)"
    by (subst dvd_diff_commute) (rule dvd_minus_mod)
  ultimately show ?thesis by (simp only:)
qed

section \<open>Time\<close>

definition second :: duration where "second = 1000000000"
definition minute :: duration where "minute = 60 * second"
definition hour :: duration where "hour = 60 * minute"

definition zero_time :: gotime where "zero_time = - 62135596800 * second"

definition time_unix :: "gotime \<Rightarrow> int" where "time_unix t = t div second"

text \<open>\<open>t.Sub(u)\<close>: the difference, clipped to the range of \<open>time.Duration\<close>.\<close>

definition time_sub :: "gotime \<Rightarrow> gotime \<Rightarrow> duration" where
  "time_sub t u = (if t - u > int64_max then int64_max
                   else if t - u < int64_min then int64_min else t - u)"

lemmas duration_defs = second_def minute_def hour_def int64_min_def int64_max_def

lemma time_sub_gt [go_time]: "0 \<le> d \<Longrightarrow> d < int64_max \<Longrightarrow> d < time_sub t u \<longleftrightarrow> d < t - u"
  by (auto simp: time_sub_def int64_min_def int64_max_def)

lemma time_sub_le [go_time]: "0 \<le> d \<Longrightarrow> d < int64_max \<Longrightarrow> time_sub t u \<le> d \<longleftrightarrow> t - u \<le> d"
  by (auto simp: time_sub_def int64_min_def int64_max_def)

lemma time_sub_lt [go_time]: "0 \<le> d \<Longrightarrow> d < int64_max \<Longrightarrow> time_sub t u < d \<longleftrightarrow> t - u < d"
  by (auto simp: time_sub_def int64_min_def int64_max_def)

lemma time_sub_self [simp]: "time_sub t t = 0"
  by (simp add: time_sub_def int64_min_def int64_max_def)

section \<open>Lists\<close>

lemma find_least:
  "k < n \<Longrightarrow> Q k \<Longrightarrow> (\<And>i. i < k \<Longrightarrow> \<not> Q i) \<Longrightarrow> find Q [0..<n] = Some k"
  by (auto simp: find_Some_iff intro!: exI [of _ k])

lemma length_filter_implies:
  "(\<And>x. x \<in> set xs \<Longrightarrow> P x \<Longrightarrow> Q x) \<Longrightarrow> length (filter P xs) \<le> length (filter Q xs)"
  by (induction xs) auto

lemma find_SomeD: "find P xs = Some x \<Longrightarrow> x \<in> set xs \<and> P x"
  by (metis find_Some_iff nth_mem)

lemma fold_keeps: "(\<And>x s. x \<in> set xs \<Longrightarrow> P s \<Longrightarrow> P (f x s)) \<Longrightarrow> P s \<Longrightarrow> P (fold f xs s)"
  by (induction xs arbitrary: s) simp_all

section \<open>Go maps\<close>

type_synonym ('k, 'v) gomap = "('k \<times> 'v) list"

definition gm_empty :: "('k, 'v) gomap" where "gm_empty = []"

definition gm_get :: "('k, 'v) gomap \<Rightarrow> 'k \<Rightarrow> 'v option" where "gm_get = map_of"

definition gm_put :: "'k \<Rightarrow> 'v \<Rightarrow> ('k, 'v) gomap \<Rightarrow> ('k, 'v) gomap" where
  "gm_put = AList.update"

definition gm_del :: "'k \<Rightarrow> ('k, 'v) gomap \<Rightarrow> ('k, 'v) gomap" where
  "gm_del = AList.delete"

text \<open>\<open>for k, v := range m { if drop { delete(m, k) } }\<close>\<close>

definition gm_sweep :: "('k \<Rightarrow> 'v \<Rightarrow> bool) \<Rightarrow> ('k, 'v) gomap \<Rightarrow> ('k, 'v) gomap" where
  "gm_sweep gone m = filter (\<lambda>(k, v). \<not> gone k v) m"

definition gm_len :: "('k, 'v) gomap \<Rightarrow> nat" where "gm_len = length"

definition gm_wf :: "('k, 'v) gomap \<Rightarrow> bool" where "gm_wf m \<longleftrightarrow> distinct (map fst m)"

text \<open>The contract the components rely on.\<close>

locale keyed_store =
  fixes empty :: 'm
    and get :: "'m \<Rightarrow> 'k \<Rightarrow> 'v option"
    and put :: "'k \<Rightarrow> 'v \<Rightarrow> 'm \<Rightarrow> 'm"
    and del :: "'k \<Rightarrow> 'm \<Rightarrow> 'm"
    and sweep :: "('k \<Rightarrow> 'v \<Rightarrow> bool) \<Rightarrow> 'm \<Rightarrow> 'm"
    and len :: "'m \<Rightarrow> nat"
    and wf :: "'m \<Rightarrow> bool"
  assumes wf_empty: "wf empty"
    and wf_put: "wf m \<Longrightarrow> wf (put k v m)"
    and wf_del: "wf m \<Longrightarrow> wf (del k m)"
    and wf_sweep: "wf m \<Longrightarrow> wf (sweep g m)"
    and get_empty: "get empty k = None"
    and get_put: "get (put k v m) j = (if j = k then Some v else get m j)"
    and get_del: "get (del k m) j = (if j = k then None else get m j)"
    and get_sweep: "wf m \<Longrightarrow> get (sweep g m) j =
          (case get m j of None \<Rightarrow> None | Some v \<Rightarrow> if g j v then None else Some v)"
    and finite_dom: "finite (dom (get m))"
    and len_card: "wf m \<Longrightarrow> len m = card (dom (get m))"
begin

text \<open>Every value satisfies \<open>P\<close>.\<close>

definition all_values :: "('k \<Rightarrow> 'v \<Rightarrow> bool) \<Rightarrow> 'm \<Rightarrow> bool" where
  "all_values P m \<longleftrightarrow> (\<forall>k v. get m k = Some v \<longrightarrow> P k v)"

lemma all_values_empty: "all_values P empty"
  by (simp add: all_values_def get_empty)

lemma all_values_put: "all_values P m \<Longrightarrow> P k v \<Longrightarrow> all_values P (put k v m)"
  by (simp add: all_values_def get_put)

lemma all_values_del: "all_values P m \<Longrightarrow> all_values P (del k m)"
  by (simp add: all_values_def get_del)

lemma all_values_sweep: "wf m \<Longrightarrow> all_values P m \<Longrightarrow> all_values P (sweep g m)"
  by (auto simp: all_values_def get_sweep split: option.splits if_splits)

lemma sweep_Some: "wf m \<Longrightarrow> get (sweep g m) k = Some v \<longleftrightarrow> get m k = Some v \<and> \<not> g k v"
  by (auto simp: get_sweep split: option.splits)

lemma sweep_none: "wf m \<Longrightarrow> all_values (\<lambda>k v. \<not> g k v) m \<Longrightarrow> get (sweep g m) = get m"
  by (rule ext) (auto simp: all_values_def get_sweep split: option.splits)

lemma len_put: "wf m \<Longrightarrow> len (put k v m) = (if get m k = None then Suc (len m) else len m)"
proof -
  assume wf: "wf m"
  have "get (put k v m) = (get m)(k \<mapsto> v)" by (rule ext) (simp add: get_put)
  then have "dom (get (put k v m)) = insert k (dom (get m))" by simp
  with wf show ?thesis
    by (auto simp: len_card wf_put finite_dom card_insert_if simp del: dom_fun_upd)
qed

lemma len_del_le: "wf m \<Longrightarrow> len (del k m) \<le> len m"
  by (simp add: len_card wf_del) (rule card_mono; auto simp: finite_dom get_del split: if_splits)

lemma len_sweep_le: "wf m \<Longrightarrow> len (sweep g m) \<le> len m"
  by (simp add: len_card wf_sweep)
    (rule card_mono; auto simp: finite_dom sweep_Some)

end

lemma gm_get_sweep:
  "gm_wf m \<Longrightarrow> gm_get (gm_sweep g m) j =
     (case gm_get m j of None \<Rightarrow> None | Some v \<Rightarrow> if g j v then None else Some v)"
proof (induction m)
  case Nil
  then show ?case by (simp add: gm_get_def gm_sweep_def)
next
  case (Cons p m)
  obtain k v where p: "p = (k, v)" by (cases p)
  with Cons.prems have notin: "k \<notin> fst ` set m" and wf: "gm_wf m"
    by (simp_all add: gm_wf_def)
  from notin have "map_of (filter (\<lambda>(k, v). \<not> g k v) m) k = None"
    by (auto simp: map_of_eq_None_iff)
  with Cons.IH [OF wf] p show ?case
    by (auto simp: gm_get_def gm_sweep_def)
qed

interpretation gm: keyed_store gm_empty gm_get gm_put gm_del gm_sweep gm_len gm_wf
proof
  fix m :: "('a, 'b) gomap" and k j :: 'a and v :: 'b and g
  show "gm_wf gm_empty" by (simp add: gm_wf_def gm_empty_def)
  show "gm_wf m \<Longrightarrow> gm_wf (gm_put k v m)"
    by (simp add: gm_wf_def gm_put_def distinct_update)
  show "gm_wf m \<Longrightarrow> gm_wf (gm_del k m)"
    by (simp add: gm_wf_def gm_del_def distinct_delete)
  show "gm_wf m \<Longrightarrow> gm_wf (gm_sweep g m)"
    by (induction m) (auto simp: gm_wf_def gm_sweep_def)
  show "gm_get gm_empty k = None" by (simp add: gm_get_def gm_empty_def)
  show "gm_get (gm_put k v m) j = (if j = k then Some v else gm_get m j)"
    by (simp add: gm_get_def gm_put_def update_conv)
  show "gm_get (gm_del k m) j = (if j = k then None else gm_get m j)"
    by (simp add: gm_get_def gm_del_def delete_conv)
  show "gm_wf m \<Longrightarrow> gm_get (gm_sweep g m) j =
     (case gm_get m j of None \<Rightarrow> None | Some v \<Rightarrow> if g j v then None else Some v)"
    by (rule gm_get_sweep)
  show "finite (dom (gm_get m))" by (simp add: gm_get_def finite_dom_map_of)
  show "gm_wf m \<Longrightarrow> gm_len m = card (dom (gm_get m))"
    using distinct_card [of "map fst m"]
    by (simp add: gm_wf_def gm_len_def gm_get_def dom_map_of_conv_image_fst)
qed

lemmas gm_simps [simp, go_map] = gm.get_empty gm.get_put gm.get_del gm.wf_empty
lemmas gm_wf_intros [simp, intro] = gm.wf_put gm.wf_del gm.wf_sweep

lemma gm_get_in_set: "gm_wf m \<Longrightarrow> gm_get m k = Some v \<longleftrightarrow> (k, v) \<in> set m"
  by (simp add: gm_wf_def gm_get_def)

section \<open>Expiring entries\<close>

text \<open>The periodic sweeps of the caches and session pools: an entry goes when its time stamp is
  more than \<open>limit\<close> ago.\<close>

locale idle_sweep =
  fixes sweep :: "gotime \<Rightarrow> ('k, 'v) gomap \<Rightarrow> ('k, 'v) gomap" and stamp :: "'v \<Rightarrow> gotime" and limit :: duration
  assumes sweep_wf: "gm_wf m \<Longrightarrow> gm_wf (sweep now m)"
    and sweep_get: "gm_wf m \<Longrightarrow> gm_get (sweep now m) k =
      (case gm_get m k of None \<Rightarrow> None | Some v \<Rightarrow> if now - stamp v > limit then None else Some v)"
begin

lemma fresh_kept: "gm_wf m \<Longrightarrow> gm_get m k = Some v \<Longrightarrow> now - stamp v \<le> limit \<Longrightarrow> gm_get (sweep now m) k = Some v"
  by (simp add: sweep_get)

lemma kept_fresh: "gm_wf m \<Longrightarrow> gm_get (sweep now m) k = Some v \<Longrightarrow> gm_get m k = Some v \<and> now - stamp v \<le> limit"
  by (auto simp: sweep_get split: option.splits if_splits)

text \<open>A later sweep makes an earlier one superfluous, so the sweeping interval does not matter for
  what is visible after a sweep.\<close>

lemma sweep_later: "gm_wf m \<Longrightarrow> now \<le> now' \<Longrightarrow> gm_get (sweep now' (sweep now m)) k = gm_get (sweep now' m) k"
  by (auto simp: sweep_get sweep_wf split: option.splits)

end

end
