(* ===== verification/Binlog.thy ===== *)
theory Binlog
  imports Prelude
begin

unbundle bit_operations_syntax

text \<open>
  The binary log framing of \<open>src/binlog/binlog.go\<close>: the table-driven CRC-16, the record
  encoder \<open>AppendRecord\<close>, the resynchronising decoder \<open>DecodeRecords\<close> and the text view
  \<open>Decode\<close>. \<open>encoding/binary\<close>'s uvarint codec, which the framing uses, is modelled with
  it. Index expressions that Go would trap on are the \<open>Panic\<close> result of the model.
\<close>

section \<open>Definitions\<close>

subsection \<open>Big-endian 16-bit values and uvarints (encoding/binary)\<close>

definition put_u16 :: "16 word \<Rightarrow> bytes" where
  "put_u16 w = [ucast (drop_bit 8 w), ucast w]"

definition get_u16 :: "byte \<Rightarrow> byte \<Rightarrow> 16 word" where
  "get_u16 hi lo = push_bit 8 (ucast hi) OR ucast lo"

function put_uvarint :: "64 word \<Rightarrow> bytes" where
  "put_uvarint x = (if x < 0x80 then [ucast x]
     else (ucast x OR 0x80) # put_uvarint (drop_bit 7 x))"
  by pat_completeness auto
termination
proof (relation "measure unat")
  fix x :: "64 word"
  assume "\<not> x < 0x80"
  then have "0x80 \<le> unat x" by (simp add: word_less_nat_alt)
  then have "unat x div 2 ^ 7 < unat x" by simp
  then show "(drop_bit 7 x, x) \<in> measure unat"
    by (simp add: drop_bit_eq_div unat_div)
qed simp

declare put_uvarint.simps [simp del]

text \<open>The loop of \<open>binary.Uvarint\<close>: \<open>i\<close> bytes read so far, \<open>x\<close> accumulated, shift \<open>s\<close>. A
  count of 0 means the buffer ended, a negative one that the value overflows 64 bits.\<close>

fun uvarint_loop :: "bytes \<Rightarrow> nat \<Rightarrow> 64 word \<Rightarrow> nat \<Rightarrow> 64 word \<times> int" where
  "uvarint_loop [] i x s = (0, 0)"
| "uvarint_loop (b # bs) i x s =
     (if i = 10 then (0, - (int i + 1))
      else if b < 0x80 then
        (if i = 9 \<and> b > 1 then (0, - (int i + 1)) else (x OR push_bit s (ucast b), int i + 1))
      else uvarint_loop bs (i + 1) (x OR push_bit s (ucast (b AND 0x7F))) (s + 7))"

definition uvarint :: "bytes \<Rightarrow> 64 word \<times> int" where
  "uvarint bs = uvarint_loop bs 0 0 0"

subsection \<open>CRC-16/CCITT-FALSE\<close>

definition crc16_shift :: "16 word \<Rightarrow> 16 word" where
  "crc16_shift crc = (if crc AND 0x8000 \<noteq> 0 then push_bit 1 crc XOR 0x1021 else push_bit 1 crc)"

definition crc16_entry :: "byte \<Rightarrow> 16 word" where
  "crc16_entry i = (crc16_shift ^^ 8) (push_bit 8 (ucast i))"

definition crc16Table :: "16 word list" where
  "crc16Table = map (\<lambda>i. crc16_entry (of_nat i)) [0..<256]"

definition crc16_next :: "16 word \<Rightarrow> byte \<Rightarrow> 16 word" where
  "crc16_next crc b = push_bit 8 crc XOR crc16Table ! unat (ucast (drop_bit 8 crc) XOR b)"

definition crc16 :: "bytes \<Rightarrow> 16 word" where
  "crc16 data = foldl crc16_next 0xFFFF data"

subsection \<open>Records\<close>

definition startMagic :: "16 word" where "startMagic = 0xC5A7"
definition endMagic :: "16 word" where "endMagic = 0x7A5C"

definition minRecordLen :: nat where "minRecordLen = 2 + 1 + 1 + 2 + 2"

type_synonym tag = byte

record log_record =
  rec_tag :: tag
  rec_payload :: bytes

definition record_body :: "tag \<Rightarrow> bytes \<Rightarrow> bytes" where
  "record_body tag payload = tag # put_uvarint (of_nat (length payload)) @ payload"

definition AppendRecord :: "bytes \<Rightarrow> tag \<Rightarrow> bytes \<Rightarrow> bytes" where
  "AppendRecord dst tag payload =
     (let body = record_body tag payload; crc = crc16 body
      in dst @ put_u16 startMagic @ body @ put_u16 crc @ put_u16 endMagic)"

definition FormatText :: byte where "FormatText = 0x00"
definition FormatStructured :: byte where "FormatStructured = 0x01"

definition HasFormatMarker :: "bytes \<Rightarrow> byte \<times> bool" where
  "HasFormatMarker payload = (case payload of [] \<Rightarrow> (0, False)
     | b # _ \<Rightarrow> if b = FormatText \<or> b = FormatStructured then (b, True) else (0, False))"

definition findMagic :: "bytes \<Rightarrow> 16 word \<Rightarrow> nat option" where
  "findMagic b magic =
     (let hi = ucast (drop_bit 8 magic); lo = ucast magic
      in find (\<lambda>i. b ! i = hi \<and> b ! (i + 1) = lo) [0..<length b - 1])"

datatype decoded = Panic | Reject | Accept tag bytes nat

text \<open>\<open>b[i:j]\<close> traps unless \<open>i \<le> j \<le> len b\<close>; the two-byte reads below go through it.\<close>

definition go_slice :: "bytes \<Rightarrow> int \<Rightarrow> int \<Rightarrow> bytes option" where
  "go_slice b i j = (if 0 \<le> i \<and> i \<le> j \<and> j \<le> int (length b)
                  then Some (take (nat (j - i)) (drop (nat i) b)) else None)"

definition slice_u16 :: "bytes \<Rightarrow> int \<Rightarrow> 16 word option" where
  "slice_u16 b i = (case go_slice b i (i + 2) of Some [hi, lo] \<Rightarrow> Some (get_u16 hi lo) | _ \<Rightarrow> None)"

definition decodeOneRecord :: "bytes \<Rightarrow> decoded" where
  "decodeOneRecord b =
     (if length b < minRecordLen then Reject
      else
        let tag = b ! 2; (payloadLen, n) = uvarint (drop 3 b)
        in if n \<le> 0 then Reject
        else
          let pos = 3 + n; bodyEnd = wrap64 (pos + sint payloadLen)
          in if payloadLen > of_nat (length b) \<or> bodyEnd < pos
                \<or> wrap64 (bodyEnd + 4) > int (length b) then Reject
          else (case (slice_u16 b bodyEnd, go_slice b 2 bodyEnd, slice_u16 b (bodyEnd + 2),
                      go_slice b pos bodyEnd) of
                  (Some gotCRC, Some body, Some magic, Some payload) \<Rightarrow>
                    if gotCRC \<noteq> crc16 body then Reject
                    else if magic \<noteq> endMagic then Reject
                    else Accept tag payload (nat (bodyEnd + 4))
                | _ \<Rightarrow> Panic))"

text \<open>The scanning loop, on the part of the buffer from the current index on.\<close>

lemma decodeOneRecord_consumed: "decodeOneRecord b = Accept t p n \<Longrightarrow> 0 < n"
  by (auto simp: decodeOneRecord_def Let_def split: if_splits prod.splits option.splits)

lemma findMagic_bound: "findMagic b m = Some off \<Longrightarrow> off + 1 < length b"
  by (auto simp: findMagic_def Let_def find_Some_iff)

function DecodeRecords :: "bytes \<Rightarrow> log_record list \<times> nat" where
  "DecodeRecords data =
     (case findMagic data startMagic of
        None \<Rightarrow> ([], 0)
      | Some off \<Rightarrow>
          (case decodeOneRecord (drop off data) of
             Accept tag payload consumed \<Rightarrow>
               (let (rs, c) = DecodeRecords (drop consumed (drop off data))
                in (\<lparr>rec_tag = tag, rec_payload = payload\<rparr> # rs, c))
           | _ \<Rightarrow> (let (rs, c) = DecodeRecords (drop 1 (drop off data)) in (rs, Suc c))))"
  by pat_completeness auto
termination
  by (relation "measure length") (auto dest!: decodeOneRecord_consumed findMagic_bound)

declare DecodeRecords.simps [simp del]

definition record_text :: "bytes \<Rightarrow> bytes" where
  "record_text payload =
     (let (format, hasMarker) = HasFormatMarker payload
      in if \<not> hasMarker then payload
         else if format = FormatText then drop 1 payload
         else [])"

definition Decode :: "bytes \<Rightarrow> bytes \<times> nat" where
  "Decode data = (let (records, corrupt) = DecodeRecords data
                  in (concat (map (\<lambda>r. record_text (rec_payload r)) records), corrupt))"


section \<open>Big-endian values and uvarints\<close>

lemma length_put_u16 [simp]: "length (put_u16 w) = 2"
  by (simp add: put_u16_def)

lemma get_put_u16 [simp]: "get_u16 (ucast (drop_bit 8 w)) (ucast w) = w"
  by (rule bit_word_eqI) (auto simp: get_u16_def bit_simps)

lemma put_uvarint_nonempty [simp]: "put_uvarint x \<noteq> []"
  by (subst put_uvarint.simps) simp

lemma bit_0x7F: "bit (0x7F :: byte) k \<longleftrightarrow> k < 7"
proof -
  have "(0x7F :: byte) = mask 7" by (simp add: mask_eq_exp_minus_1)
  then show ?thesis by (simp only: bit_mask_iff) auto
qed

lemma bit_0x80: "bit (0x80 :: byte) k \<longleftrightarrow> k = 7"
proof -
  have "(0x80 :: byte) = 2 ^ 7" by simp
  then show ?thesis by (simp only: bit_exp_iff) auto
qed

lemma uvarint_digit_bits_gen:
  assumes m: "\<And>k. bit (m :: byte) k \<longleftrightarrow> k < 7" and a: "\<And>k. bit (a :: byte) k \<longleftrightarrow> k = 7"
  shows "push_bit s (ucast ((ucast v OR a) AND m)) OR push_bit (s + 7) (drop_bit 7 v)
     = push_bit s (v :: 64 word)"
proof (rule bit_word_eqI)
  fix n assume n: "n < LENGTH(64)"
  show "bit (push_bit s (ucast ((ucast v OR a) AND m)) OR push_bit (s + 7) (drop_bit 7 v)) n
      = bit (push_bit s v) n"
  proof (cases "s + 7 \<le> n")
    case True
    then have "7 + (n - (s + 7)) = n - s" by simp
    with True n show ?thesis by (auto simp: bit_simps m a)
  next
    case False
    then show ?thesis using n by (auto simp: bit_simps m a)
  qed
qed

lemmas uvarint_digit_bits = uvarint_digit_bits_gen [OF bit_0x7F bit_0x80]

lemma unat_ucast_byte: "unat (ucast (v :: 64 word) :: byte) = unat v mod 256"
  by (simp add: unsigned_ucast_eq take_bit_eq_mod)

lemma unat_ucast_up: "unat (ucast (b :: byte) :: 64 word) = unat b"
  by (simp add: unsigned_ucast_eq take_bit_eq_mod order_less_le_trans [OF unsigned_less])

lemma ucast_small: "v < 0x80 \<Longrightarrow> (ucast (v :: 64 word) :: byte) < 0x80"
  by (simp add: word_less_nat_alt unat_ucast_byte)

lemma uvarint_last_bits: "v < 0x80 \<Longrightarrow> (ucast (ucast v :: byte) :: 64 word) = v"
proof -
  assume "v < 0x80"
  then have "unat v < 128" by (simp add: word_less_nat_alt)
  moreover have "unat (ucast (ucast v :: byte) :: 64 word) = unat v mod 256"
    by (subst unat_ucast_up) (rule unat_ucast_byte)
  ultimately have "unat (ucast (ucast v :: byte) :: 64 word) = unat v" by simp
  then show ?thesis by (simp only: word_unat_eq_iff)
qed

lemma or_0x80_not_small: "\<not> (b OR 0x80 :: byte) < 0x80"
proof -
  have "(0x80 :: byte) \<le> 0x80 OR b" by (rule le_word_or2)
  then show ?thesis by (simp add: or.commute not_less)
qed

lemma uvarint_loop_put:
  "i \<le> 9 \<Longrightarrow> unat v < 2 ^ (64 - 7 * i) \<Longrightarrow>
   uvarint_loop (put_uvarint v @ rest) i x (7 * i) =
     (x OR push_bit (7 * i) v, int i + int (length (put_uvarint v)))"
proof (induction v arbitrary: i x rule: put_uvarint.induct)
  case (1 v)
  show ?case
  proof (cases "v < 0x80")
    case True
    have "\<not> (i = 9 \<and> (ucast v :: byte) > 1)"
      using "1.prems" by (auto simp: word_less_nat_alt unat_ucast_byte)
    with True "1.prems" show ?thesis
      by (simp add: put_uvarint.simps [of v] ucast_small uvarint_last_bits)
  next
    case False
    then have big: "128 \<le> unat v" by (simp add: word_less_nat_alt)
    have i: "i < 9"
    proof (rule ccontr)
      assume "\<not> i < 9"
      with "1.prems"(1) have "i = 9" by simp
      with "1.prems"(2) big show False by simp
    qed
    have e: "64 - 7 * i = (64 - 7 * (i + 1)) + 7" using i by simp
    have "(2 :: nat) ^ (64 - 7 * i) = 2 ^ (64 - 7 * (i + 1)) * 2 ^ 7"
      by (subst e) (rule power_add)
    with "1.prems"(2) have "unat v < 2 ^ (64 - 7 * (i + 1)) * 128" by simp
    then have "unat (drop_bit 7 v) < 2 ^ (64 - 7 * (i + 1))"
      by (simp add: drop_bit_eq_div unat_div less_mult_imp_div_less)
    note IH = "1.IH" [OF False _ this]
    let ?x = "x OR push_bit (7 * i) (ucast ((ucast v OR 0x80 :: byte) AND 0x7F))"
    have "uvarint_loop (put_uvarint v @ rest) i x (7 * i) =
        uvarint_loop (put_uvarint (drop_bit 7 v) @ rest) (i + 1) ?x (7 * (i + 1))"
      using False i by (simp add: put_uvarint.simps [of v] or_0x80_not_small add.commute)
    also have "\<dots> = (?x OR push_bit (7 * i + 7) (drop_bit 7 v),
        int (i + 1) + int (length (put_uvarint (drop_bit 7 v))))"
      using IH [of ?x] i by (simp add: add.commute)
    also have "?x OR push_bit (7 * i + 7) (drop_bit 7 v) = x OR push_bit (7 * i) v"
      by (simp only: or.assoc uvarint_digit_bits)
    finally show ?thesis using False by (simp add: put_uvarint.simps [of v])
  qed
qed

lemma uvarint_put_uvarint:
  "uvarint (put_uvarint v @ rest) = (v, int (length (put_uvarint v)))"
  using uvarint_loop_put [of 0 v rest 0] unsigned_less [of v] by (simp add: uvarint_def)

lemma uvarint_loop_count: "i \<le> 10 \<Longrightarrow> snd (uvarint_loop bs i x s) \<le> 10"
  by (induction bs i x s rule: uvarint_loop.induct) auto


section \<open>The CRC\<close>

text \<open>The bitwise CRC-16/CCITT-FALSE of the standard: one byte is added to the high half,
  then eight shifts.\<close>

definition crc16_ref_next :: "16 word \<Rightarrow> byte \<Rightarrow> 16 word" where
  "crc16_ref_next crc b = (crc16_shift ^^ 8) (crc XOR push_bit 8 (ucast b))"

definition crc16_ref :: "bytes \<Rightarrow> 16 word" where
  "crc16_ref data = foldl crc16_ref_next 0xFFFF data"

lemma crc16_shift_alt: "crc16_shift c = push_bit 1 c XOR (if bit c 15 then 0x1021 else 0)"
proof -
  have "(c AND 2 ^ 15 = 0) = (\<not> bit c 15)" by (rule and_exp_eq_0_iff_not_bit)
  then show ?thesis by (simp add: crc16_shift_def)
qed

lemma crc16_shift_xor: "crc16_shift (x XOR y) = crc16_shift x XOR crc16_shift y"
  by (simp add: crc16_shift_alt bit_xor_iff push_bit_xor xor.assoc xor.left_commute)

lemma crc16_shift_pow_xor:
  "(crc16_shift ^^ n) (x XOR y) = (crc16_shift ^^ n) x XOR (crc16_shift ^^ n) y"
  by (induction n) (simp_all add: crc16_shift_xor)

lemma crc16_shift_low: "n \<le> 8 \<Longrightarrow> (crc16_shift ^^ n) (ucast (b :: byte)) = push_bit n (ucast b)"
proof (induction n)
  case 0
  then show ?case by simp
next
  case (Suc n)
  then have "\<not> bit (push_bit n (ucast b :: 16 word)) 15"
    by (auto simp: bit_simps dest: bit_imp_le_length)
  then have "crc16_shift (push_bit n (ucast b)) = push_bit 1 (push_bit n (ucast b))"
    by (simp only: crc16_shift_alt if_False xor.right_neutral)
  with Suc show ?case by (simp only: funpow.simps o_apply Suc_leD push_bit_push_bit) simp
qed

lemma xor_cancel_left: "w XOR x = w XOR y \<longleftrightarrow> x = (y :: 16 word)"
  by (metis xor.assoc xor.left_neutral xor_self_eq)

lemma xor_cancel_right: "x XOR w = y XOR w \<longleftrightarrow> x = (y :: 16 word)"
  by (metis xor.assoc xor.right_neutral xor_self_eq)

lemma crc16_shift_bit0: "bit (crc16_shift c) 0 \<longleftrightarrow> bit c 15"
proof -
  have "\<not> bit (push_bit 1 c) 0" by (simp only: bit_push_bit_iff) simp
  moreover have "bit (0x1021 :: 16 word) 0" by simp
  ultimately show ?thesis by (simp only: crc16_shift_alt bit_xor_iff) simp
qed

lemma inj_crc16_shift: "inj crc16_shift"
proof (rule injI)
  fix x y assume eq: "crc16_shift x = crc16_shift y"
  then have "bit (crc16_shift x) 0 = bit (crc16_shift y) 0" by simp
  then have top: "bit x 15 = bit y 15" by (simp only: crc16_shift_bit0)
  from eq top have "push_bit 1 x = push_bit 1 y"
    by (simp only: crc16_shift_alt xor_cancel_right)
  then have low: "bit x n = bit y n" if "n < 15" for n
    using that bit_push_bit_iff [of 1 x "Suc n"] bit_push_bit_iff [of 1 y "Suc n"] by simp
  show "x = y"
  proof (rule bit_word_eqI)
    fix n assume "n < LENGTH(16)"
    then have "n < 15 \<or> n = 15" by auto
    with low top show "bit x n = bit y n" by auto
  qed
qed

lemma crc16Table_nth: "crc16Table ! unat (b :: byte) = crc16_entry b"
proof -
  have "unat b < 256" using unsigned_less [of b] by simp
  then show ?thesis by (simp add: crc16Table_def)
qed

lemma crc16_halves: "push_bit 8 (ucast (ucast (drop_bit 8 c) :: byte)) XOR ucast (ucast c :: byte) = (c :: 16 word)"
  by (rule bit_word_eqI) (auto simp: bit_simps)

lemma push_ucast_low: "push_bit 8 (ucast (ucast c :: byte)) = push_bit 8 (c :: 16 word)"
  by (rule bit_word_eqI) (auto simp: bit_simps)

lemma push_ucast_xor:
  "push_bit 8 (ucast (a XOR b :: byte)) = push_bit 8 (ucast a) XOR (push_bit 8 (ucast b) :: 16 word)"
  by (rule bit_word_eqI) (auto simp: bit_simps)

lemma crc16_next_ref: "crc16_next c b = crc16_ref_next c b"
proof -
  let ?hi = "ucast (drop_bit 8 c) :: byte" and ?lo = "ucast c :: byte"
  have "c XOR push_bit 8 (ucast b) = push_bit 8 (ucast (?hi XOR b)) XOR ucast ?lo"
    by (subst crc16_halves [symmetric, of c]) (simp only: push_ucast_xor xor.commute xor.left_commute)
  then have "crc16_ref_next c b = crc16_entry (?hi XOR b) XOR push_bit 8 c"
    by (simp only: crc16_ref_next_def crc16_shift_pow_xor crc16_entry_def
        crc16_shift_low [OF order_refl] push_ucast_low)
  then show ?thesis
    by (simp add: crc16_next_def crc16Table_nth xor.commute)
qed

lemma inj_crc16_next_state: "inj (\<lambda>c. crc16_next c b)"
proof -
  have "inj (crc16_shift ^^ 8)" by (rule inj_fn) (rule inj_crc16_shift)
  moreover have "inj (\<lambda>c :: 16 word. c XOR w)" for w
    by (rule injI) (simp only: xor_cancel_right)
  ultimately show ?thesis
    unfolding crc16_next_ref crc16_ref_next_def by (blast intro: injI dest: injD)
qed

lemma inj_crc16_state: "foldl crc16_next c data = foldl crc16_next d data \<Longrightarrow> c = d"
  by (induction data arbitrary: c d) (auto dest: injD [OF inj_crc16_next_state])

text \<open>Two bytes in a row amount to adding a 16-bit value to the state: they never collide.\<close>

lemma crc16_two_bytes:
  "crc16_next (crc16_next c a) b = (crc16_shift ^^ 16) (c XOR (push_bit 8 (ucast a) XOR ucast b))"
proof -
  have "push_bit 8 (ucast b) = (crc16_shift ^^ 8) (ucast b)" by (simp add: crc16_shift_low)
  then have "crc16_next (crc16_next c a) b
      = (crc16_shift ^^ 8) ((crc16_shift ^^ 8) (c XOR push_bit 8 (ucast a)) XOR (crc16_shift ^^ 8) (ucast b))"
    by (simp only: crc16_next_ref crc16_ref_next_def)
  also have "\<dots> = (crc16_shift ^^ (8 + 8)) ((c XOR push_bit 8 (ucast a)) XOR ucast b)"
    by (simp only: crc16_shift_pow_xor [symmetric] funpow_add o_apply)
  finally show ?thesis by (simp only: xor.assoc) simp
qed

lemma crc16_two_bytes_inj:
  assumes "crc16_next (crc16_next c a) b = crc16_next (crc16_next c a') b'"
  shows "a = a' \<and> b = b'"
proof -
  have "inj (crc16_shift ^^ 16)" by (rule inj_fn) (rule inj_crc16_shift)
  with assms have "c XOR (push_bit 8 (ucast a) XOR ucast b) = c XOR (push_bit 8 (ucast a') XOR ucast b')"
    by (simp only: crc16_two_bytes inj_eq)
  then have eq: "push_bit 8 (ucast a) XOR ucast b = (push_bit 8 (ucast a') XOR ucast b' :: 16 word)"
    by (simp only: xor_cancel_left)
  have "bit a n = bit a' n" if "n < 8" for n
    using arg_cong [OF eq, of "\<lambda>w. bit w (n + 8)"] that
    by (auto simp: bit_simps dest: bit_imp_le_length)
  moreover have "bit b n = bit b' n" if "n < 8" for n
    using arg_cong [OF eq, of "\<lambda>w. bit w n"] that by (simp add: bit_simps)
  ultimately show ?thesis by (auto intro: bit_word_eqI)
qed


section \<open>One record\<close>

lemma AppendRecord_dst: "AppendRecord dst t p = dst @ AppendRecord [] t p"
  by (simp add: AppendRecord_def Let_def)

definition frame :: "tag \<Rightarrow> bytes \<Rightarrow> 16 word \<Rightarrow> 16 word \<Rightarrow> bytes" where
  "frame t p c m = put_u16 startMagic @ record_body t p @ put_u16 c @ put_u16 m"

lemma AppendRecord_frame: "AppendRecord dst t p = dst @ frame t p (crc16 (record_body t p)) endMagic"
  by (simp add: AppendRecord_def frame_def Let_def)

lemma length_frame: "length (frame t p c m) = 7 + length (put_uvarint (of_nat (length p))) + length p"
  by (simp add: frame_def record_body_def)

lemma slice_append_mid: "go_slice (xs @ ys @ zs) (int (length xs)) (int (length xs + length ys)) = Some ys"
  by (simp add: go_slice_def)

lemma slice_u16_mid: "slice_u16 (xs @ put_u16 c @ zs) (int (length xs)) = Some c"
proof -
  have "go_slice (xs @ put_u16 c @ zs) (int (length xs)) (int (length xs) + 2) = Some (put_u16 c)"
    using slice_append_mid [of xs "put_u16 c" zs] by (simp add: add.commute)
  then show ?thesis by (simp add: slice_u16_def put_u16_def)
qed

lemma unat_of_nat_small: "n < 2 ^ 62 \<Longrightarrow> unat (of_nat n :: 64 word) = n"
  by (simp add: unat_of_nat take_bit_eq_mod)

lemma sint_of_nat_small: "n < 2 ^ 62 \<Longrightarrow> sint (of_nat n :: 64 word) = int n"
  by (simp add: signed_of_nat signed_take_bit_int_eq_self)

text \<open>What the decoder does on a buffer that starts with a frame, whatever its CRC and end magic.\<close>

lemma decodeOneRecord_frame:
  assumes len: "length (frame t p c m @ rest) < 2 ^ 62"
  shows "decodeOneRecord (frame t p c m @ rest) =
    (if c \<noteq> crc16 (record_body t p) then Reject else if m \<noteq> endMagic then Reject
     else Accept t p (length (frame t p c m)))"
proof -
  let ?lb = "put_uvarint (of_nat (length p)) :: bytes"
  let ?sm = "put_u16 startMagic" and ?b = "frame t p c m @ rest"
  define pos where "pos = 3 + length ?lb"
  define e where "e = pos + length p"
  have lenb: "length ?b = e + 4 + length rest"
    by (simp add: length_frame pos_def e_def)
  have small: "e + 4 < 2 ^ 62" "length p < 2 ^ 62" using len lenb by (simp_all add: e_def)
  have "0 < length ?lb" by simp
  then have long: "\<not> length ?b < minRecordLen"
    unfolding lenb by (simp add: e_def pos_def minRecordLen_def)
  have b1: "?b = (?sm @ [t]) @ ?lb @ p @ put_u16 c @ put_u16 m @ rest"
    by (simp add: frame_def record_body_def)
  have nth2: "?b ! 2 = t" by (simp add: frame_def record_body_def nth_append put_u16_def)
  have "drop 3 ?b = ?lb @ p @ put_u16 c @ put_u16 m @ rest"
    unfolding b1 by simp
  then have uv: "uvarint (drop 3 ?b) = (of_nat (length p), int (length ?lb))"
    by (simp only: uvarint_put_uvarint)
  have lp: "unat (of_nat (length p) :: 64 word) = length p"
    using small(2) by (rule unat_of_nat_small)
  have lb: "unat (of_nat (length ?b) :: 64 word) = length ?b"
    using len by (rule unat_of_nat_small)
  have si: "sint (of_nat (length p) :: 64 word) = int (length p)"
    using small(2) by (rule sint_of_nat_small)
  have w1: "wrap64 (3 + int (length ?lb) + int (length p)) = int e"
    using small by (subst wrap64_id) (simp_all add: e_def pos_def int64_min_def int64_max_def)
  have w2: "wrap64 (int e + 4) = int e + 4"
    using small by (subst wrap64_id) (simp_all add: int64_min_def int64_max_def)
  have s1: "slice_u16 ?b (int e) = Some c"
    using slice_u16_mid [of "?sm @ t # ?lb @ p" c "put_u16 m @ rest"]
    by (simp add: frame_def record_body_def e_def pos_def algebra_simps)
  have s2: "go_slice ?b 2 (int e) = Some (record_body t p)"
    using slice_append_mid [of ?sm "record_body t p" "put_u16 c @ put_u16 m @ rest"]
    by (simp add: frame_def record_body_def e_def pos_def algebra_simps)
  have s3: "slice_u16 ?b (int e + 2) = Some m"
    using slice_u16_mid [of "?sm @ t # ?lb @ p @ put_u16 c" m "rest"]
    by (simp add: frame_def record_body_def e_def pos_def algebra_simps)
  have s4: "go_slice ?b (3 + int (length ?lb)) (int e) = Some p"
    using slice_append_mid [of "?sm @ t # ?lb" p "put_u16 c @ put_u16 m @ rest"]
    by (simp add: frame_def record_body_def e_def pos_def algebra_simps)
  have g: "\<not> (of_nat (length p) > (of_nat (length ?b) :: 64 word))"
    by (simp only: word_less_nat_alt lp lb) (simp add: length_frame)
  have "nat (int e + 4) = length (frame t p c m)"
    by (simp add: length_frame e_def pos_def)
  with g long nth2 uv si w1 w2 s1 s2 s3 s4 lenb show ?thesis
    by (simp add: decodeOneRecord_def e_def pos_def length_frame)
qed


lemma put_get_u16: "put_u16 (get_u16 hi lo) = [hi, lo]"
proof -
  have "ucast (drop_bit 8 (get_u16 hi lo)) = hi"
    by (rule bit_word_eqI) (auto simp: get_u16_def bit_simps dest: bit_imp_le_length)
  moreover have "ucast (get_u16 hi lo) = lo"
    by (rule bit_word_eqI) (auto simp: get_u16_def bit_simps dest: bit_imp_le_length)
  ultimately show ?thesis by (simp add: put_u16_def)
qed

lemma go_slice_Some:
  "go_slice b i j = Some xs \<longleftrightarrow> 0 \<le> i \<and> i \<le> j \<and> j \<le> int (length b) \<and> xs = take (nat (j - i)) (drop (nat i) b)"
  by (auto simp: go_slice_def)

lemma slice_u16_Some:
  "slice_u16 b i = Some c \<Longrightarrow> 0 \<le> i \<and> i + 2 \<le> int (length b) \<and> take 2 (drop (nat i) b) = put_u16 c"
  by (auto simp: slice_u16_def go_slice_Some put_get_u16 split: option.splits list.splits)

lemma length_two: "length xs = 2 \<Longrightarrow> \<exists>x y. xs = [x, y]"
  by (auto simp: length_Suc_conv numeral_2_eq_2)

lemma slice_u16_defined: "0 \<le> i \<Longrightarrow> i + 2 \<le> int (length b) \<Longrightarrow> \<exists>c. slice_u16 b i = Some c"
proof -
  assume "0 \<le> i" "i + 2 \<le> int (length b)"
  then have "length (take 2 (drop (nat i) b)) = 2" by simp
  then obtain x y where "take 2 (drop (nat i) b) = [x, y]" using length_two by blast
  with \<open>0 \<le> i\<close> \<open>i + 2 \<le> int (length b)\<close> show ?thesis
    by (simp add: slice_u16_def go_slice_def)
qed

text \<open>With a buffer below \<open>2^62\<close> bytes the checked index arithmetic of the decoder is exact.\<close>

lemma decode_bounds_exact:
  assumes "length b < 2 ^ 62" and "uvarint (drop 3 b) = (pl, n)" and "0 < n"
    and "\<not> pl > of_nat (length b)" and L: "unat pl = L"
  shows "sint pl = int L" and "wrap64 (3 + n + int L) = 3 + n + int L"
    and "wrap64 (3 + n + int L + 4) = 3 + n + int L + 4"
proof -
  have n: "n \<le> 10" using uvarint_loop_count [of 0 "drop 3 b" 0 0] assms(2) by (simp add: uvarint_def)
  have pl: "L < 2 ^ 62"
    using assms(1,4) L by (simp add: word_less_nat_alt unat_of_nat_small)
  from L have "pl = of_nat L" by auto
  with pl show "sint pl = int L" by (simp only: sint_of_nat_small)
  show "wrap64 (3 + n + int L) = 3 + n + int L" and "wrap64 (3 + n + int L + 4) = 3 + n + int L + 4"
    using n pl assms(3) by (simp_all add: wrap64_id int64_min_def int64_max_def)
qed

lemma decodeOneRecord_Accept:
  assumes acc: "decodeOneRecord b = Accept t p n" and len: "length b < 2 ^ 62"
  obtains lb where "8 \<le> n" and "n \<le> length b"
    and "take n b = take 2 b @ (t # lb @ p) @ put_u16 (crc16 (t # lb @ p)) @ put_u16 endMagic"
    and "uvarint (drop 3 b) = (of_nat (length p), int (length lb))"
proof -
  obtain pl k where uv: "uvarint (drop 3 b) = (pl, k)" by fastforce
  from acc uv have k: "0 < k" and g: "\<not> pl > of_nat (length b)" and t: "t = b ! 2"
    and long: "8 \<le> length b"
    by (auto simp: decodeOneRecord_def Let_def minRecordLen_def split: if_splits option.splits)
  obtain L where L: "unat pl = L" by simp
  note ex = decode_bounds_exact [OF len uv k g L]
  define P E where "P = nat (3 + k)" and "E = P + L"
  have PE: "3 + k = int P" "int P + int L = int E" "4 \<le> P" "P \<le> E"
    using k by (auto simp: P_def E_def)
  from acc uv k g long obtain c body m where
    c: "slice_u16 b (int E) = Some c" and body: "go_slice b 2 (int E) = Some body"
    and m: "slice_u16 b (int E + 2) = Some m" and p: "go_slice b (int P) (int E) = Some p"
    and crc: "c = crc16 body" and em: "m = endMagic" and n: "n = E + 4"
    by (auto simp: decodeOneRecord_def Let_def minRecordLen_def ex [unfolded PE] PE nat_add_distrib
        split: if_splits option.splits)
  define lb where "lb = take (P - 3) (drop 3 b)"
  have bound: "E + 4 \<le> length b" using slice_u16_Some [OF m] by simp
  have body': "body = take (E - 2) (drop 2 b)" and p': "p = take (E - P) (drop P b)"
    using body p PE(3,4) by (auto simp: go_slice_Some nat_diff_distrib)
  have "drop 2 b = b ! 2 # drop 3 b"
    using long by (simp add: Cons_nth_drop_Suc numeral_3_eq_3 numeral_2_eq_2)
  moreover have "E - 2 = Suc ((P - 3) + (E - P))" using PE(3,4) by simp
  ultimately have "body = t # take ((P - 3) + (E - P)) (drop 3 b)"
    by (simp only: body' t take_Suc_Cons)
  then have "body = t # take (P - 3) (drop 3 b) @ take (E - P) (drop (P - 3) (drop 3 b))"
    by (simp only: take_add)
  then have bd: "body = t # lb @ p"
    using PE(3) by (simp add: lb_def p')
  have E2: "2 + (E - 2) = E" using PE(3,4) by simp
  have E3: "nat (int E + 2) = E + 2" by simp
  have "take n b = take 2 b @ take (E - 2) (drop 2 b) @ take 2 (drop E b) @ take 2 (drop (E + 2) b)"
    using take_add [of E 4 b] take_add [of 2 "E - 2" b, unfolded E2] take_add [of 2 2 "drop E b"] PE(3,4)
    by (simp add: n add.commute)
  then have "take n b = take 2 b @ body @ put_u16 c @ put_u16 m"
    using slice_u16_Some [OF c] slice_u16_Some [OF m] by (simp only: body' nat_int E3)
  moreover have "length p = L" using bound by (simp add: p' E_def)
  moreover have "P = 3 + nat k" using PE(1) k by linarith
  then have "length lb = nat k" using bound PE(4) by (simp add: lb_def)
  moreover have "pl = of_nat L" using L by auto
  ultimately show ?thesis
    using that [of lb] uv k bound n PE(3,4) bd crc em by simp
qed


lemma decodeOneRecord_Accept_bounds:
  assumes "decodeOneRecord b = Accept t p n" and "length b < 2 ^ 62"
  shows "8 \<le> n \<and> n \<le> length b"
  using decodeOneRecord_Accept [OF assms] by blast

lemma decodeOneRecord_not_Panic:
  assumes len: "length b < 2 ^ 62"
  shows "decodeOneRecord b \<noteq> Panic"
proof -
  obtain pl k where uv: "uvarint (drop 3 b) = (pl, k)" by fastforce
  show ?thesis
  proof (cases "length b < minRecordLen \<or> k \<le> 0 \<or> pl > of_nat (length b)")
    case True
    with uv show ?thesis by (auto simp: decodeOneRecord_def Let_def)
  next
    case False
    then have k: "0 < k" and g: "\<not> pl > of_nat (length b)" by auto
    obtain L where L: "unat pl = L" by simp
    note ex = decode_bounds_exact [OF len uv k g L]
    obtain E where E: "3 + k + int L = E" by simp
    note ex' = ex [unfolded E]
    have E0: "0 \<le> E" "3 + k \<le> E" using E k by auto
    show ?thesis
    proof (cases "E + 4 \<le> int (length b)")
      case True
      with E0 obtain c where "slice_u16 b E = Some c"
        using slice_u16_defined [of E b] by auto
      moreover from True E0 obtain m where "slice_u16 b (E + 2) = Some m"
        using slice_u16_defined [of "E + 2" b] by auto
      ultimately show ?thesis
        using True False E0 k uv by (simp add: decodeOneRecord_def Let_def ex' E go_slice_def)
    next
      case False
      with uv show ?thesis by (simp add: decodeOneRecord_def Let_def ex' E)
    qed
  qed
qed

section \<open>Streams of records\<close>

lemma findMagic_None:
  "findMagic b startMagic = None \<longleftrightarrow> (\<forall>i. i + 1 < length b \<longrightarrow> \<not> (b ! i = 0xC5 \<and> b ! (i + 1) = 0xA7))"
proof -
  have "(ucast (drop_bit 8 startMagic) :: byte) = 0xC5" and "(ucast startMagic :: byte) = 0xA7"
    by (simp_all add: startMagic_def)
  then show ?thesis
    by (auto simp: findMagic_def find_None_iff less_diff_conv)
qed

lemma findMagic_after_clean:
  assumes "findMagic g startMagic = None"
  shows "findMagic (g @ 0xC5 # 0xA7 # rest) startMagic = Some (length g)"
proof -
  let ?b = "g @ 0xC5 # 0xA7 # rest"
  define Q where "Q = (\<lambda>i. ?b ! i = 0xC5 \<and> ?b ! (i + 1) = 0xA7)"
  have m: "(ucast (drop_bit 8 startMagic) :: byte) = 0xC5" "(ucast startMagic :: byte) = 0xA7"
    by (simp_all add: startMagic_def)
  have no: "\<not> Q i" if "i < length g" for i
  proof (cases "i + 1 < length g")
    case True
    with assms that show ?thesis by (auto simp: Q_def findMagic_None nth_append)
  next
    case False
    with that have "i + 1 = length g" by simp
    then show ?thesis by (simp add: Q_def nth_append)
  qed
  moreover have "Q (length g)" by (simp add: Q_def nth_append)
  ultimately have "find Q [0..<length ?b - 1] = Some (length g)"
    by (intro find_least) simp_all
  then show ?thesis by (simp only: findMagic_def Let_def m Q_def)
qed

lemma put_startMagic: "put_u16 startMagic = [0xC5, 0xA7]"
  by (simp add: put_u16_def startMagic_def)

definition AppendAll :: "log_record list \<Rightarrow> bytes" where
  "AppendAll rs = foldl (\<lambda>dst r. AppendRecord dst (rec_tag r) (rec_payload r)) [] rs"

lemma foldl_AppendRecord:
  "foldl (\<lambda>dst r. AppendRecord dst (rec_tag r) (rec_payload r)) d rs =
     d @ concat (map (\<lambda>r. AppendRecord [] (rec_tag r) (rec_payload r)) rs)"
  by (induction rs arbitrary: d) (simp_all add: AppendRecord_dst [of "AppendRecord _ _ _"]
      AppendRecord_dst [of "_ @ _"], metis AppendRecord_dst append.assoc)


lemma DecodeRecords_clean: "findMagic g startMagic = None \<Longrightarrow> DecodeRecords g = ([], 0)"
  by (subst DecodeRecords.simps) simp

lemma DecodeRecords_frame:
  assumes clean: "findMagic g startMagic = None"
    and len: "length (AppendRecord [] t p @ rest) < 2 ^ 62"
  shows "DecodeRecords (g @ AppendRecord [] t p @ rest) =
    (let (rs, c) = DecodeRecords rest in (\<lparr>rec_tag = t, rec_payload = p\<rparr> # rs, c))"
proof -
  let ?b = "AppendRecord [] t p @ rest"
  obtain tl where "?b = 0xC5 # 0xA7 # tl"
    by (simp add: AppendRecord_frame frame_def put_startMagic)
  then have "findMagic (g @ ?b) startMagic = Some (length g)"
    using findMagic_after_clean [OF clean] by simp
  moreover have "decodeOneRecord ?b = Accept t p (length (AppendRecord [] t p))"
    using len decodeOneRecord_frame [of t p "crc16 (record_body t p)" endMagic rest]
    by (simp add: AppendRecord_frame)
  ultimately show ?thesis
    by (subst DecodeRecords.simps) simp
qed

lemma DecodeRecords_stream:
  assumes "findMagic g startMagic = None"
    and "length (concat (map (\<lambda>r. AppendRecord [] (rec_tag r) (rec_payload r)) rs)) < 2 ^ 62"
  shows "DecodeRecords (g @ concat (map (\<lambda>r. AppendRecord [] (rec_tag r) (rec_payload r)) rs)) = (rs, 0)"
  using assms
proof (induction rs arbitrary: g)
  case Nil
  then show ?case by (simp add: DecodeRecords_clean)
next
  case (Cons r rs)
  let ?rest = "concat (map (\<lambda>r. AppendRecord [] (rec_tag r) (rec_payload r)) rs)"
  have "findMagic [] startMagic = None" by (simp add: findMagic_None)
  with Cons have "DecodeRecords ?rest = (rs, 0)" using Cons.IH [of "[]"] by simp
  with Cons.prems show ?case
    using DecodeRecords_frame [of g "rec_tag r" "rec_payload r" ?rest] by simp
qed

lemma DecodeRecords_AppendAll: "length (AppendAll rs) < 2 ^ 62 \<Longrightarrow> DecodeRecords (AppendAll rs) = (rs, 0)"
  using DecodeRecords_stream [of "[]" rs] by (simp add: AppendAll_def foldl_AppendRecord findMagic_None)

text \<open>Two adjacent payload bytes overwritten in an encoded record.\<close>

definition payload_offset :: "bytes \<Rightarrow> nat" where
  "payload_offset p = 3 + length (put_uvarint (of_nat (length p)))"

lemma AppendRecord_damage:
  assumes "Suc i < length p"
  shows "(AppendRecord [] t p)[payload_offset p + i := x, payload_offset p + Suc i := y] =
    frame t (p[i := x, Suc i := y]) (crc16 (record_body t p)) endMagic"
proof -
  have "AppendRecord [] t p = (put_u16 startMagic @ t # put_uvarint (of_nat (length p))) @ p
      @ put_u16 (crc16 (record_body t p)) @ put_u16 endMagic"
    by (simp add: AppendRecord_frame frame_def record_body_def)
  moreover have "length (put_u16 startMagic @ t # put_uvarint (of_nat (length p))) = payload_offset p"
    by (simp add: payload_offset_def)
  ultimately show ?thesis
    using assms by (simp add: list_update_append frame_def record_body_def payload_offset_def)
qed

lemma crc16_damage:
  assumes "Suc i < length p" and "(x, y) \<noteq> (p ! i, p ! Suc i)"
  shows "crc16 (pre @ p[i := x, Suc i := y]) \<noteq> crc16 (pre @ p)"
proof
  let ?post = "drop (Suc (Suc i)) p"
  let ?c = "foldl crc16_next 0xFFFF (pre @ take i p)"
  have split: "p = take i p @ p ! i # p ! Suc i # ?post"
    using assms(1) by (metis Cons_nth_drop_Suc Suc_lessD id_take_nth_drop)
  have upd: "p[i := x, Suc i := y] = take i p @ x # y # ?post"
    using assms(1) by (subst split) (simp add: list_update_append)
  assume "crc16 (pre @ p[i := x, Suc i := y]) = crc16 (pre @ p)"
  then have "foldl crc16_next (crc16_next (crc16_next ?c x) y) ?post
      = foldl crc16_next (crc16_next (crc16_next ?c (p ! i)) (p ! Suc i)) ?post"
    by (subst (asm) (2) split) (simp add: crc16_def upd)
  then have "crc16_next (crc16_next ?c x) y = crc16_next (crc16_next ?c (p ! i)) (p ! Suc i)"
    by (rule inj_crc16_state)
  then have "x = p ! i \<and> y = p ! Suc i" by (rule crc16_two_bytes_inj)
  with assms(2) show False by simp
qed

lemma DecodeRecords_bound:
  "length data < 2 ^ 62 \<Longrightarrow> DecodeRecords data = (rs, c) \<Longrightarrow> 8 * length rs + c \<le> length data"
proof (induction data arbitrary: rs c rule: DecodeRecords.induct)
  case (1 data)
  show ?case
  proof (cases "findMagic data startMagic")
    case None
    with 1 show ?thesis by (simp add: DecodeRecords_clean)
  next
    case (Some off)
    then have off: "off + 1 < length data" by (rule findMagic_bound)
    show ?thesis
    proof (cases "decodeOneRecord (drop off data)")
      case (Accept t p n)
      obtain rs' c' where rec: "DecodeRecords (drop n (drop off data)) = (rs', c')" by fastforce
      have n: "8 \<le> n" "n \<le> length (drop off data)"
        using decodeOneRecord_Accept_bounds [OF Accept] "1.prems"(1) by auto
      have "8 * length rs' + c' \<le> length (drop n (drop off data))"
        using "1.IH"(3) [OF Some Accept _ rec] "1.prems"(1) by simp
      with "1.prems"(2) Some Accept rec n off show ?thesis
        by (subst (asm) DecodeRecords.simps) auto
    next
      case Panic
      moreover have "length (drop off data) < 2 ^ 62" using "1.prems"(1) by simp
      ultimately show ?thesis using decodeOneRecord_not_Panic by blast
    next
      case Reject
      obtain rs' c' where rec: "DecodeRecords (drop 1 (drop off data)) = (rs', c')" by fastforce
      have "8 * length rs' + c' \<le> length (drop 1 (drop off data))"
        using "1.IH"(2) [OF Some Reject _ rec] "1.prems"(1) by simp
      with "1.prems"(2) Some Reject rec off show ?thesis
        by (subst (asm) DecodeRecords.simps) auto
    qed
  qed
qed

section \<open>Properties\<close>

text \<open>Property C9: framing round trip and resynchronisation. A buffer produced by appending
  records with \<open>AppendRecord\<close> decodes to exactly those records, in order, with no record counted
  as corrupt, also when it is preceded by bytes (the remains of an overwritten record, say) in
  which the start magic does not occur.\<close>

theorem binlog_roundtrip:
  assumes "findMagic g startMagic = None" and "length (AppendAll rs) < 2 ^ 62"
  shows "DecodeRecords (g @ AppendAll rs) = (rs, 0)"
  using assms DecodeRecords_stream [of g rs] by (simp add: AppendAll_def foldl_AppendRecord)


theorem binlog_roundtrip_witness:
  "DecodeRecords ([1, 2] @ AppendAll [\<lparr>rec_tag = 1, rec_payload = [7, 8]\<rparr>])
     = ([\<lparr>rec_tag = 1, rec_payload = [7, 8]\<rparr>], 0)"
  by (rule binlog_roundtrip)
    (simp_all add: findMagic_None less_Suc_eq AppendAll_def AppendRecord_frame length_frame
      put_uvarint.simps)

text \<open>Property C10: the table-driven CRC of \<open>crc16\<close> is the bitwise CRC-16/CCITT-FALSE.\<close>

theorem crc16_table_driven: "crc16 data = crc16_ref data"
proof -
  have "crc16_next = crc16_ref_next" by (intro ext) (rule crc16_next_ref)
  then show ?thesis by (simp add: crc16_def crc16_ref_def)
qed

text \<open>Property C11: damage detection. A record in which one or two adjacent payload bytes were
  overwritten with other values is rejected by the decoder, whatever follows it.\<close>

theorem binlog_detects_damage:
  assumes "Suc i < length p" and "(x, y) \<noteq> (p ! i, p ! Suc i)"
    and "length (AppendRecord [] t p @ rest) < 2 ^ 62"
  shows "decodeOneRecord ((AppendRecord [] t p)
           [payload_offset p + i := x, payload_offset p + Suc i := y] @ rest) = Reject"
proof -
  let ?p = "p[i := x, Suc i := y]"
  have "crc16 (record_body t p) \<noteq> crc16 (record_body t ?p)"
    using crc16_damage [OF assms(1,2), of "t # put_uvarint (of_nat (length p))"]
    by (simp add: record_body_def)
  moreover have "length (frame t ?p (crc16 (record_body t p)) endMagic @ rest) < 2 ^ 62"
    using assms(3) by (simp add: AppendRecord_frame length_frame)
  ultimately show ?thesis
    unfolding AppendRecord_damage [OF assms(1)] by (simp only: decodeOneRecord_frame) simp
qed

theorem binlog_detects_damage_witness:
  "decodeOneRecord ((AppendRecord [] 1 [65, 66])
     [payload_offset [65, 66] + 0 := 65, payload_offset [65, 66] + Suc 0 := 67] @ [9]) = Reject"
  by (rule binlog_detects_damage)
    (simp_all add: AppendRecord_frame length_frame put_uvarint.simps)

text \<open>The decoder is memory safe and sound. On any buffer that fits in memory no index
  expression traps, and a record it accepts is a span of the buffer that carries a matching CRC and
  the end magic.\<close>

theorem binlog_decoder_sound:
  assumes "length b < 2 ^ 62"
  shows "case decodeOneRecord b of
      Panic \<Rightarrow> False
    | Reject \<Rightarrow> True
    | Accept t p n \<Rightarrow> minRecordLen \<le> n \<and> n \<le> length b \<and>
        (\<exists>lb. take n b = take 2 b @ (t # lb @ p) @ put_u16 (crc16 (t # lb @ p)) @ put_u16 endMagic
            \<and> uvarint (drop 3 b) = (of_nat (length p), int (length lb)))"
proof (cases "decodeOneRecord b")
  case (Accept t p n)
  from Accept assms show ?thesis
    by (rule decodeOneRecord_Accept) (auto simp: Accept minRecordLen_def)
next
  case Panic
  with decodeOneRecord_not_Panic [OF assms] show ?thesis by simp
qed simp

theorem binlog_decoder_sound_witness:
  "case decodeOneRecord [0xC5, 0xA7, 3, 200] of
      Panic \<Rightarrow> False
    | Reject \<Rightarrow> True
    | Accept t p n \<Rightarrow> minRecordLen \<le> n \<and> n \<le> length [0xC5, 0xA7, 3, 200 :: byte] \<and>
        (\<exists>lb. take n [0xC5, 0xA7, 3, 200] = take 2 [0xC5, 0xA7, 3, 200] @ (t # lb @ p)
              @ put_u16 (crc16 (t # lb @ p)) @ put_u16 endMagic
            \<and> uvarint (drop 3 [0xC5, 0xA7, 3, 200]) = (of_nat (length p), int (length lb)))"
  by (rule binlog_decoder_sound) simp

text \<open>The scan terminates with a bounded result. Every decoded record accounts for at
  least eight bytes of the buffer and every corrupt count for at least one.\<close>

theorem binlog_decode_bounded:
  assumes "length data < 2 ^ 62"
  shows "minRecordLen * length (fst (DecodeRecords data)) + snd (DecodeRecords data) \<le> length data"
  using DecodeRecords_bound [OF assms, of "fst (DecodeRecords data)" "snd (DecodeRecords data)"]
  by (simp add: minRecordLen_def)

theorem binlog_decode_bounded_witness:
  "minRecordLen * length (fst (DecodeRecords [0xC5, 0xA7, 0])) + snd (DecodeRecords [0xC5, 0xA7, 0])
     \<le> length [0xC5, 0xA7, 0 :: byte]"
  by (rule binlog_decode_bounded) simp

text \<open>The text view. From a stream of marked text lines and structured events,
  \<open>Decode\<close> gives back the text lines, byte for byte and in order, and nothing of the events.\<close>

theorem binlog_text_view:
  assumes "length (AppendAll (map (\<lambda>(t, structured, x). \<lparr>rec_tag = t,
      rec_payload = (if structured then FormatStructured else FormatText) # x\<rparr>) es)) < 2 ^ 62"
  shows "Decode (AppendAll (map (\<lambda>(t, structured, x). \<lparr>rec_tag = t,
      rec_payload = (if structured then FormatStructured else FormatText) # x\<rparr>) es))
    = (concat (map (\<lambda>(t, structured, x). if structured then [] else x) es), 0)"
proof -
  have "record_text ((if s then FormatStructured else FormatText) # x) = (if s then [] else x)" for s x
    by (simp add: record_text_def HasFormatMarker_def FormatText_def FormatStructured_def)
  then show ?thesis
    unfolding Decode_def DecodeRecords_AppendAll [OF assms] by (simp add: o_def case_prod_unfold)
qed

theorem binlog_text_view_witness:
  "Decode (AppendAll (map (\<lambda>(t, structured, x). \<lparr>rec_tag = t,
      rec_payload = (if structured then FormatStructured else FormatText) # x\<rparr>)
        [(1, False, [72, 105]), (2, True, [1])]))
    = (concat (map (\<lambda>(t, structured, x). if structured then [] else x)
        [(1 :: byte, False, [72, 105]), (2, True, [1])]), 0)"
  by (rule binlog_text_view)
    (simp add: AppendAll_def AppendRecord_frame length_frame put_uvarint.simps)

end
