(* ===== verification/Go_Lib.thy ===== *)
theory Go_Lib
  imports Prelude
begin

text \<open>
  The parts of the Go standard library the components call and whose exact behaviour the
  properties depend on: conversions between \<open>string\<close> and \<open>[]byte\<close>, \<open>encoding/hex\<close>,
  \<open>base64.RawURLEncoding\<close>, the decimal format of \<open>fmt.Sprintf("%d", x)\<close> and big-endian
  integers of \<open>encoding/binary\<close>, \<open>net.SplitHostPort\<close>. A Go string is a sequence of bytes, so HOL's
  \<^typ>\<open>string\<close>, a list of 8-bit characters, is the same data.
\<close>

unbundle bit_operations_syntax

section \<open>Strings and bytes\<close>

definition str_bytes :: "string \<Rightarrow> bytes" where
  "str_bytes s = map (\<lambda>c. word_of_nat (of_char c)) s"

definition bytes_str :: "bytes \<Rightarrow> string" where
  "bytes_str bs = map (\<lambda>b. char_of (unat b)) bs"

lemma byte_unat_lt: "unat (b :: byte) < 256"
  using unsigned_less [of b, where 'a = nat] by simp

lemma bytes_str_inverse [simp]: "bytes_str (str_bytes s) = s"
  by (simp add: bytes_str_def str_bytes_def comp_def unat_of_nat)

lemma str_bytes_inverse [simp]: "str_bytes (bytes_str bs) = bs"
  by (simp add: bytes_str_def str_bytes_def comp_def of_char_of byte_unat_lt)

lemma str_bytes_inject [simp]: "str_bytes s = str_bytes t \<longleftrightarrow> s = t"
  by (metis bytes_str_inverse)

lemma str_bytes_append [simp]: "str_bytes (s @ t) = str_bytes s @ str_bytes t"
  by (simp add: str_bytes_def)

section \<open>Hexadecimal\<close>

definition hextable :: string where "hextable = map char_of ([48..<58] @ [97..<103])"

definition hex_encode :: "bytes \<Rightarrow> string" where
  "hex_encode bs = concat (map (\<lambda>b. [hextable ! unat (drop_bit 4 b), hextable ! unat (b AND 15)]) bs)"

definition fromHexChar :: "char \<Rightarrow> byte option" where
  "fromHexChar c = (let n = of_char c :: nat in
     if 48 \<le> n \<and> n \<le> 57 then Some (word_of_nat (n - 48))
     else if 97 \<le> n \<and> n \<le> 102 then Some (word_of_nat (n - 97 + 10))
     else if 65 \<le> n \<and> n \<le> 70 then Some (word_of_nat (n - 65 + 10))
     else None)"

fun hex_decode :: "string \<Rightarrow> bytes option" where
  "hex_decode [] = Some []"
| "hex_decode [c] = None"
| "hex_decode (p # q # s) =
     (case fromHexChar p of None \<Rightarrow> None | Some a \<Rightarrow>
      case fromHexChar q of None \<Rightarrow> None | Some b \<Rightarrow>
      case hex_decode s of None \<Rightarrow> None | Some bs \<Rightarrow> Some ((push_bit 4 a OR b) # bs))"

text \<open>ASCII lower case, the form \<open>hex_encode\<close> prints.\<close>

definition to_lower :: "char \<Rightarrow> char" where
  "to_lower c = (let n = of_char c :: nat in if 65 \<le> n \<and> n \<le> 90 then char_of (n + 32) else c)"

definition to_upper :: "char \<Rightarrow> char" where
  "to_upper c = (let n = of_char c :: nat in if 97 \<le> n \<and> n \<le> 122 then char_of (n - 32) else c)"

lemma nth_upt_append:
  "([a..<b] @ xs) ! n = (if n < b - a then a + n else xs ! (n - (b - a)))"
  by (auto simp: nth_append)

lemma nth_upt_append2:
  "n < (b - a) + (d - c) \<Longrightarrow>
   map f ([a..<b] @ [c..<d]) ! n = f (if n < b - a then a + n else c + (n - (b - a)))"
  by (subst nth_map) (auto simp: nth_append)

lemma hextable_code: "n < 16 \<Longrightarrow> hextable ! n = char_of (if n < 10 then n + 48 else n + (87 :: nat))"
  using nth_upt_append2 [of n 58 48 103 97 char_of, folded hextable_def] by (auto simp: add.commute)

lemma hex_char_of_nibble: "n < 16 \<Longrightarrow> fromHexChar (hextable ! n) = Some (word_of_nat n)"
  by (auto simp: hextable_code fromHexChar_def Let_def of_char_of)

lemma nibble_lt: "unat (drop_bit 4 (b :: byte)) < 16" "unat (b AND 15) < 16"
proof -
  show "unat (drop_bit 4 b) < 16"
    using byte_unat_lt [of b]
    by (simp only: unsigned_drop_bit_eq) (simp add: drop_bit_eq_div take_bit_eq_mod)
  have "b AND 15 = take_bit 4 b" by (simp add: take_bit_eq_mask mask_eq_exp_minus_1)
  then show "unat (b AND 15) < 16"
    by (simp only: unsigned_take_bit_eq) (simp add: take_bit_eq_mod)
qed

lemma nibbles_join: "push_bit 4 (drop_bit 4 b) OR (b AND 15) = (b :: byte)"
proof -
  have "b AND 15 = take_bit 4 b" by (simp add: take_bit_eq_mask mask_eq_exp_minus_1)
  then show ?thesis
    by (simp only:) (rule bit_word_eqI, auto simp: bit_simps)
qed

lemma hex_encode_Cons:
  "hex_encode (b # bs) = hextable ! unat (drop_bit 4 b) # hextable ! unat (b AND 15) # hex_encode bs"
  by (simp add: hex_encode_def)

lemma hex_encode_Nil [simp]: "hex_encode [] = []"
  by (simp add: hex_encode_def)

lemma hex_encode_length [simp]: "length (hex_encode bs) = 2 * length bs"
  by (induction bs) (simp_all add: hex_encode_Cons)

lemma hex_encode_chars: "c \<in> set (hex_encode bs) \<Longrightarrow> (of_char c :: nat) < 103"
proof -
  have "(of_char (hextable ! n) :: nat) < 103" if "n < 16" for n
    using that by (simp add: hextable_code of_char_of)
  then have "(of_char (hextable ! unat (drop_bit 4 b)) :: nat) < 103" "(of_char (hextable ! unat (b AND 15)) :: nat) < 103"
    for b :: byte
    using nibble_lt [of b] by blast+
  then show "c \<in> set (hex_encode bs) \<Longrightarrow> ?thesis"
    by (induction bs) (auto simp: hex_encode_Cons)
qed

lemma hex_decode_encode [simp]: "hex_decode (hex_encode bs) = Some bs"
  by (induction bs) (simp_all add: hex_encode_Cons hex_char_of_nibble nibble_lt nibbles_join)

lemma fromHexChar_lower:
  assumes "fromHexChar c = Some v"
  shows "unat v < 16 \<and> hextable ! unat v = to_lower c"
proof -
  define n where "n = (of_char c :: nat)"
  have c: "c = char_of n" by (simp add: n_def)
  from assms consider "48 \<le> n" "n \<le> 57" "v = word_of_nat (n - 48)" | "97 \<le> n" "n \<le> 102" "v = word_of_nat (n - 97 + 10)"
    | "65 \<le> n" "n \<le> 70" "v = word_of_nat (n - 65 + 10)"
    by (auto simp: fromHexChar_def n_def Let_def split: if_splits)
  then show ?thesis
  proof cases
    case 1
    then have "unat v = n - 48" by (simp only: unat_of_nat) simp
    with 1 c show ?thesis by (auto simp: hextable_code to_lower_def of_char_of Let_def)
  next
    case 2
    then have "unat v = n - 97 + 10" by (simp only: unat_of_nat) simp
    with 2 c show ?thesis by (auto simp: hextable_code to_lower_def of_char_of Let_def)
  next
    case 3
    then have "unat v = n - 65 + 10" by (simp only: unat_of_nat) simp
    with 3 c show ?thesis by (auto simp: hextable_code to_lower_def of_char_of Let_def)
  qed
qed

lemma nibble_split:
  assumes "unat a < 16" "unat b < 16"
  shows "drop_bit 4 (push_bit 4 a OR b) = (a :: byte)" "(push_bit 4 a OR b) AND 15 = b"
proof -
  have hi: "bit a n \<Longrightarrow> n < 4" "bit b n \<Longrightarrow> n < 4" for n
  proof -
    have "take_bit 4 a = a" "take_bit 4 b = b"
      using assms by (simp_all only: word_unat_eq_iff unsigned_take_bit_eq) (simp_all add: take_bit_eq_mod)
    then show "bit a n \<Longrightarrow> n < 4" "bit b n \<Longrightarrow> n < 4" by (metis bit_take_bit_iff)+
  qed
  show "drop_bit 4 (push_bit 4 a OR b) = a"
    by (rule bit_word_eqI) (auto simp: bit_simps dest: hi)
  have "(push_bit 4 a OR b) AND 15 = take_bit 4 (push_bit 4 a OR b)"
    by (simp add: take_bit_eq_mask mask_eq_exp_minus_1)
  then show "(push_bit 4 a OR b) AND 15 = b"
    by (simp only:) (rule bit_word_eqI, auto simp: bit_simps dest: hi)
qed

lemma hex_encode_decode: "hex_decode s = Some bs \<Longrightarrow> hex_encode bs = map to_lower s"
proof (induction s arbitrary: bs rule: hex_decode.induct)
  case (3 p q s)
  from "3.prems" obtain a b cs where
    dec: "fromHexChar p = Some a" "fromHexChar q = Some b" "hex_decode s = Some cs"
    and bs: "bs = (push_bit 4 a OR b) # cs"
    by (auto split: option.splits)
  have "unat a < 16" "unat b < 16" using dec fromHexChar_lower by blast+
  then have "hex_encode bs = hextable ! unat a # hextable ! unat b # hex_encode cs"
    by (simp only: bs hex_encode_Cons nibble_split)
  with dec show ?case
    using "3.IH" [OF dec] by (simp add: fromHexChar_lower)
qed simp_all

lemma hex_decode_length: "hex_decode s = Some bs \<Longrightarrow> length s = 2 * length bs"
  using hex_encode_decode [of s bs] hex_encode_length [of bs] by simp

section \<open>Base64, URL alphabet without padding\<close>

text \<open>The characters of the URL alphabet: upper case, lower case, digits, hyphen and underscore.\<close>

definition encodeURL :: string where
  "encodeURL = map char_of ([65..<91] @ [97..<123] @ [48..<58] @ [45, 95])"

text \<open>Groups of three bytes give four 6-bit values; one or two bytes left over give two or three.\<close>

fun b64_sextets :: "bytes \<Rightarrow> nat list" where
  "b64_sextets [] = []"
| "b64_sextets [a] = (let v = unat a * 65536 in [v div 262144, v div 4096 mod 64])"
| "b64_sextets [a, b] = (let v = unat a * 65536 + unat b * 256 in
     [v div 262144, v div 4096 mod 64, v div 64 mod 64])"
| "b64_sextets (a # b # c # bs) = (let v = unat a * 65536 + unat b * 256 + unat c in
     v div 262144 # v div 4096 mod 64 # v div 64 mod 64 # v mod 64 # b64_sextets bs)"

definition b64_encode :: "bytes \<Rightarrow> string" where
  "b64_encode bs = map (\<lambda>n. encodeURL ! n) (b64_sextets bs)"

definition b64_value :: "char \<Rightarrow> nat option" where
  "b64_value c = (let n = of_char c :: nat in
     if 65 \<le> n \<and> n \<le> 90 then Some (n - 65)
     else if 97 \<le> n \<and> n \<le> 122 then Some (n - 97 + 26)
     else if 48 \<le> n \<and> n \<le> 57 then Some (n - 48 + 52)
     else if n = 45 then Some 62 else if n = 95 then Some 63 else None)"

text \<open>The decoder skips line breaks, wherever they are, and ignores the unused low bits of the
  last value; a single left-over character is an error.\<close>

fun b64_bytes :: "nat list \<Rightarrow> bytes option" where
  "b64_bytes [] = Some []"
| "b64_bytes [a] = None"
| "b64_bytes [a, b] = (let v = a * 262144 + b * 4096 in Some [word_of_nat (v div 65536)])"
| "b64_bytes [a, b, c] = (let v = a * 262144 + b * 4096 + c * 64 in
     Some [word_of_nat (v div 65536), word_of_nat (v div 256)])"
| "b64_bytes (a # b # c # d # vs) = (let v = a * 262144 + b * 4096 + c * 64 + d in
     case b64_bytes vs of None \<Rightarrow> None
     | Some bs \<Rightarrow> Some (word_of_nat (v div 65536) # word_of_nat (v div 256) # word_of_nat v # bs))"

definition is_line_break :: "char \<Rightarrow> bool" where
  "is_line_break c \<longleftrightarrow> of_char c = (10 :: nat) \<or> of_char c = (13 :: nat)"

definition b64_decode :: "string \<Rightarrow> bytes option" where
  "b64_decode s = (case those (map b64_value (filter (\<lambda>c. \<not> is_line_break c) s)) of
     None \<Rightarrow> None | Some vs \<Rightarrow> b64_bytes vs)"

lemma alphabet_code:
  assumes "n < 64"
  shows "encodeURL ! n = char_of (if n < 26 then n + 65 else if n < 52 then n + 71
     else if n < 62 then n - 4 else if n = 62 then 45 else (95 :: nat))"
proof -
  have "length ([65..<91] @ [97..<123] @ [48..<58] @ [45, 95]) = (64 :: nat)" by simp
  then have "encodeURL ! n = char_of (([65..<91] @ [97..<123] @ [48..<58] @ [45, 95]) ! n)"
    unfolding encodeURL_def using assms by (intro nth_map) (simp only:)
  also have "([65..<91] @ [97..<123] @ [48..<58] @ [45, 95]) ! n = (if n < 26 then n + 65 else if n < 52 then n + 71
     else if n < 62 then n - 4 else if n = 62 then 45 else (95 :: nat))"
    using assms unfolding nth_upt_append by (auto simp: nth_Cons')
  finally show ?thesis .
qed

lemma b64_alphabet:
  assumes "n < 64"
  shows "b64_value (encodeURL ! n) = Some n" "\<not> is_line_break (encodeURL ! n)"
  using assms by (auto simp: alphabet_code b64_value_def is_line_break_def of_char_of Let_def)

lemma those_alphabet:
  "list_all (\<lambda>n. n < 64) ns \<Longrightarrow>
   those (map b64_value (filter (\<lambda>c. \<not> is_line_break c) (map (\<lambda>n. encodeURL ! n) ns))) = Some ns"
  by (induction ns) (simp_all add: b64_alphabet)

lemma b64_sextets_range: "list_all (\<lambda>n. n < 64) (b64_sextets bs)"
proof (induction bs rule: b64_sextets.induct)
  case (2 a)
  have "unat a * 65536 div 262144 < 64"
    by (rule less_mult_imp_div_less) (use byte_unat_lt [of a] in simp)
  then show ?case by (simp only: b64_sextets.simps Let_def) simp
next
  case (3 a b)
  have "(unat a * 65536 + unat b * 256) div 262144 < 64"
    by (rule less_mult_imp_div_less) (use byte_unat_lt [of a] byte_unat_lt [of b] in simp)
  then show ?case by (simp only: b64_sextets.simps Let_def) simp
next
  case (4 a b c bs)
  have "(unat a * 65536 + unat b * 256 + unat c) div 262144 < 64"
    by (rule less_mult_imp_div_less)
      (use byte_unat_lt [of a] byte_unat_lt [of b] byte_unat_lt [of c] in simp)
  with 4 show ?case by (simp only: b64_sextets.simps Let_def) simp
qed simp

lemma horner_64:
  "a * 64 + b = c \<Longrightarrow> c * 64 + d = e \<Longrightarrow> e * 64 + f = v \<Longrightarrow>
   a * 262144 + b * 4096 + d * 64 + f = (v :: nat)"
  by linarith

lemma sextets_join:
  fixes v :: nat
  shows "v div 262144 * 262144 + v div 4096 mod 64 * 4096 + v div 64 mod 64 * 64 + v mod 64 = v"
proof -
  have "v div 4096 = v div 64 div 64" "v div 262144 = v div 64 div 64 div 64"
    by (simp_all flip: div_mult2_eq)
  then show ?thesis by (simp only:) (rule horner_64; rule div_mult_mod_eq)
qed

lemma join_bytes:
  fixes a b c :: byte
  defines "v \<equiv> unat a * 65536 + unat b * 256 + unat c"
  shows "word_of_nat (v div 65536) = a" "word_of_nat (v div 256) = b" "word_of_nat v = c"
proof -
  have lt: "unat a < 256" "unat b < 256" "unat c < 256" by (rule byte_unat_lt)+
  have v: "v = unat c + (unat a * 256 + unat b) * 256" by (simp add: v_def)
  have low: "v div 256 = unat a * 256 + unat b" "v mod 256 = unat c"
    unfolding v using lt(3) by (simp_all only: div_mult_self1 mod_mult_self1) simp_all
  then have high: "v div 65536 = unat a" "v div 256 mod 256 = unat b"
    using lt div_mult2_eq [of v 256 256] by simp_all
  show "word_of_nat (v div 65536) = a" using high by simp
  have "unat (word_of_nat (v div 256) :: byte) = unat b" "unat (word_of_nat v :: byte) = unat c"
    using low(2) high(2) by (simp_all only: unat_of_nat) simp_all
  then show "word_of_nat (v div 256) = b" "word_of_nat v = c" by (simp_all only: word_unat_eq_iff)
qed

lemma b64_bytes_sextets: "b64_bytes (b64_sextets bs) = Some bs"
proof (induction bs rule: b64_sextets.induct)
  case (2 a)
  have "unat a * 65536 div 64 mod 64 = 0" "unat a * 65536 mod 64 = 0" by simp_all
  then have "unat a * 65536 div 262144 * 262144 + unat a * 65536 div 4096 mod 64 * 4096 = unat a * 65536"
    using sextets_join [of "unat a * 65536"] by linarith
  then show ?case by (simp only: b64_sextets.simps b64_bytes.simps Let_def) simp
next
  case (3 a b)
  let ?v = "unat a * 65536 + unat b * 256"
  have "?v mod 64 = 0" by simp
  then have "?v div 262144 * 262144 + ?v div 4096 mod 64 * 4096 + ?v div 64 mod 64 * 64 = ?v"
    using sextets_join [of ?v] by linarith
  then show ?case
    using join_bytes [of a b 0] by (simp only: b64_sextets.simps b64_bytes.simps Let_def) simp
next
  case (4 a b c bs)
  show ?case
    by (simp only: b64_sextets.simps b64_bytes.simps Let_def sextets_join join_bytes 4 option.case)
qed simp

lemma b64_decode_encode [simp]: "b64_decode (b64_encode bs) = Some bs"
  by (simp only: b64_decode_def b64_encode_def those_alphabet b64_sextets_range b64_bytes_sextets option.case)

section \<open>Decimal format and big-endian integers\<close>

fun dec_nat :: "nat \<Rightarrow> string" where
  "dec_nat n = (if n < 10 then [char_of (48 + n)] else dec_nat (n div 10) @ [char_of (48 + n mod 10)])"

declare dec_nat.simps [simp del]

definition dec_int :: "int \<Rightarrow> string" where
  "dec_int i = (if i < 0 then CHR ''-'' # dec_nat (nat (- i)) else dec_nat (nat i))"

definition dec_value :: "string \<Rightarrow> nat" where
  "dec_value s = foldl (\<lambda>v c. v * 10 + (of_char c - 48)) 0 s"

lemma dec_value_nat: "dec_value (dec_nat n) = n"
proof (induction n rule: dec_nat.induct)
  case (1 n)
  then show ?case
    by (subst dec_nat.simps) (simp add: dec_value_def of_char_of)
qed

lemma dec_nat_digits: "c \<in> set (dec_nat n) \<Longrightarrow> 48 \<le> (of_char c :: nat) \<and> (of_char c :: nat) \<le> 57"
proof (induction n rule: dec_nat.induct)
  case (1 n)
  have "n mod 10 < 10" by simp
  with 1 show ?case
    by (subst (asm) (2) dec_nat.simps) (auto simp: of_char_of split: if_splits)
qed

lemma dec_int_inject [simp]: "dec_int i = dec_int j \<longleftrightarrow> i = j"
proof -
  have minus: "CHR ''-'' \<notin> set (dec_nat n)" for n
    using dec_nat_digits [of "CHR ''-''" n] by auto
  have *: "CHR ''-'' # s \<noteq> dec_nat n" for s n
    using minus [of n] by (metis list.set_intros(1))
  show ?thesis
    by (auto simp: dec_int_def * * [symmetric] dest: arg_cong [where f = dec_value] simp: dec_value_nat)
qed

lemma dec_int_chars: "c \<in> set (dec_int i) \<Longrightarrow> c = CHR ''-'' \<or> 48 \<le> (of_char c :: nat) \<and> (of_char c :: nat) \<le> 57"
  by (auto simp: dec_int_def dest: dec_nat_digits split: if_splits)

definition be_nat :: "bytes \<Rightarrow> nat" where
  "be_nat bs = foldl (\<lambda>v b. v * 256 + unat b) 0 bs"

lemma be_nat_Nil [simp]: "be_nat [] = 0"
  by (simp add: be_nat_def)

lemma be_nat_snoc [simp]: "be_nat (bs @ [b]) = be_nat bs * 256 + unat b"
  by (simp add: be_nat_def)

lemma be_nat_append: "be_nat (xs @ ys) = be_nat xs * 256 ^ length ys + be_nat ys"
proof (induction ys rule: rev_induct)
  case (snoc b ys)
  then show ?case by (simp flip: append_assoc add: algebra_simps)
qed simp

lemma be_nat_Cons: "be_nat (b # bs) = unat b * 256 ^ length bs + be_nat bs"
  using be_nat_append [of "[b]" bs] by (simp add: be_nat_def)

lemma be_nat_less: "be_nat bs < 256 ^ length bs"
proof (induction bs rule: rev_induct)
  case (snoc b bs)
  then show ?case using byte_unat_lt [of b] by simp
qed simp

lemma digits_inject:
  fixes p q r t n :: nat
  assumes "r < n" "t < n"
  shows "p * n + r = q * n + t \<longleftrightarrow> p = q \<and> r = t"
proof
  assume eq: "p * n + r = q * n + t"
  have "(p * n + r) div n = p" "(q * n + t) div n = q" using assms by simp_all
  with eq show "p = q \<and> r = t" by simp
qed simp

lemma be_nat_inject: "length xs = length ys \<Longrightarrow> be_nat xs = be_nat ys \<longleftrightarrow> xs = ys"
proof (induction xs arbitrary: ys rule: rev_induct)
  case (snoc x xs)
  then obtain y zs where ys: "ys = zs @ [y]" and len: "length xs = length zs"
    by (cases ys rule: rev_cases) auto
  have "be_nat xs * 256 + unat x = be_nat zs * 256 + unat y \<longleftrightarrow> be_nat xs = be_nat zs \<and> unat x = unat y"
    using digits_inject byte_unat_lt by blast
  moreover have "unat x = unat y \<longleftrightarrow> x = y" by (simp only: word_unat_eq_iff)
  ultimately show ?case using snoc.IH [OF len] unfolding ys be_nat_snoc append1_eq_conv by blast
qed simp

section \<open>Host and port\<close>

text \<open>\<open>net.SplitHostPort\<close>: the port follows the last colon; a bracketed host may contain colons.\<close>

definition index_of :: "char \<Rightarrow> string \<Rightarrow> nat option" where
  "index_of c s = (let n = length (takeWhile (\<lambda>x. x \<noteq> c) s) in if n < length s then Some n else None)"

definition last_index :: "char \<Rightarrow> string \<Rightarrow> nat option" where
  "last_index c s = map_option (\<lambda>k. length s - 1 - k) (index_of c (rev s))"

definition SplitHostPort :: "string \<Rightarrow> (string \<times> string) option" where
  "SplitHostPort s = (case last_index CHR '':'' s of None \<Rightarrow> None
     | Some i \<Rightarrow>
       if s ! 0 = CHR ''['' then
         (case index_of CHR '']'' s of None \<Rightarrow> None
          | Some e \<Rightarrow>
            if e + 1 \<noteq> i then None
            else if CHR ''['' \<in> set (drop 1 s) \<or> CHR '']'' \<in> set (drop (e + 1) s) then None
            else Some (drop 1 (take e s), drop (i + 1) s))
       else if CHR '':'' \<in> set (take i s) then None
       else if CHR ''['' \<in> set s \<or> CHR '']'' \<in> set s then None
       else Some (take i s, drop (i + 1) s))"

section \<open>Splitting and trimming\<close>

fun split_on :: "char \<Rightarrow> string \<Rightarrow> string list" where
  "split_on sep [] = [[]]"
| "split_on sep (c # cs) =
     (if c = sep then [] # split_on sep cs
      else case split_on sep cs of [] \<Rightarrow> [[c]] | p # ps \<Rightarrow> (c # p) # ps)"

definition is_space :: "char \<Rightarrow> bool" where
  "is_space c \<longleftrightarrow> (of_char c :: nat) \<in> {9, 10, 11, 12, 13, 32}"

definition TrimSpace :: "string \<Rightarrow> string" where
  "TrimSpace s = rev (dropWhile is_space (rev (dropWhile is_space s)))"

definition TrimPrefix :: "string \<Rightarrow> string \<Rightarrow> string" where
  "TrimPrefix p s = (if take (length p) s = p then drop (length p) s else s)"

section \<open>Addresses\<close>

text \<open>A \<open>net.IP\<close> is 4 or 16 bytes; \<open>To4\<close> gives the four bytes of a mapped IPv4 address. The classes
  are those of the \<open>net\<close> package.\<close>

definition To4 :: "bytes \<Rightarrow> bytes option" where
  "To4 ip = (if length ip = 4 then Some ip
     else if length ip = 16 \<and> take 12 ip = replicate 10 0 @ [255, 255] then Some (drop 12 ip) else None)"

definition IsLoopback :: "bytes \<Rightarrow> bool" where
  "IsLoopback ip = (case To4 ip of Some v \<Rightarrow> v ! 0 = 127 | None \<Rightarrow> ip = replicate 15 0 @ [1])"

definition IsPrivate :: "bytes \<Rightarrow> bool" where
  "IsPrivate ip = (case To4 ip of
     Some v \<Rightarrow> v ! 0 = 10 \<or> v ! 0 = 172 \<and> v ! 1 AND 0xF0 = 16 \<or> v ! 0 = 192 \<and> v ! 1 = 168
   | None \<Rightarrow> length ip = 16 \<and> ip ! 0 AND 0xFE = 0xFC)"

definition IsLinkLocalUnicast :: "bytes \<Rightarrow> bool" where
  "IsLinkLocalUnicast ip = (case To4 ip of Some v \<Rightarrow> v ! 0 = 169 \<and> v ! 1 = 254
   | None \<Rightarrow> length ip = 16 \<and> ip ! 0 = 0xFE \<and> ip ! 1 AND 0xC0 = 0x80)"

definition IsLinkLocalMulticast :: "bytes \<Rightarrow> bool" where
  "IsLinkLocalMulticast ip = (case To4 ip of Some v \<Rightarrow> v ! 0 = 224 \<and> v ! 1 = 0 \<and> v ! 2 = 0
   | None \<Rightarrow> length ip = 16 \<and> ip ! 0 = 0xFF \<and> ip ! 1 AND 0x0F = 0x02)"

section \<open>Integers in text\<close>

text \<open>\<open>strconv.ParseInt(s, 10, 64)\<close> on the number literals of JSON.\<close>

definition parse_int64 :: "string \<Rightarrow> int option" where
  "parse_int64 s =
     (let (neg, ds) = (case s of [] \<Rightarrow> (False, []) | c # cs \<Rightarrow> if c = CHR ''-'' then (True, cs) else (False, s));
          v = (if neg then - 1 else 1) * int (dec_value ds) in
      if ds \<noteq> [] \<and> list_all (\<lambda>c. 48 \<le> (of_char c :: nat) \<and> (of_char c :: nat) \<le> 57) ds \<and> is_int64 v then Some v else None)"

text \<open>The same on any text: a sign may precede the digits.\<close>

definition ParseInt10 :: "string \<Rightarrow> int option" where
  "ParseInt10 s = (case s of c # cs \<Rightarrow> if c = CHR ''+'' then (if take 1 cs = ''-'' then None else parse_int64 cs) else parse_int64 s
     | [] \<Rightarrow> None)"

end
