(* ===== verification/Dht_Id.thy ===== *)
theory Dht_Id
  imports Go_Lib
begin

text \<open>
  Node identifiers of the overlay (\<open>src/dht/dht.go\<close>, section ``Node ID''): parsing and
  printing, the XOR distance, the bucket index of a distance and the comparison \<open>Closer\<close>.
  An \<open>ID\<close> is an array of 32 bytes, here a list with \<open>is_ID\<close>; its value as a 256-bit
  number is \<open>be_nat\<close>, against which the byte loops are specified.
\<close>

unbundle bit_operations_syntax

type_synonym ID = bytes

definition IDBits :: nat where "IDBits = 256"
definition IDBytes :: nat where "IDBytes = IDBits div 8"

definition is_ID :: "bytes \<Rightarrow> bool" where "is_ID d \<longleftrightarrow> length d = IDBytes"

lemma is_ID_32: "is_ID d \<longleftrightarrow> length d = 32"
  by (simp add: is_ID_def IDBytes_def IDBits_def)

definition ParseID :: "string \<Rightarrow> ID option" where
  "ParseID s = (case hex_decode s of None \<Rightarrow> None
     | Some b \<Rightarrow> if length b \<noteq> IDBytes then None else Some b)"

definition id_String :: "ID \<Rightarrow> string" where
  "id_String d = hex_encode d"

definition id_XOR :: "ID \<Rightarrow> ID \<Rightarrow> ID" where
  "id_XOR a b = map2 (XOR) a b"

text \<open>\<open>bits.LeadingZeros8(x) = 8 - Len8(x)\<close>\<close>

fun bits_Len :: "nat \<Rightarrow> nat" where
  "bits_Len n = (if n = 0 then 0 else Suc (bits_Len (n div 2)))"

declare bits_Len.simps [simp del]

definition LeadingZeros8 :: "byte \<Rightarrow> nat" where
  "LeadingZeros8 b = 8 - bits_Len (unat b)"

fun bucket_index_from :: "nat \<Rightarrow> bytes \<Rightarrow> nat" where
  "bucket_index_from i [] = IDBits - 1"
| "bucket_index_from i (b # bs) =
     (if b \<noteq> 0 then i * 8 + LeadingZeros8 b else bucket_index_from (Suc i) bs)"

definition BucketIndex :: "ID \<Rightarrow> nat" where
  "BucketIndex d = bucket_index_from 0 d"

fun bytes_less :: "bytes \<Rightarrow> bytes \<Rightarrow> bool" where
  "bytes_less (x # xs) (y # ys) = (if x \<noteq> y then x < y else bytes_less xs ys)"
| "bytes_less _ _ = False"

definition Closer :: "ID \<Rightarrow> ID \<Rightarrow> ID \<Rightarrow> bool" where
  "Closer a b target = bytes_less (id_XOR a target) (id_XOR b target)"

section \<open>The XOR distance\<close>

lemma id_XOR_length [simp]: "length a = length b \<Longrightarrow> length (id_XOR a b) = length b"
  by (simp add: id_XOR_def)

lemma is_ID_XOR [simp, intro]: "is_ID a \<Longrightarrow> is_ID b \<Longrightarrow> is_ID (id_XOR a b)"
  by (simp add: is_ID_def)

lemma id_XOR_commute: "id_XOR a b = id_XOR b a"
  unfolding id_XOR_def
  by (induction a b rule: list_induct2') (simp_all add: xor.commute)

lemma id_XOR_cancel:
  "length a = length b \<Longrightarrow> length b = length c \<Longrightarrow> id_XOR (id_XOR a b) (id_XOR b c) = id_XOR a c"
  unfolding id_XOR_def
  by (induction a b c rule: list_induct3) (simp_all add: xor.assoc xor.left_commute)

lemma xor_digits:
  fixes p q r s :: nat
  assumes "r < 2 ^ k" "s < 2 ^ k"
  shows "(p * 2 ^ k + r) XOR (q * 2 ^ k + s) = (p XOR q) * 2 ^ k + (r XOR s)"
proof -
  let ?x = "p * 2 ^ k + r" and ?y = "q * 2 ^ k + s"
  have "(?x XOR ?y) div 2 ^ k = p XOR q" "(?x XOR ?y) mod 2 ^ k = r XOR s"
    using assms by (simp_all flip: drop_bit_eq_div take_bit_eq_mod)
      (simp_all add: drop_bit_eq_div take_bit_eq_mod)
  then show ?thesis using div_mult_mod_eq [of "?x XOR ?y" "2 ^ k"] by simp
qed

lemma power_256: "(256 :: nat) ^ n = 2 ^ (8 * n)"
  by (simp add: power_mult)

lemma be_nat_XOR: "length a = length b \<Longrightarrow> be_nat (id_XOR a b) = be_nat a XOR be_nat b"
proof (induction a b rule: list_induct2)
  case (Cons x xs y ys)
  have "be_nat (id_XOR (x # xs) (y # ys)) = (unat x XOR unat y) * 256 ^ length ys + be_nat (id_XOR xs ys)"
    using Cons.hyps by (simp add: id_XOR_def be_nat_Cons unsigned_xor_eq)
  also have "\<dots> = be_nat (x # xs) XOR be_nat (y # ys)"
    using be_nat_less [of xs] be_nat_less [of ys]
    by (simp add: Cons be_nat_Cons power_256 xor_digits)
  finally show ?case .
qed (simp add: id_XOR_def)

lemma xor_le_plus: "x XOR y \<le> x + (y :: nat)"
proof (induction x arbitrary: y rule: less_induct)
  case (less x)
  show ?case
  proof (cases "x = 0")
    case False
    then have "(x div 2) XOR (y div 2) \<le> x div 2 + y div 2" by (intro less.IH) simp
    moreover have "x XOR y = of_bool (odd x \<noteq> odd y) + 2 * ((x div 2) XOR (y div 2))" by (rule xor_rec)
    moreover have "of_bool (odd x \<noteq> odd y) \<le> x mod 2 + y mod 2" by (auto simp: odd_iff_mod_2_eq_one)
    moreover have "2 * (x div 2) + x mod 2 = x" "2 * (y div 2) + y mod 2 = y" by simp_all
    ultimately show ?thesis by linarith
  qed simp
qed

lemma xor_eq_0: "x XOR y = 0 \<longleftrightarrow> x = (y :: nat)"
proof
  assume "x XOR y = 0"
  then have "x XOR (x XOR y) = x" by simp
  moreover have "x XOR (x XOR y) = y" by (simp flip: xor.assoc)
  ultimately show "x = y" by simp
qed simp

lemma be_nat_XOR_self: "length a = length b \<Longrightarrow> be_nat (id_XOR a b) = 0 \<longleftrightarrow> a = b"
  by (simp only: be_nat_XOR xor_eq_0 be_nat_inject)

lemma id_XOR_inject:
  assumes "length a = length b" "length b = length c"
  shows "id_XOR a b = id_XOR a c \<longleftrightarrow> b = c"
proof
  assume eq: "id_XOR a b = id_XOR a c"
  have "id_XOR b c = id_XOR (id_XOR b a) (id_XOR a c)"
    using assms by (intro id_XOR_cancel [symmetric]) simp_all
  also have "\<dots> = id_XOR (id_XOR b a) (id_XOR a b)" by (simp only: eq)
  also have "\<dots> = id_XOR b b" using assms by (intro id_XOR_cancel) simp_all
  finally have "be_nat (id_XOR b c) = be_nat (id_XOR b b)" by (rule arg_cong)
  then show "b = c"
    using be_nat_XOR_self [of b c] be_nat_XOR_self [of b b] assms by simp
qed simp

text \<open>
  The value of the XOR distance is a metric on identifiers: it is zero exactly
  between equal identifiers, symmetric, and satisfies the triangle inequality; and it is
  unidirectional, so that an identifier and a distance determine the other end.
\<close>

theorem xor_metric:
  assumes "is_ID a" "is_ID b" "is_ID c"
  shows "(be_nat (id_XOR a b) = 0 \<longleftrightarrow> a = b) \<and>
    id_XOR a b = id_XOR b a \<and>
    be_nat (id_XOR a c) \<le> be_nat (id_XOR a b) + be_nat (id_XOR b c) \<and>
    (id_XOR a b = id_XOR a c \<longleftrightarrow> b = c)"
proof -
  have len: "length a = length b" "length b = length c" using assms by (simp_all add: is_ID_def)
  have "be_nat (id_XOR a c) = be_nat (id_XOR a b) XOR be_nat (id_XOR b c)"
    using len by (simp add: be_nat_XOR flip: id_XOR_cancel [of a b c])
  then show ?thesis
    using len xor_le_plus be_nat_XOR_self id_XOR_commute id_XOR_inject by metis
qed

theorem xor_metric_witness:
  "\<exists>a b c. is_ID a \<and> is_ID b \<and> is_ID c \<and> be_nat (id_XOR a b) \<noteq> 0 \<and>
     be_nat (id_XOR a c) \<le> be_nat (id_XOR a b) + be_nat (id_XOR b c)"
proof -
  let ?a = "replicate 32 3 :: bytes" and ?b = "replicate 32 5 :: bytes" and ?c = "replicate 32 6 :: bytes"
  have "?a \<noteq> ?b" "is_ID ?a" "is_ID ?b" "is_ID ?c" by (simp_all add: is_ID_32)
  then show ?thesis using xor_metric [of ?a ?b ?c] by blast
qed

section \<open>Bucket index and order\<close>

lemma bits_Len_range: "0 < n \<Longrightarrow> 2 ^ (bits_Len n - 1) \<le> n \<and> n < 2 ^ bits_Len n"
proof (induction n rule: bits_Len.induct)
  case (1 n)
  show ?case
  proof (cases "n div 2 = 0")
    case True
    with 1 have "n = 1" by simp
    then show ?thesis by (simp add: bits_Len.simps)
  next
    case False
    with 1 have IH: "2 ^ (bits_Len (n div 2) - 1) \<le> n div 2" "n div 2 < 2 ^ bits_Len (n div 2)" by auto
    obtain k where k: "bits_Len (n div 2) = Suc k" using False by (subst (asm) bits_Len.simps) auto
    have "bits_Len n = Suc (Suc k)" using 1(2) k by (subst bits_Len.simps) simp
    with IH k show ?thesis by (auto simp: less_eq_div_iff_mult_less_eq div_less_iff_less_mult)
  qed
qed

lemma LeadingZeros8_range:
  assumes "b \<noteq> 0"
  shows "LeadingZeros8 b < 8 \<and> 2 ^ (7 - LeadingZeros8 b) \<le> unat b \<and> unat b < 2 ^ (8 - LeadingZeros8 b)"
proof -
  define m where "m = bits_Len (unat b)"
  have pos: "0 < unat b" using assms by (simp add: unat_eq_0 zero_less_iff_neq_zero)
  have range: "2 ^ (m - 1) \<le> unat b" "unat b < 2 ^ m" using bits_Len_range [OF pos] by (simp_all add: m_def)
  have m: "m \<le> 8"
  proof (rule ccontr)
    assume "\<not> m \<le> 8"
    then have "(2 :: nat) ^ 8 \<le> 2 ^ (m - 1)" by (intro power_increasing) auto
    with range byte_unat_lt [of b] show False by simp
  qed
  have "m \<noteq> 0" using range pos by (intro notI) simp
  with m range show ?thesis by (simp add: LeadingZeros8_def m_def [symmetric])
qed

lemma leading_power:
  assumes "l < 8" "2 ^ (7 - l) \<le> x" "x < 2 ^ (8 - l)" "r < 256 ^ m"
  shows "2 ^ (8 * Suc m - 1 - l) \<le> x * 256 ^ m + r" "x * 256 ^ m + r < (2 :: nat) ^ (8 * Suc m - l)"
proof -
  have "(2 :: nat) ^ (8 * Suc m - 1 - l) = 2 ^ (7 - l) * 256 ^ m"
    using assms(1) by (simp add: power_256 flip: power_add)
  also have "\<dots> \<le> x * 256 ^ m" using assms(2) by simp
  finally show "2 ^ (8 * Suc m - 1 - l) \<le> x * 256 ^ m + r" by simp
  have "x * 256 ^ m + r < Suc x * 256 ^ m" using assms(4) by simp
  also have "\<dots> \<le> 2 ^ (8 - l) * 256 ^ m" using assms(3) by (intro mult_le_mono1) simp
  also have "\<dots> = 2 ^ (8 * Suc m - l)" using assms(1) by (simp add: power_256 flip: power_add)
  finally show "x * 256 ^ m + r < 2 ^ (8 * Suc m - l)" .
qed

lemma bucket_index_from_range:
  assumes "be_nat bs \<noteq> 0"
  shows "\<exists>r < 8 * length bs. bucket_index_from i bs = 8 * i + r \<and>
     2 ^ (8 * length bs - 1 - r) \<le> be_nat bs \<and> be_nat bs < 2 ^ (8 * length bs - r)"
  using assms
proof (induction bs arbitrary: i)
  case (Cons b bs)
  show ?case
  proof (cases "b = 0")
    case True
    with Cons.prems have "be_nat bs \<noteq> 0" by (simp add: be_nat_Cons)
    from Cons.IH [OF this, of "Suc i"] obtain r where
      "r < 8 * length bs" "bucket_index_from (Suc i) bs = 8 * Suc i + r"
      "2 ^ (8 * length bs - 1 - r) \<le> be_nat bs" "be_nat bs < 2 ^ (8 * length bs - r)" by auto
    then show ?thesis using True by (intro exI [of _ "8 + r"]) (simp add: be_nat_Cons)
  next
    case False
    note lz = LeadingZeros8_range [OF False]
    show ?thesis
      using leading_power [of "LeadingZeros8 b" "unat b" "be_nat bs" "length bs"] lz False be_nat_less
      by (intro exI [of _ "LeadingZeros8 b"]) (simp add: be_nat_Cons)
  qed
qed simp

lemma bytes_less_iff: "length xs = length ys \<Longrightarrow> bytes_less xs ys \<longleftrightarrow> be_nat xs < be_nat ys"
proof (induction xs ys rule: list_induct2)
  case (Cons x xs y ys)
  have less: "p * n + r < q * n + s" if "p < q" "r < n" for p q r s n :: nat
  proof -
    have "p * n + r < Suc p * n" using that(2) by simp
    also have "\<dots> \<le> q * n" using that(1) by (intro mult_le_mono1) simp
    finally show ?thesis by simp
  qed
  have "x < y \<or> x = y \<or> y < x" by auto
  then show ?case
  proof (elim disjE)
    assume "x < y"
    then show ?thesis
      using less [of "unat x" "unat y" "be_nat xs" "256 ^ length xs" "be_nat ys"] be_nat_less [of xs] Cons.hyps
      by (auto simp: be_nat_Cons word_less_nat_alt)
  next
    assume "y < x"
    then show ?thesis
      using less [of "unat y" "unat x" "be_nat ys" "256 ^ length xs" "be_nat xs"] be_nat_less [of ys] Cons.hyps
      by (auto simp: be_nat_Cons word_less_nat_alt)
  qed (use Cons in \<open>simp add: be_nat_Cons\<close>)
qed simp

lemma BucketIndex_range:
  assumes "is_ID d" "be_nat d \<noteq> 0"
  shows "BucketIndex d < 256 \<and> 2 ^ (255 - BucketIndex d) \<le> be_nat d \<and> be_nat d < 2 ^ (256 - BucketIndex d)"
  using bucket_index_from_range [OF assms(2), of 0] assms(1) by (auto simp: BucketIndex_def is_ID_32)

lemma bucket_index_from_less: "bucket_index_from i bs < max 256 (8 * (i + length bs))"
proof (induction bs arbitrary: i)
  case (Cons b bs)
  then show ?case
    using LeadingZeros8_range [of b] Cons.IH [of "Suc i"] by (auto simp: less_max_iff_disj)
qed (simp add: IDBits_def)

lemma BucketIndex_less: "is_ID d \<Longrightarrow> BucketIndex d < IDBits"
  using bucket_index_from_less [of 0 d] by (simp add: BucketIndex_def is_ID_32 IDBits_def)

lemma power_interval_unique:
  fixes n :: nat
  assumes "2 ^ (255 - i) \<le> n" "n < 2 ^ (256 - j)" "i < 256" "j < 256"
  shows "j \<le> i"
proof (rule ccontr)
  assume "\<not> j \<le> i"
  then have "(2 :: nat) ^ (256 - j) \<le> 2 ^ (255 - i)" using assms by (intro power_increasing) auto
  with assms show False by simp
qed

text \<open>
  The bucket of a peer is the length of the common bit prefix with the own
  identifier: for distinct identifiers the index is below 256 and \<open>i\<close> is the index exactly
  when the distance, read as a 256-bit number, lies in \<open>[2^(255-i), 2^(256-i))\<close>, so that the
  256 buckets partition all other identifiers and no bucket access is out of range.
\<close>

theorem bucket_index_prefix:
  assumes "is_ID self" "is_ID peer" "self \<noteq> peer"
  shows "BucketIndex (id_XOR self peer) < IDBits \<and>
    (\<forall>i. BucketIndex (id_XOR self peer) = i \<longleftrightarrow>
      i < 256 \<and> 2 ^ (255 - i) \<le> be_nat (id_XOR self peer) \<and> be_nat (id_XOR self peer) < 2 ^ (256 - i))"
proof -
  let ?d = "id_XOR self peer"
  have d: "is_ID ?d" "be_nat ?d \<noteq> 0"
    using assms be_nat_XOR_self [of self peer] by (auto simp: is_ID_def)
  note range = BucketIndex_range [OF d]
  have "BucketIndex ?d = i"
    if "i < 256" "2 ^ (255 - i) \<le> be_nat ?d" "be_nat ?d < 2 ^ (256 - i)" for i
  proof (rule antisym)
    show "BucketIndex ?d \<le> i" using power_interval_unique [of i "be_nat ?d"] range that by blast
    show "i \<le> BucketIndex ?d" using power_interval_unique [of _ "be_nat ?d" i] range that by blast
  qed
  with range BucketIndex_less [OF d(1)] show ?thesis by blast
qed

theorem bucket_index_prefix_witness:
  "BucketIndex (id_XOR (replicate 32 0) (replicate 32 16)) < IDBits"
proof -
  have "(replicate 32 0 :: bytes) \<noteq> replicate 32 16" by simp
  then show ?thesis using bucket_index_prefix [of "replicate 32 0" "replicate 32 16"] by (simp add: is_ID_32)
qed

lemma be_nat_replicate_0: "be_nat (replicate n 0) = 0"
  by (induction n) (simp_all add: be_nat_Cons)

lemma BucketIndex_zero: "BucketIndex (replicate n 0) = 255"
proof -
  have "bucket_index_from i (replicate n 0) = 255" for i
    by (induction n arbitrary: i) (simp_all add: IDBits_def)
  then show ?thesis by (simp add: BucketIndex_def)
qed

text \<open>
  \<open>Closer\<close> compares the XOR distances as numbers: it is a strict order on the
  peers of a target in which any two different peers are comparable, and a peer that shares a
  longer prefix with the target (a higher bucket index) is always the closer one.
\<close>

theorem closer_numeric:
  assumes "is_ID a" "is_ID b" "is_ID t"
  shows "(Closer a b t \<longleftrightarrow> be_nat (id_XOR a t) < be_nat (id_XOR b t)) \<and>
    (a \<noteq> b \<longrightarrow> Closer a b t \<noteq> Closer b a t) \<and>
    (a \<noteq> t \<and> BucketIndex (id_XOR b t) < BucketIndex (id_XOR a t) \<longrightarrow> Closer a b t)"
proof -
  have ids: "is_ID (id_XOR a t)" "is_ID (id_XOR b t)" using assms by auto
  have less: "Closer x y t \<longleftrightarrow> be_nat (id_XOR x t) < be_nat (id_XOR y t)" if "is_ID x" "is_ID y" for x y
    unfolding Closer_def by (rule bytes_less_iff) (use that assms in \<open>auto simp: is_ID_def\<close>)
  have inj: "be_nat (id_XOR a t) = be_nat (id_XOR b t) \<longleftrightarrow> a = b"
    using id_XOR_inject [of t a b] assms be_nat_inject [of "id_XOR a t" "id_XOR b t"]
    by (simp add: is_ID_def id_XOR_commute [of _ t])
  have "be_nat (id_XOR a t) < be_nat (id_XOR b t)"
    if "a \<noteq> t" "BucketIndex (id_XOR b t) < BucketIndex (id_XOR a t)"
  proof (rule ccontr)
    assume le: "\<not> ?thesis"
    have nz: "be_nat (id_XOR a t) \<noteq> 0" using that(1) assms be_nat_XOR_self [of a t] by (simp add: is_ID_def)
    have "be_nat (id_XOR b t) \<noteq> 0"
    proof
      assume "be_nat (id_XOR b t) = 0"
      then have "id_XOR b t = replicate 32 0"
        using be_nat_inject [of "id_XOR b t" "replicate 32 0"] ids be_nat_replicate_0 by (simp add: is_ID_32)
      then have "BucketIndex (id_XOR b t) = 255" by (simp add: BucketIndex_zero)
      with that(2) BucketIndex_less [OF ids(1)] show False by (simp add: IDBits_def)
    qed
    then show False
      using BucketIndex_range [OF ids(1) nz] BucketIndex_range [OF ids(2)] le that(2)
        power_interval_unique [of "BucketIndex (id_XOR b t)" "be_nat (id_XOR a t)" "BucketIndex (id_XOR a t)"]
      by simp
  qed
  moreover have "Closer a b t \<noteq> Closer b a t" if "a \<noteq> b"
    using that inj less assms linorder_neq_iff [of "be_nat (id_XOR a t)" "be_nat (id_XOR b t)"] by auto
  ultimately show ?thesis using less assms by blast
qed

theorem closer_numeric_witness:
  "Closer (replicate 32 1) (replicate 32 2) (replicate 32 0) \<noteq> Closer (replicate 32 2) (replicate 32 1) (replicate 32 0)"
proof -
  have "(replicate 32 1 :: bytes) \<noteq> replicate 32 2" by simp
  then show ?thesis
    using closer_numeric [of "replicate 32 1" "replicate 32 2" "replicate 32 0"]
    by (simp only: is_ID_32 length_replicate simp_thms) blast
qed

section \<open>Parsing and printing\<close>

text \<open>
  Printing and parsing identifiers are inverse: every identifier parses back
  from its text, whatever parses has 32 bytes and came from 64 characters, and printing the
  result gives the text again up to the case of the hexadecimal digits.
\<close>

theorem parse_id_roundtrip:
  "(is_ID d \<longrightarrow> ParseID (id_String d) = Some d) \<and>
   (ParseID s = Some d \<longrightarrow> is_ID d \<and> length s = 64 \<and> id_String d = map to_lower s)"
proof -
  have "is_ID d \<and> length s = 64 \<and> id_String d = map to_lower s" if "ParseID s = Some d"
    using that hex_decode_length [of s d] hex_encode_decode [of s d]
    by (auto simp: ParseID_def id_String_def is_ID_def IDBytes_def IDBits_def split: option.splits if_splits)
  then show ?thesis by (auto simp: ParseID_def id_String_def is_ID_def)
qed

theorem parse_id_roundtrip_witness: "ParseID (id_String (replicate 32 171)) = Some (replicate 32 171)"
  using parse_id_roundtrip [of "replicate 32 171"] by (simp add: is_ID_32)

end
