(* ===== verification/Dht_Table.thy ===== *)
theory Dht_Table
  imports Dht_Id "HOL-Library.Multiset"
begin

text \<open>
  The Kademlia routing table (\<open>src/dht/dht.go\<close>, \<open>Contact\<close>, \<open>RoutingTable\<close>, \<open>bucket\<close>).
  A bucket is its slice of contacts, a table the own identifier and the array of 256
  buckets. The mutexes serialise the operations, so each is one step on the table. The
  table is specified by \<open>rt_lookup\<close>; \<open>rt_wf\<close> is its representation invariant, preserved by
  every operation through the \<open>bucket_update\<close> contract. \<open>sort.Slice\<close> is an insertion sort
  here; the facts about \<open>Closest\<close> use only the \<open>slice_sort\<close> contract, since Go's sort is
  not stable on long slices.
\<close>

section \<open>Data and operations\<close>

record Contact =
  cID :: ID
  cAddr :: string
  LastSeen :: gotime
  MissedPings :: int
  Suspect :: bool

definition K :: nat where "K = 8"
definition maxMissedPings :: int where "maxMissedPings = 4"

type_synonym bucket = "Contact list"

fun bucket_replace :: "Contact \<Rightarrow> bucket \<Rightarrow> bucket option" where
  "bucket_replace c [] = None"
| "bucket_replace c (e # es) =
     (if cID e = cID c then Some (c # es) else map_option ((#) e) (bucket_replace c es))"

definition bucket_add :: "Contact \<Rightarrow> bucket \<Rightarrow> bucket" where
  "bucket_add c b = (case bucket_replace c b of
     Some b' \<Rightarrow> b'
   | None \<Rightarrow> (let b' = (if length b \<ge> K then tl b else b) in b' @ [c]))"

fun bucket_remove :: "ID \<Rightarrow> bucket \<Rightarrow> bucket" where
  "bucket_remove i [] = []"
| "bucket_remove i (e # es) = (if cID e = i then es else e # bucket_remove i es)"

definition snapshot :: "bucket \<Rightarrow> Contact list" where "snapshot b = b"

definition bucket_len :: "bucket \<Rightarrow> nat" where "bucket_len b = length b"

fun bucket_markMissed :: "ID \<Rightarrow> bucket \<Rightarrow> bucket" where
  "bucket_markMissed i [] = []"
| "bucket_markMissed i (e # es) =
     (if cID e = i then
        (let e' = e\<lparr>MissedPings := wrap64 (MissedPings e + 1), Suspect := True\<rparr>
         in if MissedPings e' \<ge> maxMissedPings then es else e' # es)
      else e # bucket_markMissed i es)"

fun bucket_resetMissed :: "ID \<Rightarrow> bucket \<Rightarrow> bucket" where
  "bucket_resetMissed i [] = []"
| "bucket_resetMissed i (e # es) =
     (if cID e = i then e\<lparr>MissedPings := 0, Suspect := False\<rparr> # es
      else e # bucket_resetMissed i es)"

record RoutingTable =
  rt_self :: ID
  rt_buckets :: "bucket list"

definition NewRoutingTable :: "ID \<Rightarrow> RoutingTable" where
  "NewRoutingTable self = \<lparr>rt_self = self, rt_buckets = replicate IDBits []\<rparr>"

text \<open>\<open>rt.buckets[idx].op(...)\<close>\<close>

definition at_bucket :: "nat \<Rightarrow> (bucket \<Rightarrow> bucket) \<Rightarrow> RoutingTable \<Rightarrow> RoutingTable" where
  "at_bucket idx f rt = rt\<lparr>rt_buckets := (rt_buckets rt)[idx := f (rt_buckets rt ! idx)]\<rparr>"

definition rt_Add :: "Contact \<Rightarrow> RoutingTable \<Rightarrow> RoutingTable" where
  "rt_Add c rt = (if cID c = rt_self rt then rt
     else at_bucket (BucketIndex (id_XOR (rt_self rt) (cID c))) (bucket_add c) rt)"

definition rt_Remove :: "ID \<Rightarrow> RoutingTable \<Rightarrow> RoutingTable" where
  "rt_Remove i rt = at_bucket (BucketIndex (id_XOR (rt_self rt) i)) (bucket_remove i) rt"

definition rt_MarkMissed :: "ID \<Rightarrow> RoutingTable \<Rightarrow> RoutingTable" where
  "rt_MarkMissed i rt = at_bucket (BucketIndex (id_XOR (rt_self rt) i)) (bucket_markMissed i) rt"

definition rt_ResetMissed :: "ID \<Rightarrow> RoutingTable \<Rightarrow> RoutingTable" where
  "rt_ResetMissed i rt = at_bucket (BucketIndex (id_XOR (rt_self rt) i)) (bucket_resetMissed i) rt"

fun insert_Slice :: "('a \<Rightarrow> 'a \<Rightarrow> bool) \<Rightarrow> 'a \<Rightarrow> 'a list \<Rightarrow> 'a list" where
  "insert_Slice lt x [] = [x]"
| "insert_Slice lt x (y # ys) = (if lt y x then y # insert_Slice lt x ys else x # y # ys)"

fun sort_Slice :: "('a \<Rightarrow> 'a \<Rightarrow> bool) \<Rightarrow> 'a list \<Rightarrow> 'a list" where
  "sort_Slice lt [] = []"
| "sort_Slice lt (x # xs) = insert_Slice lt x (sort_Slice lt xs)"

text \<open>The sort key: the first eight bytes of the distance as a big-endian \<open>uint64\<close>.\<close>

definition dist64 :: "ID \<Rightarrow> Contact \<Rightarrow> nat" where
  "dist64 target c = be_nat (take 8 (id_XOR (cID c) target))"

definition Closest :: "RoutingTable \<Rightarrow> ID \<Rightarrow> nat \<Rightarrow> Contact list" where
  "Closest rt target n =
     (let all = concat (map (\<lambda>b. filter (\<lambda>c. \<not> Suspect c) (snapshot b)) (rt_buckets rt));
          all' = sort_Slice (\<lambda>x y. dist64 target x < dist64 target y) all
      in if length all' > n then take n all' else all')"

definition SuspectContacts :: "RoutingTable \<Rightarrow> Contact list" where
  "SuspectContacts rt = concat (map (\<lambda>b. filter Suspect (snapshot b)) (rt_buckets rt))"

definition rt_All :: "RoutingTable \<Rightarrow> Contact list" where
  "rt_All rt = concat (map snapshot (rt_buckets rt))"

definition rt_Size :: "RoutingTable \<Rightarrow> nat" where
  "rt_Size rt = foldl (\<lambda>n b. n + bucket_len b) 0 (rt_buckets rt)"

section \<open>Sorting contract\<close>

locale slice_sort =
  fixes srt :: "('a \<Rightarrow> 'a \<Rightarrow> bool) \<Rightarrow> 'a list \<Rightarrow> 'a list"
  assumes perm: "mset (srt lt xs) = mset xs"
    and ordered: "sorted (map key (srt (\<lambda>x y. key x < (key y :: nat)) xs))"
begin

lemma srt_set [simp]: "set (srt lt xs) = set xs"
  by (metis perm set_mset_mset)

lemma srt_length [simp]: "length (srt lt xs) = length xs"
  by (metis perm size_mset)

lemma srt_distinct: "distinct (map f (srt lt xs)) \<longleftrightarrow> distinct (map f xs)"
  by (metis mset_map perm mset_eq_imp_distinct_iff)

lemma take_least:
  assumes "x \<in> set (take n (srt (\<lambda>x y. key x < (key y :: nat)) xs))"
    and "y \<in> set xs" "y \<notin> set (take n (srt (\<lambda>x y. key x < key y) xs))"
  shows "key x \<le> key y"
proof -
  let ?s = "srt (\<lambda>x y. key x < key y) xs"
  have "y \<in> set ?s" using assms(2) by simp
  then have "y \<in> set (drop n ?s)" using assms(3) by (metis UnE append_take_drop_id set_append)
  moreover have "sorted (map key (take n ?s) @ map key (drop n ?s))"
    using ordered [of key xs] by (simp flip: map_append)
  ultimately show ?thesis using assms(1) by (auto simp: sorted_append)
qed

end

lemma insert_Slice_mset: "mset (insert_Slice lt x xs) = add_mset x (mset xs)"
  by (induction xs) simp_all

lemma insert_Slice_sorted:
  "sorted (map key xs) \<Longrightarrow> sorted (map key (insert_Slice (\<lambda>x y. key x < (key y :: nat)) x xs))"
proof (induction xs)
  case (Cons y ys)
  have "set (insert_Slice (\<lambda>x y. key x < key y) x ys) = insert x (set ys)"
    using insert_Slice_mset [of "\<lambda>x y. key x < key y" x ys] by (metis set_mset_mset set_mset_add_mset_insert)
  with Cons show ?case by auto
qed simp

interpretation srt: slice_sort sort_Slice
proof
  fix lt :: "'a \<Rightarrow> 'a \<Rightarrow> bool" and xs and key :: "'a \<Rightarrow> nat"
  show "mset (sort_Slice lt xs) = mset xs" by (induction xs) (simp_all add: insert_Slice_mset)
  show "sorted (map key (sort_Slice (\<lambda>x y. key x < key y) xs))"
    by (induction xs) (simp_all add: insert_Slice_sorted)
qed

section \<open>Buckets\<close>

abbreviation ids :: "bucket \<Rightarrow> ID list" where "ids b \<equiv> map cID b"

definition bucket_ok :: "bucket \<Rightarrow> bool" where
  "bucket_ok b \<longleftrightarrow> length b \<le> K \<and> distinct (ids b)"

definition bucket_get :: "bucket \<Rightarrow> ID \<Rightarrow> Contact option" where
  "bucket_get b i = find (\<lambda>e. cID e = i) b"

text \<open>What an operation on a bucket promises: it keeps the bucket bounded with distinct
  identifiers, and brings in no identifier but those of \<open>new\<close>.\<close>

locale bucket_update =
  fixes upd :: "bucket \<Rightarrow> bucket" and new :: "ID set"
  assumes keeps_ok: "bucket_ok b \<Longrightarrow> bucket_ok (upd b)"
    and ids_subset: "set (ids (upd b)) \<subseteq> new \<union> set (ids b)"
begin

lemma at_bucket_ok:
  assumes "\<forall>k < length bs. bucket_ok (bs ! k) \<and> (\<forall>c \<in> set (bs ! k). P k (cID c))"
    and "\<forall>i \<in> new. P k i" "k < length bs"
  shows "\<forall>j < length bs. bucket_ok (bs[k := upd (bs ! k)] ! j) \<and>
    (\<forall>c \<in> set (bs[k := upd (bs ! k)] ! j). P j (cID c))"
proof (intro allI impI conjI)
  fix j assume j: "j < length bs"
  show "bucket_ok (bs[k := upd (bs ! k)] ! j)"
    using assms(1) j keeps_ok by (cases "j = k") auto
  show "\<forall>c \<in> set (bs[k := upd (bs ! k)] ! j). P j (cID c)"
    using assms j ids_subset [of "bs ! k"] by (cases "j = k") (auto simp: image_subset_iff)
qed

end

lemma bucket_get_simps [simp]:
  "bucket_get [] i = None"
  "bucket_get (e # b) i = (if cID e = i then Some e else bucket_get b i)"
  by (simp_all add: bucket_get_def)

lemma bucket_get_None: "bucket_get b i = None \<longleftrightarrow> i \<notin> set (ids b)"
  by (induction b) auto

lemma bucket_get_fresh [simp]: "i \<notin> cID ` set b \<Longrightarrow> bucket_get b i = None"
  by (simp add: bucket_get_None)

lemma bucket_get_Some: "distinct (ids b) \<Longrightarrow> bucket_get b i = Some c \<longleftrightarrow> c \<in> set b \<and> cID c = i"
  by (induction b) auto

lemma bucket_get_append:
  "bucket_get (b @ b') i = (case bucket_get b i of None \<Rightarrow> bucket_get b' i | Some c \<Rightarrow> Some c)"
  by (induction b) auto

lemma bucket_replace_None: "bucket_replace c b = None \<longleftrightarrow> cID c \<notin> set (ids b)"
  by (induction b) auto

lemma bucket_replace_ids: "bucket_replace c b = Some b' \<Longrightarrow> ids b' = ids b"
  by (induction b arbitrary: b') (auto split: if_splits)

lemma bucket_replace_get:
  "bucket_replace c b = Some b' \<Longrightarrow> bucket_get b' j = (if j = cID c then Some c else bucket_get b j)"
  by (induction b arbitrary: b') (auto split: if_splits)

lemma bucket_get_remove:
  "distinct (ids b) \<Longrightarrow> bucket_get (bucket_remove i b) j = (if j = i then None else bucket_get b j)"
  by (induction b) auto

text \<open>What a missed ping makes of a contact; \<open>None\<close> when it is evicted.\<close>

definition missed :: "Contact \<Rightarrow> Contact option" where
  "missed e = (let e' = e\<lparr>MissedPings := wrap64 (MissedPings e + 1), Suspect := True\<rparr>
     in if MissedPings e' \<ge> maxMissedPings then None else Some e')"

lemma bucket_get_markMissed:
  "distinct (ids b) \<Longrightarrow> bucket_get (bucket_markMissed i b) j =
     (if j = i then Option.bind (bucket_get b i) missed else bucket_get b j)"
  by (induction b) (auto simp: missed_def Let_def)

lemma bucket_get_resetMissed:
  "bucket_get (bucket_resetMissed i b) j =
     (if j = i then map_option (\<lambda>e. e\<lparr>MissedPings := 0, Suspect := False\<rparr>) (bucket_get b i)
      else bucket_get b j)"
  by (induction b) auto

lemma bucket_get_add:
  assumes "distinct (ids b)"
  shows "bucket_get (bucket_add c b) j =
    (if j = cID c then Some c
     else if cID c \<notin> set (ids b) \<and> length b \<ge> K \<and> j = cID (hd b) then None else bucket_get b j)"
proof (cases "bucket_replace c b")
  case None
  then have "cID c \<notin> set (ids b)" by (simp add: bucket_replace_None)
  with None assms show ?thesis
    by (cases b) (auto simp: bucket_add_def bucket_get_append K_def split: option.splits)
next
  case (Some b')
  then have "cID c \<in> set (ids b)" using bucket_replace_None [of c b] by auto
  with Some show ?thesis by (simp add: bucket_add_def bucket_replace_get)
qed

lemma bucket_add_ok: "bucket_ok b \<Longrightarrow> bucket_ok (bucket_add c b)"
proof (cases "bucket_replace c b")
  case None
  assume "bucket_ok b"
  moreover from None have "cID c \<notin> set (ids b)" by (simp add: bucket_replace_None)
  ultimately show ?thesis
    using None by (cases b) (auto simp: bucket_add_def bucket_ok_def K_def)
next
  case (Some b')
  assume "bucket_ok b"
  moreover have "ids b' = ids b" "length b' = length b"
    using bucket_replace_ids [OF Some] by (auto dest: map_eq_imp_length_eq)
  ultimately show ?thesis using Some by (simp add: bucket_add_def bucket_ok_def)
qed

lemma bucket_add_ids: "set (ids (bucket_add c b)) \<subseteq> {cID c} \<union> set (ids b)"
proof (cases "bucket_replace c b")
  case None
  then show ?thesis by (cases b) (auto simp: bucket_add_def Let_def)
next
  case (Some b')
  then show ?thesis using bucket_replace_ids [OF Some] by (simp add: bucket_add_def subset_insertI)
qed

interpretation badd: bucket_update "bucket_add c" "{cID c}" for c :: Contact
  by unfold_locales (rule bucket_add_ok bucket_add_ids, assumption?)+

interpretation brem: bucket_update "bucket_remove i" "{}" for i
proof
  fix b
  have "length (bucket_remove i b) \<le> length b" "set (ids (bucket_remove i b)) \<subseteq> set (ids b)"
    "distinct (ids b) \<Longrightarrow> distinct (ids (bucket_remove i b))"
    by (induction b) auto
  then show "bucket_ok b \<Longrightarrow> bucket_ok (bucket_remove i b)"
    and "set (ids (bucket_remove i b)) \<subseteq> {} \<union> set (ids b)"
    by (auto simp: bucket_ok_def)
qed

interpretation bmiss: bucket_update "bucket_markMissed i" "{}" for i
proof
  fix b
  have "length (bucket_markMissed i b) \<le> length b" "set (ids (bucket_markMissed i b)) \<subseteq> set (ids b)"
    "distinct (ids b) \<Longrightarrow> distinct (ids (bucket_markMissed i b))"
    by (induction b) (auto simp: Let_def)
  then show "bucket_ok b \<Longrightarrow> bucket_ok (bucket_markMissed i b)"
    and "set (ids (bucket_markMissed i b)) \<subseteq> {} \<union> set (ids b)"
    by (auto simp: bucket_ok_def)
qed

interpretation breset: bucket_update "bucket_resetMissed i" "{}" for i
proof
  fix b
  have "ids (bucket_resetMissed i b) = ids b" by (induction b) auto
  moreover from this have "length (bucket_resetMissed i b) = length b" by (rule map_eq_imp_length_eq)
  ultimately show "bucket_ok b \<Longrightarrow> bucket_ok (bucket_resetMissed i b)"
    and "set (ids (bucket_resetMissed i b)) \<subseteq> {} \<union> set (ids b)"
    by (auto simp: bucket_ok_def)
qed

section \<open>The table\<close>

definition rt_wf :: "RoutingTable \<Rightarrow> bool" where
  "rt_wf rt \<longleftrightarrow> is_ID (rt_self rt) \<and> length (rt_buckets rt) = IDBits \<and>
     (\<forall>k < length (rt_buckets rt). bucket_ok (rt_buckets rt ! k) \<and>
       (\<forall>c \<in> set (rt_buckets rt ! k). is_ID (cID c) \<and> cID c \<noteq> rt_self rt \<and>
          BucketIndex (id_XOR (rt_self rt) (cID c)) = k))"

definition bucket_of :: "RoutingTable \<Rightarrow> ID \<Rightarrow> bucket" where
  "bucket_of rt i = rt_buckets rt ! BucketIndex (id_XOR (rt_self rt) i)"

definition rt_lookup :: "RoutingTable \<Rightarrow> ID \<Rightarrow> Contact option" where
  "rt_lookup rt i = bucket_get (bucket_of rt i) i"

lemma rt_wf_index: "rt_wf rt \<Longrightarrow> is_ID i \<Longrightarrow> BucketIndex (id_XOR (rt_self rt) i) < length (rt_buckets rt)"
  by (simp add: rt_wf_def BucketIndex_less)

lemma rt_wf_bucket: "rt_wf rt \<Longrightarrow> is_ID i \<Longrightarrow> bucket_ok (bucket_of rt i)"
  using rt_wf_index [of rt i] by (simp add: rt_wf_def bucket_of_def)

lemma at_bucket_self [simp]: "rt_self (at_bucket k f rt) = rt_self rt"
  by (simp add: at_bucket_def)

lemma rt_ops_self [simp]:
  "rt_self (rt_Add c rt) = rt_self rt" "rt_self (rt_Remove i rt) = rt_self rt"
  "rt_self (rt_MarkMissed i rt) = rt_self rt" "rt_self (rt_ResetMissed i rt) = rt_self rt"
  by (simp_all add: rt_Add_def rt_Remove_def rt_MarkMissed_def rt_ResetMissed_def)

context bucket_update
begin

lemma at_bucket_wf:
  assumes "rt_wf rt" "is_ID j" "\<forall>i \<in> new. is_ID i \<and> i \<noteq> rt_self rt \<and>
    BucketIndex (id_XOR (rt_self rt) i) = BucketIndex (id_XOR (rt_self rt) j)"
  shows "rt_wf (at_bucket (BucketIndex (id_XOR (rt_self rt) j)) upd rt)"
proof -
  define P where "P k i \<longleftrightarrow> is_ID i \<and> i \<noteq> rt_self rt \<and> BucketIndex (id_XOR (rt_self rt) i) = k" for k i
  define bs where "bs = rt_buckets rt"
  define k where "k = BucketIndex (id_XOR (rt_self rt) j)"
  have "\<forall>k < length bs. bucket_ok (bs ! k) \<and> (\<forall>c \<in> set (bs ! k). P k (cID c))"
    using assms(1) unfolding rt_wf_def bs_def P_def by blast
  moreover have "\<forall>i \<in> new. P k i" using assms(3) unfolding P_def k_def by blast
  moreover have "k < length bs" using rt_wf_index [OF assms(1,2)] by (simp add: k_def bs_def)
  ultimately have "\<forall>j < length bs. bucket_ok (bs[k := upd (bs ! k)] ! j) \<and>
      (\<forall>c \<in> set (bs[k := upd (bs ! k)] ! j). P j (cID c))" by (rule at_bucket_ok)
  moreover have "is_ID (rt_self rt)" "length bs = IDBits" using assms(1) by (simp_all add: rt_wf_def bs_def)
  ultimately show ?thesis
    unfolding rt_wf_def at_bucket_def bs_def [symmetric] k_def [symmetric] P_def by simp
qed

end

lemma rt_Add_wf: "rt_wf rt \<Longrightarrow> is_ID (cID c) \<Longrightarrow> rt_wf (rt_Add c rt)"
  by (simp add: rt_Add_def badd.at_bucket_wf)

lemma rt_Remove_wf: "rt_wf rt \<Longrightarrow> is_ID i \<Longrightarrow> rt_wf (rt_Remove i rt)"
  by (simp add: rt_Remove_def brem.at_bucket_wf)

lemma rt_MarkMissed_wf: "rt_wf rt \<Longrightarrow> is_ID i \<Longrightarrow> rt_wf (rt_MarkMissed i rt)"
  by (simp add: rt_MarkMissed_def bmiss.at_bucket_wf)

lemma rt_ResetMissed_wf: "rt_wf rt \<Longrightarrow> is_ID i \<Longrightarrow> rt_wf (rt_ResetMissed i rt)"
  by (simp add: rt_ResetMissed_def breset.at_bucket_wf)

lemma NewRoutingTable_wf: "is_ID self \<Longrightarrow> rt_wf (NewRoutingTable self)"
  by (simp add: rt_wf_def NewRoutingTable_def bucket_ok_def)

lemmas rt_wf_intros = rt_Add_wf rt_Remove_wf rt_MarkMissed_wf rt_ResetMissed_wf NewRoutingTable_wf

text \<open>Lookups after an operation on one bucket.\<close>

lemma bucket_of_at:
  assumes "rt_wf rt" "is_ID i" "is_ID j"
  shows "bucket_of (at_bucket (BucketIndex (id_XOR (rt_self rt) i)) f rt) j =
    (if BucketIndex (id_XOR (rt_self rt) j) = BucketIndex (id_XOR (rt_self rt) i)
     then f (bucket_of rt j) else bucket_of rt j)"
  using rt_wf_index [OF assms(1,2)] by (auto simp: bucket_of_def at_bucket_def)

lemma rt_lookup_ids: "rt_wf rt \<Longrightarrow> is_ID j \<Longrightarrow> distinct (ids (bucket_of rt j))"
  using rt_wf_bucket [of rt j] by (simp add: bucket_ok_def)

lemma rt_lookup_Remove:
  "rt_wf rt \<Longrightarrow> is_ID i \<Longrightarrow> is_ID j \<Longrightarrow>
   rt_lookup (rt_Remove i rt) j = (if j = i then None else rt_lookup rt j)"
  by (auto simp: rt_lookup_def rt_Remove_def bucket_of_at bucket_get_remove rt_lookup_ids)

lemma rt_lookup_MarkMissed:
  "rt_wf rt \<Longrightarrow> is_ID i \<Longrightarrow> is_ID j \<Longrightarrow>
   rt_lookup (rt_MarkMissed i rt) j = (if j = i then Option.bind (rt_lookup rt i) missed else rt_lookup rt j)"
  by (auto simp: rt_lookup_def rt_MarkMissed_def bucket_of_at bucket_get_markMissed rt_lookup_ids)

lemma rt_lookup_ResetMissed:
  "rt_wf rt \<Longrightarrow> is_ID i \<Longrightarrow> is_ID j \<Longrightarrow>
   rt_lookup (rt_ResetMissed i rt) j =
     (if j = i then map_option (\<lambda>e. e\<lparr>MissedPings := 0, Suspect := False\<rparr>) (rt_lookup rt i) else rt_lookup rt j)"
  by (auto simp: rt_lookup_def rt_ResetMissed_def bucket_of_at bucket_get_resetMissed)

lemma rt_All_concat: "rt_All rt = concat (rt_buckets rt)"
  by (simp add: rt_All_def snapshot_def [abs_def])

lemma in_rt_All: "c \<in> set (rt_All rt) \<longleftrightarrow> (\<exists>k < length (rt_buckets rt). c \<in> set (rt_buckets rt ! k))"
  by (simp add: rt_All_concat) (metis in_set_conv_nth)

lemma rt_wf_member:
  assumes "rt_wf rt" "c \<in> set (rt_All rt)"
  shows "is_ID (cID c) \<and> cID c \<noteq> rt_self rt \<and> c \<in> set (bucket_of rt (cID c))"
  using assms by (auto simp: in_rt_All rt_wf_def bucket_of_def)

lemma rt_All_lookup: "rt_wf rt \<Longrightarrow> c \<in> set (rt_All rt) \<longleftrightarrow> is_ID (cID c) \<and> rt_lookup rt (cID c) = Some c"
proof
  assume wf: "rt_wf rt" and "c \<in> set (rt_All rt)"
  then show "is_ID (cID c) \<and> rt_lookup rt (cID c) = Some c"
    using rt_wf_member [of rt c] rt_lookup_ids [OF wf] by (simp add: rt_lookup_def bucket_get_Some)
next
  assume wf: "rt_wf rt" and c: "is_ID (cID c) \<and> rt_lookup rt (cID c) = Some c"
  then have "c \<in> set (bucket_of rt (cID c))"
    using rt_lookup_ids [OF wf, of "cID c"] by (simp add: rt_lookup_def bucket_get_Some)
  with rt_wf_index [OF wf] c show "c \<in> set (rt_All rt)"
    unfolding in_rt_All bucket_of_def by blast
qed

section \<open>Properties of the table\<close>

datatype rt_op = OpAdd Contact | OpRemove ID | OpMarkMissed ID | OpResetMissed ID

fun rt_exec :: "rt_op \<Rightarrow> RoutingTable \<Rightarrow> RoutingTable" where
  "rt_exec (OpAdd c) rt = rt_Add c rt"
| "rt_exec (OpRemove i) rt = rt_Remove i rt"
| "rt_exec (OpMarkMissed i) rt = rt_MarkMissed i rt"
| "rt_exec (OpResetMissed i) rt = rt_ResetMissed i rt"

fun op_id :: "rt_op \<Rightarrow> ID" where
  "op_id (OpAdd c) = cID c"
| "op_id (OpRemove i) = i"
| "op_id (OpMarkMissed i) = i"
| "op_id (OpResetMissed i) = i"

lemma rt_exec_wf: "rt_wf rt \<Longrightarrow> is_ID (op_id op) \<Longrightarrow> rt_wf (rt_exec op rt)"
  by (cases op) (simp_all add: rt_wf_intros)

lemma rt_exec_fold_wf: "rt_wf rt \<Longrightarrow> \<forall>op \<in> set ops. is_ID (op_id op) \<Longrightarrow> rt_wf (fold rt_exec ops rt)"
  by (induction ops arbitrary: rt) (simp_all add: rt_exec_wf)

lemma rt_exec_self: "rt_self (fold rt_exec ops rt) = rt_self rt"
proof (induction ops arbitrary: rt)
  case (Cons op ops)
  then show ?case by (cases op) simp_all
qed simp

lemma rt_Size_All: "rt_Size rt = length (rt_All rt)"
proof -
  have "foldl (\<lambda>n b. n + bucket_len b) m bs = m + length (concat bs)" for m bs
    by (induction bs arbitrary: m) (simp_all add: bucket_len_def)
  then show ?thesis by (simp add: rt_Size_def rt_All_concat)
qed

lemma length_concat_le: "\<forall>x \<in> set xs. length x \<le> k \<Longrightarrow> length (concat xs) \<le> k * length xs"
  by (induction xs) auto

lemma rt_Size_le: "rt_wf rt \<Longrightarrow> rt_Size rt \<le> K * IDBits"
proof -
  assume wf: "rt_wf rt"
  then have "\<forall>b \<in> set (rt_buckets rt). length b \<le> K"
    by (auto simp: rt_wf_def bucket_ok_def all_set_conv_all_nth)
  from length_concat_le [OF this] wf show ?thesis by (simp add: rt_Size_All rt_All_concat rt_wf_def)
qed

lemma rt_All_distinct: "rt_wf rt \<Longrightarrow> distinct (map cID (rt_All rt))"
proof -
  assume wf: "rt_wf rt"
  have "distinct (concat (map ids bs))"
    if "\<forall>k < length bs. distinct (ids (bs ! k)) \<and> (\<forall>c \<in> set (bs ! k). f (cID c) = n + k)"
    for bs :: "bucket list" and f :: "ID \<Rightarrow> nat" and n
    using that
  proof (induction bs arbitrary: n)
    case (Cons b bs)
    have head: "distinct (ids b)" "\<forall>c \<in> set b. f (cID c) = n" using Cons.prems by force+
    have tail: "\<forall>k < length bs. distinct (ids (bs ! k)) \<and> (\<forall>c \<in> set (bs ! k). f (cID c) = Suc n + k)"
      using Cons.prems by force
    have "f (cID c) > n" if "b' \<in> set bs" "c \<in> set b'" for b' c
    proof -
      from that(1) obtain k where "k < length bs" "b' = bs ! k" by (auto simp: in_set_conv_nth)
      with tail that(2) show ?thesis by simp
    qed
    with head have "set (ids b) \<inter> set (concat (map ids bs)) = {}" by fastforce
    with head Cons.IH [OF tail] show ?case by simp
  qed simp
  from this [of "rt_buckets rt" "\<lambda>i. BucketIndex (id_XOR (rt_self rt) i)" 0] wf
  show ?thesis by (simp add: rt_wf_def bucket_ok_def rt_All_concat map_concat)
qed

text \<open>
  Property C1: whatever sequence of \<open>Add\<close>, \<open>Remove\<close>, \<open>MarkMissed\<close> and \<open>ResetMissed\<close> is applied
  to a new table, every contact stays in the bucket of its own distance, no bucket exceeds
  \<open>K\<close> contacts, no identifier occurs twice in the table, the own identifier is never stored,
  and the table holds at most 2048 contacts.
\<close>

theorem routing_table_invariant:
  assumes "is_ID self" "\<forall>op \<in> set ops. is_ID (op_id op)"
  shows "let rt = fold rt_exec ops (NewRoutingTable self) in
    rt_wf rt \<and> distinct (map cID (rt_All rt)) \<and> self \<notin> set (map cID (rt_All rt)) \<and> rt_Size rt \<le> 2048"
proof -
  let ?rt = "fold rt_exec ops (NewRoutingTable self)"
  have wf: "rt_wf ?rt" using assms by (simp add: rt_exec_fold_wf NewRoutingTable_wf)
  have self: "rt_self ?rt = self" by (simp add: rt_exec_self NewRoutingTable_def)
  have "self \<notin> set (map cID (rt_All ?rt))"
    using rt_wf_member [OF wf] self by auto
  moreover have "K * IDBits = 2048" by (simp add: K_def IDBits_def)
  ultimately show ?thesis
    unfolding Let_def using wf rt_All_distinct [OF wf] rt_Size_le [OF wf] by metis
qed

definition peer :: "byte \<Rightarrow> Contact" where
  "peer n = \<lparr>cID = replicate 32 n, cAddr = ''10.0.0.1:4000'', LastSeen = 0, MissedPings = 0, Suspect = False\<rparr>"

lemma peer_simps [simp]: "is_ID (cID (peer n))" "MissedPings (peer n) = 0" "cID (peer n) = replicate 32 n"
  "\<not> Suspect (peer n)"
  by (simp_all add: peer_def is_ID_32)

theorem routing_table_invariant_witness:
  "rt_wf (fold rt_exec [OpAdd (peer 1), OpMarkMissed (cID (peer 1)), OpAdd (peer 2)] (NewRoutingTable (replicate 32 0)))"
proof -
  let ?ops = "[OpAdd (peer 1), OpMarkMissed (cID (peer 1)), OpAdd (peer 2)]"
  have "is_ID (replicate 32 0)" "\<forall>op \<in> set ?ops. is_ID (op_id op)" by (simp_all add: is_ID_32)
  from routing_table_invariant [OF this] show ?thesis unfolding Let_def by blast
qed

text \<open>
  Property C2: \<open>Add\<close> stores the contact under its identifier, replacing an older record of the
  same peer; every other peer is still found unless the peer is new and its bucket already
  holds \<open>K\<close> contacts, in which case exactly the oldest contact of that bucket is evicted.
\<close>

theorem routing_table_add:
  assumes "rt_wf rt" "is_ID (cID c)" "cID c \<noteq> rt_self rt" "is_ID j"
  shows "rt_lookup (rt_Add c rt) j =
    (if j = cID c then Some c
     else if rt_lookup rt (cID c) = None \<and> length (bucket_of rt (cID c)) \<ge> K \<and> j = cID (hd (bucket_of rt (cID c)))
       then None else rt_lookup rt j)"
proof (cases "BucketIndex (id_XOR (rt_self rt) j) = BucketIndex (id_XOR (rt_self rt) (cID c))")
  case True
  then have same: "bucket_of rt j = bucket_of rt (cID c)" by (simp add: bucket_of_def)
  have "rt_lookup (rt_Add c rt) j = bucket_get (bucket_add c (bucket_of rt (cID c))) j"
    using assms True by (simp add: rt_lookup_def rt_Add_def bucket_of_at same)
  then show ?thesis
    using assms by (simp add: bucket_get_add rt_lookup_ids rt_lookup_def bucket_get_None same)
next
  case False
  have "j \<noteq> cID (hd (bucket_of rt (cID c)))" if "length (bucket_of rt (cID c)) \<ge> K"
  proof -
    have "hd (bucket_of rt (cID c)) \<in> set (bucket_of rt (cID c))" using that by (intro hd_in_set) (auto simp: K_def)
    with assms rt_wf_index [OF assms(1,2)] have
      "BucketIndex (id_XOR (rt_self rt) (cID (hd (bucket_of rt (cID c))))) = BucketIndex (id_XOR (rt_self rt) (cID c))"
      by (auto simp: rt_wf_def bucket_of_def)
    with False show ?thesis by auto
  qed
  with False assms show ?thesis by (auto simp: rt_lookup_def rt_Add_def bucket_of_at)
qed

theorem routing_table_add_witness:
  "rt_lookup (rt_Add (peer 1) (NewRoutingTable (replicate 32 0))) (replicate 32 1) = Some (peer 1)"
proof -
  have "(replicate 32 1 :: bytes) \<noteq> replicate 32 0" by simp
  then show ?thesis
    using routing_table_add [of "NewRoutingTable (replicate 32 0)" "peer 1" "replicate 32 1"] NewRoutingTable_wf
    by (simp add: is_ID_32 NewRoutingTable_def)
qed

lemma missed_step:
  "0 \<le> MissedPings c \<Longrightarrow> MissedPings c < 4 \<Longrightarrow> missed c =
     (if MissedPings c = 3 then None else Some (c\<lparr>MissedPings := MissedPings c + 1, Suspect := True\<rparr>))"
  by (auto simp: missed_def maxMissedPings_def Let_def wrap64_id int64_min_def int64_max_def)

lemma missed_iter:
  assumes "rt_wf rt" "is_ID i" "rt_lookup rt i = Some c" "MissedPings c = 0" "0 < n" "n < 4"
  shows "rt_wf ((rt_MarkMissed i ^^ n) rt) \<and>
    rt_lookup ((rt_MarkMissed i ^^ n) rt) i = Some (c\<lparr>MissedPings := int n, Suspect := True\<rparr>)"
  using assms(5,6)
proof (induction n)
  case (Suc n)
  show ?case
  proof (cases "n = 0")
    case True
    then show ?thesis using assms by (simp add: rt_MarkMissed_wf rt_lookup_MarkMissed missed_step)
  next
    case False
    with Suc have IH: "rt_wf ((rt_MarkMissed i ^^ n) rt)"
      "rt_lookup ((rt_MarkMissed i ^^ n) rt) i = Some (c\<lparr>MissedPings := int n, Suspect := True\<rparr>)" by simp_all
    then show ?thesis
      using Suc.prems assms(2) by (simp add: rt_MarkMissed_wf rt_lookup_MarkMissed missed_step)
  qed
qed simp

text \<open>
  The life of a contact that stops answering: from a clean record the first three
  missed pings mark it suspect and count up, the fourth evicts it, and a reset before that
  restores the clean record.
\<close>

theorem missed_pings_evict:
  assumes "rt_wf rt" "is_ID i" "rt_lookup rt i = Some c" "MissedPings c = 0"
  shows "(0 < n \<and> n < 4 \<longrightarrow>
      rt_lookup ((rt_MarkMissed i ^^ n) rt) i = Some (c\<lparr>MissedPings := int n, Suspect := True\<rparr>) \<and>
      rt_lookup (rt_ResetMissed i ((rt_MarkMissed i ^^ n) rt)) i = Some (c\<lparr>MissedPings := 0, Suspect := False\<rparr>)) \<and>
    rt_lookup ((rt_MarkMissed i ^^ 4) rt) i = None"
proof (intro conjI impI)
  have "rt_wf ((rt_MarkMissed i ^^ 3) rt) \<and>
      rt_lookup ((rt_MarkMissed i ^^ 3) rt) i = Some (c\<lparr>MissedPings := 3, Suspect := True\<rparr>)"
    using missed_iter [OF assms, of 3] by simp
  moreover have "(rt_MarkMissed i ^^ 4) rt = rt_MarkMissed i ((rt_MarkMissed i ^^ 3) rt)"
    by (simp add: numeral_eq_Suc)
  ultimately show "rt_lookup ((rt_MarkMissed i ^^ 4) rt) i = None"
    using assms(2) by (simp add: rt_lookup_MarkMissed missed_step)
next
  assume n: "0 < n \<and> n < 4"
  note it = missed_iter [OF assms, of n]
  show "rt_lookup ((rt_MarkMissed i ^^ n) rt) i = Some (c\<lparr>MissedPings := int n, Suspect := True\<rparr>)"
    using it n by simp
  show "rt_lookup (rt_ResetMissed i ((rt_MarkMissed i ^^ n) rt)) i = Some (c\<lparr>MissedPings := 0, Suspect := False\<rparr>)"
    using it n assms(2) by (simp add: rt_lookup_ResetMissed)
qed

lemma rt_lookup_Add_same:
  "rt_wf rt \<Longrightarrow> is_ID (cID c) \<Longrightarrow> cID c \<noteq> rt_self rt \<Longrightarrow> rt_lookup (rt_Add c rt) (cID c) = Some c"
  by (simp add: rt_lookup_def rt_Add_def bucket_of_at bucket_get_add rt_lookup_ids)

lemma peer_table:
  "n \<noteq> 0 \<Longrightarrow> rt_wf (rt_Add (peer n) (NewRoutingTable (replicate 32 0))) \<and>
   rt_lookup (rt_Add (peer n) (NewRoutingTable (replicate 32 0))) (replicate 32 n) = Some (peer n)"
proof -
  assume "n \<noteq> 0"
  then have "(replicate 32 n :: bytes) \<noteq> replicate 32 0" by simp
  moreover have "is_ID (replicate 32 0)" "is_ID (replicate 32 n)" by (simp_all add: is_ID_32)
  moreover have "rt_self (NewRoutingTable (replicate 32 0)) = replicate 32 0" by (simp add: NewRoutingTable_def)
  ultimately show ?thesis
    using rt_lookup_Add_same [of "NewRoutingTable (replicate 32 0)" "peer n"] by (simp add: NewRoutingTable_wf rt_Add_wf)
qed

theorem missed_pings_evict_witness:
  "rt_lookup ((rt_MarkMissed (replicate 32 1) ^^ 4) (rt_Add (peer 1) (NewRoutingTable (replicate 32 0)))) (replicate 32 1) = None"
  using missed_pings_evict [of "rt_Add (peer 1) (NewRoutingTable (replicate 32 0))" "replicate 32 1" "peer 1"] peer_table [of 1]
  by (simp add: is_ID_32)

section \<open>Closest\<close>

lemma Closest_take:
  "Closest rt target n = take n (sort_Slice (\<lambda>x y. dist64 target x < dist64 target y)
     (filter (\<lambda>c. \<not> Suspect c) (rt_All rt)))"
  by (simp add: Closest_def Let_def rt_All_concat snapshot_def filter_concat)

lemma SuspectContacts_filter: "SuspectContacts rt = filter Suspect (rt_All rt)"
  by (simp add: SuspectContacts_def rt_All_concat snapshot_def filter_concat)

text \<open>
  Property C3: \<open>Closest\<close> returns exactly \<open>min n m\<close> of the \<open>m\<close> contacts of the table that are not
  suspect, each of them once, ordered by the first 64 bits of the distance to the target; and
  no contact it leaves out has a smaller such prefix than one it returns.
\<close>

theorem closest_nearest:
  assumes "rt_wf rt"
  shows "length (Closest rt target n) = min n (length (filter (\<lambda>c. \<not> Suspect c) (rt_All rt))) \<and>
    set (Closest rt target n) \<subseteq> {c \<in> set (rt_All rt). \<not> Suspect c} \<and>
    distinct (map cID (Closest rt target n)) \<and>
    sorted (map (dist64 target) (Closest rt target n)) \<and>
    (\<forall>x \<in> set (Closest rt target n). \<forall>y \<in> set (rt_All rt).
       \<not> Suspect y \<and> y \<notin> set (Closest rt target n) \<longrightarrow> dist64 target x \<le> dist64 target y)"
proof -
  let ?live = "filter (\<lambda>c. \<not> Suspect c) (rt_All rt)"
  let ?s = "sort_Slice (\<lambda>x y. dist64 target x < dist64 target y) ?live"
  have "distinct (map cID ?live)" using rt_All_distinct [OF assms] by (rule distinct_map_filter)
  then have "distinct (map cID ?s)" by (simp add: srt.srt_distinct)
  then have "distinct (map cID (take n ?s))" by (metis distinct_take take_map)
  moreover have "sorted (map (dist64 target) (take n ?s))"
    using srt.ordered [of "dist64 target" ?live] by (metis sorted_wrt_take take_map)
  moreover have "dist64 target x \<le> dist64 target y"
    if "x \<in> set (take n ?s)" "y \<in> set (rt_All rt)" "\<not> Suspect y" "y \<notin> set (take n ?s)" for x y
    using that by (intro srt.take_least [of x n "dist64 target" ?live y]) simp_all
  moreover have "set (take n ?s) \<subseteq> set ?live" using set_take_subset [of n ?s] by simp
  ultimately show ?thesis unfolding Closest_take by auto
qed

theorem closest_nearest_witness:
  "let rt = rt_Add (peer 1) (NewRoutingTable (replicate 32 0)) in
   peer 1 \<in> set (rt_All rt) \<and>
   length (Closest rt (replicate 32 0) 8) = min 8 (length (filter (\<lambda>c. \<not> Suspect c) (rt_All rt)))"
proof -
  let ?rt = "rt_Add (peer 1) (NewRoutingTable (replicate 32 0))"
  have "1 \<noteq> (0 :: byte)" by simp
  from peer_table [OF this] have wf: "rt_wf ?rt" and "rt_lookup ?rt (cID (peer 1)) = Some (peer 1)" by simp_all
  then have "peer 1 \<in> set (rt_All ?rt)" using rt_All_lookup [OF wf] by (simp add: is_ID_32)
  with closest_nearest [OF wf] show ?thesis unfolding Let_def by blast
qed

text \<open>The comparison stops after eight bytes: two contacts whose identifiers agree there are
  returned in table order, so a search for the nearest contact can miss even the target itself.\<close>

lemma closest_prefix_only:
  "let far = (peer 1)\<lparr>cID := replicate 31 1 @ [2]\<rparr>;
       rt = rt_Add (peer 1) (rt_Add far (NewRoutingTable (replicate 32 0)))
   in Closest rt (cID (peer 1)) 1 = [far] \<and> Closer (cID (peer 1)) (cID far) (cID (peer 1))"
  by code_simp

end
