(* ===== verification/Dht_Relay.thy ===== *)
theory Dht_Relay
  imports Dht_Table
begin

text \<open>
  Signed relay announcements and the two address books built from gossip: \<open>RelayEntry\<close>, its
  canonical payload and \<open>VerifyRelayEntry\<close> (\<open>src/dht/dht.go\<close>), \<open>relayStore\<close>
  (\<open>src/dht/dht_node.go\<close>) and \<open>completeStore\<close> (\<open>src/dht/dht_content.go\<close>). Signature
  verification \<open>ed25519.Verify\<close> is the parameter \<open>verify\<close> of type \<open>sig_verify\<close> (public key,
  message, signature). The current time is an argument of the operations that read the clock.
\<close>

section \<open>Relay entries\<close>

record RelayEntry =
  NodeID :: string
  Addr :: string
  CountryCode :: string
  TS :: int
  Sig :: string

type_synonym sig_verify = "bytes \<Rightarrow> bytes \<Rightarrow> bytes \<Rightarrow> bool"

definition RelayTTL :: duration where "RelayTTL = 2 * minute"

definition relayEntryPayload :: "RelayEntry \<Rightarrow> bytes" where
  "relayEntryPayload e =
     str_bytes (NodeID e @ ''|'' @ Addr e @ ''|'' @ CountryCode e @ ''|'' @ dec_int (TS e))"

definition RelayEntryPayload :: "RelayEntry \<Rightarrow> bytes" where
  "RelayEntryPayload e = relayEntryPayload e"

datatype relay_error =
  BadNodeIDLength nat | NodeIDNotHex | BadSigEncoding | SignatureFailed | StaleOrFuture int

definition VerifyRelayEntry :: "sig_verify \<Rightarrow> RelayEntry \<Rightarrow> relay_error option" where
  "VerifyRelayEntry verify e =
     (if length (NodeID e) \<noteq> 64 then Some (BadNodeIDLength (length (NodeID e)))
      else case hex_decode (NodeID e) of None \<Rightarrow> Some NodeIDNotHex
      | Some pubBytes \<Rightarrow>
        (case b64_decode (Sig e) of None \<Rightarrow> Some BadSigEncoding
         | Some sig \<Rightarrow>
           if length sig \<noteq> 64 then Some BadSigEncoding
           else if \<not> verify pubBytes (relayEntryPayload e) sig then Some SignatureFailed
           else None))"

record ContactJSON =
  jID :: string
  jAddr :: string

definition ContactToJSON :: "Contact \<Rightarrow> ContactJSON" where
  "ContactToJSON c = \<lparr>jID = id_String (cID c), jAddr = cAddr c\<rparr>"

text \<open>On a parse error Go returns a zero contact together with the error; every caller drops it.\<close>

definition ContactFromJSON :: "gotime \<Rightarrow> ContactJSON \<Rightarrow> Contact option" where
  "ContactFromJSON now j = map_option
     (\<lambda>i. \<lparr>cID = i, cAddr = jAddr j, LastSeen = now, MissedPings = 0, Suspect = False\<rparr>) (ParseID (jID j))"

section \<open>Relay store\<close>

type_synonym relayStore = "(string, RelayEntry) gomap"

definition newRelayStore :: relayStore where "newRelayStore = gm_empty"

definition ttl_seconds :: int where "ttl_seconds = RelayTTL div second"

definition relay_store :: "sig_verify \<Rightarrow> gotime \<Rightarrow> RelayEntry \<Rightarrow> relayStore \<Rightarrow> relay_error option \<times> relayStore" where
  "relay_store verify t e s =
     (case VerifyRelayEntry verify e of Some err \<Rightarrow> (Some err, s)
      | None \<Rightarrow>
        (let now = time_unix t; age = wrap64 (now - TS e) in
         if age > ttl_seconds \<or> age < - ttl_seconds then (Some (StaleOrFuture age), s)
         else (case gm_get s (NodeID e) of
             Some existing \<Rightarrow> if TS existing \<ge> TS e then (None, s) else (None, gm_put (NodeID e) e s)
           | None \<Rightarrow> (None, gm_put (NodeID e) e s))))"

definition relay_all :: "gotime \<Rightarrow> relayStore \<Rightarrow> RelayEntry list" where
  "relay_all t s = filter (\<lambda>e. wrap64 (time_unix t - TS e) \<le> ttl_seconds) (map snd s)"

section \<open>Complete-peer store\<close>

record completePeerEntry =
  pe_addr :: string
  pe_ts :: int
  pe_complete :: bool
  pe_lastSeen :: gotime

type_synonym completeStore = "(string, completePeerEntry) gomap"

definition newCompleteStore :: completeStore where "newCompleteStore = gm_empty"

definition complete_record :: "gotime \<Rightarrow> string \<Rightarrow> int \<Rightarrow> bool \<Rightarrow> completeStore \<Rightarrow> completeStore" where
  "complete_record now addr ts complete s =
     gm_put addr \<lparr>pe_addr = addr, pe_ts = ts, pe_complete = complete, pe_lastSeen = now\<rparr> s"

definition peersFor :: "gotime \<Rightarrow> int \<Rightarrow> completeStore \<Rightarrow> string list" where
  "peersFor now ts s =
     (let cutoff = now - RelayTTL in
      map pe_addr (filter (\<lambda>e. pe_complete e \<and> pe_ts e = ts \<and> pe_lastSeen e > cutoff) (map snd s)))"

section \<open>The signed payload\<close>

lemma split_at_bar:
  assumes "CHR ''|'' \<notin> set a" "CHR ''|'' \<notin> set b" "a @ ''|'' @ x = b @ ''|'' @ y"
  shows "a = b \<and> x = y"
  using assms
proof (induction a arbitrary: b)
  case Nil
  then show ?case by (cases b) auto
next
  case (Cons c a)
  then show ?case by (cases b) auto
qed

lemma no_bar_dec: "CHR ''|'' \<notin> set (dec_int i)"
  using dec_int_chars [of "CHR ''|''" i] by auto

text \<open>
  The signed payload determines the announcement: two entries whose fields
  contain no separator character have the same canonical payload only if they agree on node,
  address, country and timestamp, so that a signature cannot be moved to another address or
  timestamp.
\<close>

theorem relay_payload_binding:
  assumes "\<forall>s \<in> {NodeID e, Addr e, CountryCode e, NodeID f, Addr f, CountryCode f}. CHR ''|'' \<notin> set s"
  shows "relayEntryPayload e = relayEntryPayload f \<longleftrightarrow>
    NodeID e = NodeID f \<and> Addr e = Addr f \<and> CountryCode e = CountryCode f \<and> TS e = TS f"
proof
  assume "relayEntryPayload e = relayEntryPayload f"
  then have eq: "NodeID e @ ''|'' @ Addr e @ ''|'' @ CountryCode e @ ''|'' @ dec_int (TS e) =
      NodeID f @ ''|'' @ Addr f @ ''|'' @ CountryCode f @ ''|'' @ dec_int (TS f)"
    unfolding relayEntryPayload_def str_bytes_inject .
  have 1: "NodeID e = NodeID f" and
    eq: "Addr e @ ''|'' @ CountryCode e @ ''|'' @ dec_int (TS e) = Addr f @ ''|'' @ CountryCode f @ ''|'' @ dec_int (TS f)"
    using split_at_bar [OF _ _ eq] assms by blast+
  have 2: "Addr e = Addr f" and eq: "CountryCode e @ ''|'' @ dec_int (TS e) = CountryCode f @ ''|'' @ dec_int (TS f)"
    using split_at_bar [OF _ _ eq] assms by blast+
  have "CountryCode e = CountryCode f \<and> dec_int (TS e) = dec_int (TS f)"
    using split_at_bar [OF _ _ eq] assms by blast
  with 1 2 show "NodeID e = NodeID f \<and> Addr e = Addr f \<and> CountryCode e = CountryCode f \<and> TS e = TS f" by simp
qed (simp add: relayEntryPayload_def)

definition sample_entry :: "int \<Rightarrow> RelayEntry" where
  "sample_entry ts = \<lparr>NodeID = hex_encode (replicate 32 170), Addr = ''10.0.0.1:4000'', CountryCode = ''DE'', TS = ts,
     Sig = b64_encode (replicate 64 7)\<rparr>"

theorem relay_payload_binding_witness:
  "relayEntryPayload (sample_entry 100) \<noteq> relayEntryPayload (sample_entry 101)"
proof -
  have "CHR ''|'' \<notin> set (hex_encode (replicate 32 170))"
    using hex_encode_chars [of "CHR ''|''" "replicate 32 170"] by auto
  then show ?thesis
    using relay_payload_binding [of "sample_entry 100" "sample_entry 101"] by (simp add: sample_entry_def)
qed

lemma sample_TS [simp]: "TS (sample_entry ts) = ts"
  by (simp add: sample_entry_def)

text \<open>Without the side condition the payload is ambiguous: a separator in the address moves
  text between the address and the country code.\<close>

lemma relay_payload_ambiguous:
  "relayEntryPayload (e\<lparr>Addr := ''h|A'', CountryCode := ''B''\<rparr>) =
   relayEntryPayload (e\<lparr>Addr := ''h'', CountryCode := ''A|B''\<rparr>)"
  by (simp add: relayEntryPayload_def)

section \<open>Properties of the stores\<close>

text \<open>The verdict of \<open>store\<close> does not depend on what is stored already.\<close>

definition accepted :: "sig_verify \<Rightarrow> gotime \<times> RelayEntry \<Rightarrow> bool" where
  "accepted verify = (\<lambda>(t, e). VerifyRelayEntry verify e = None \<and>
     - ttl_seconds \<le> wrap64 (time_unix t - TS e) \<and> wrap64 (time_unix t - TS e) \<le> ttl_seconds)"

lemma relay_store_verdict: "fst (relay_store verify t e s) = None \<longleftrightarrow> accepted verify (t, e)"
  by (auto simp: relay_store_def accepted_def Let_def split: option.splits)

lemma ttl_seconds_120: "ttl_seconds = 120"
  by (simp add: ttl_seconds_def RelayTTL_def minute_def second_def)

lemma wrap64_age:
  assumes "is_int64 ts" "0 \<le> now" "now < 2 ^ 62"
  shows "- 120 \<le> wrap64 (now - ts) \<and> wrap64 (now - ts) \<le> 120 \<longleftrightarrow> \<bar>now - ts\<bar> \<le> 120"
proof (cases "now - ts \<le> int64_max")
  case True
  then have "wrap64 (now - ts) = now - ts"
    using assms by (intro wrap64_id) (simp add: int64_min_def int64_max_def)
  then show ?thesis by auto
next
  case False
  have "wrap64 (now - ts) = now - ts - 2 ^ 64"
  proof -
    have "(now - ts + 2 ^ 63) mod 2 ^ 64 = (now - ts + 2 ^ 63 - 2 ^ 64) mod 2 ^ 64"
      by (simp only: minus_mod_self2)
    also have "\<dots> = now - ts + 2 ^ 63 - 2 ^ 64"
      using False assms by (intro mod_pos_pos_trivial) (simp_all add: int64_min_def int64_max_def)
    finally show ?thesis by (simp add: wrap64_def)
  qed
  with False assms show ?thesis by (auto simp: int64_min_def int64_max_def)
qed

text \<open>
  An announcement is accepted exactly when its signature verifies and its
  timestamp is within 120 seconds of the clock, in either direction. The 64-bit subtraction may
  wrap around for hostile timestamps; no such timestamp is accepted. Accepting changes at most
  the record of the announced node, and rejecting changes nothing.
\<close>

theorem relay_store_accepts:
  assumes "is_int64 (TS e)" "0 \<le> time_unix t" "time_unix t < 2 ^ 62"
  shows "(fst (relay_store verify t e s) = None \<longleftrightarrow>
      VerifyRelayEntry verify e = None \<and> \<bar>time_unix t - TS e\<bar> \<le> 120) \<and>
    (fst (relay_store verify t e s) \<noteq> None \<longrightarrow> snd (relay_store verify t e s) = s) \<and>
    (\<forall>i. i \<noteq> NodeID e \<longrightarrow> gm_get (snd (relay_store verify t e s)) i = gm_get s i)"
proof (intro conjI)
  show "fst (relay_store verify t e s) = None \<longleftrightarrow>
      VerifyRelayEntry verify e = None \<and> \<bar>time_unix t - TS e\<bar> \<le> 120"
    using wrap64_age [OF assms] by (simp only: relay_store_verdict accepted_def prod.case ttl_seconds_120)
  show "fst (relay_store verify t e s) \<noteq> None \<longrightarrow> snd (relay_store verify t e s) = s"
    by (auto simp: relay_store_def Let_def split: option.splits if_splits)
  show "\<forall>i. i \<noteq> NodeID e \<longrightarrow> gm_get (snd (relay_store verify t e s)) i = gm_get s i"
    by (auto simp: relay_store_def Let_def split: option.splits)
qed

lemma sample_verifies: "VerifyRelayEntry (\<lambda>pub m sig. sig = replicate 64 7) (sample_entry ts) = None"
  by (simp add: VerifyRelayEntry_def sample_entry_def)

theorem relay_store_accepts_witness:
  "fst (relay_store (\<lambda>pub m sig. sig = replicate 64 7) (1000 * second) (sample_entry 950) newRelayStore) = None \<and>
   fst (relay_store (\<lambda>pub m sig. sig = replicate 64 7) (1000 * second) (sample_entry 1121) newRelayStore) \<noteq> None"
  using relay_store_accepts [of "sample_entry 950" "1000 * second" "\<lambda>pub m sig. sig = replicate 64 7" newRelayStore]
    relay_store_accepts [of "sample_entry 1121" "1000 * second" "\<lambda>pub m sig. sig = replicate 64 7" newRelayStore]
  by (simp add: sample_verifies int64_min_def int64_max_def time_unix_def second_def)

definition relay_run :: "sig_verify \<Rightarrow> (gotime \<times> RelayEntry) list \<Rightarrow> relayStore \<Rightarrow> relayStore" where
  "relay_run verify evs s = fold (\<lambda>(t, e) s. snd (relay_store verify t e s)) evs s"

lemma relay_store_get:
  "gm_get (snd (relay_store verify t e s)) i =
     (if accepted verify (t, e) \<and> i = NodeID e \<and> (\<forall>x. gm_get s i = Some x \<longrightarrow> TS x < TS e) then Some e else gm_get s i)"
  by (auto simp: relay_store_def accepted_def Let_def not_le split: option.splits)

lemma relay_store_wf: "gm_wf s \<Longrightarrow> gm_wf (snd (relay_store verify t e s))"
  by (auto simp: relay_store_def Let_def split: option.splits)

text \<open>The record of node \<open>i\<close> is the freshest of the accepted announcements \<open>es\<close>.\<close>

definition freshest :: "string \<Rightarrow> RelayEntry set \<Rightarrow> RelayEntry option \<Rightarrow> bool" where
  "freshest i es r \<longleftrightarrow> (case r of None \<Rightarrow> \<forall>e \<in> es. NodeID e \<noteq> i
     | Some e \<Rightarrow> e \<in> es \<and> NodeID e = i \<and> (\<forall>f \<in> es. NodeID f = i \<longrightarrow> TS f \<le> TS e))"

lemma freshest_store:
  assumes "freshest i es (gm_get s i)"
  shows "freshest i (es \<union> (if accepted verify (t, e) then {e} else {})) (gm_get (snd (relay_store verify t e s)) i)"
  using assms by (auto simp: relay_store_get freshest_def split: option.splits)

lemma relay_run_freshest:
  assumes "freshest i es (gm_get s i)"
  shows "freshest i (es \<union> snd ` {ev \<in> set evs. accepted verify ev}) (gm_get (relay_run verify evs s) i)"
  using assms
proof (induction evs arbitrary: es s)
  case (Cons ev evs)
  obtain t e where ev: "ev = (t, e)" by (cases ev)
  have "es \<union> snd ` {x \<in> set (ev # evs). accepted verify x} =
      es \<union> (if accepted verify (t, e) then {e} else {}) \<union> snd ` {x \<in> set evs. accepted verify x}"
    by (auto simp: ev image_iff)
  with Cons.IH [OF freshest_store [OF Cons.prems]] show ?case by (simp add: ev relay_run_def)
qed (simp add: relay_run_def)

lemma relay_run_wf: "gm_wf s \<Longrightarrow> gm_wf (relay_run verify evs s)"
proof (induction evs arbitrary: s)
  case (Cons ev evs)
  then show ?case using relay_store_wf [of s verify "fst ev" "snd ev"] by (simp add: relay_run_def case_prod_unfold)
qed (simp add: relay_run_def)

text \<open>
  Property C7: whatever announcements arrive, in whatever order and with whatever repetitions,
  the store holds for each node the accepted announcement with the greatest timestamp and
  nothing else; the list served to clients is exactly the stored entries that are at most 120
  seconds old.
\<close>

theorem relay_store_freshest:
  "let s = relay_run verify evs newRelayStore in
    (\<forall>i. freshest i (snd ` {ev \<in> set evs. accepted verify ev}) (gm_get s i)) \<and>
    set (relay_all t s) = {e. gm_get s (NodeID e) = Some e \<and> wrap64 (time_unix t - TS e) \<le> 120}"
proof -
  let ?s = "relay_run verify evs newRelayStore"
  have fresh: "freshest i (snd ` {ev \<in> set evs. accepted verify ev}) (gm_get ?s i)" for i
    using relay_run_freshest [where i = i and es = "{}" and s = newRelayStore and verify = verify and evs = evs] by (simp add: freshest_def newRelayStore_def)
  have wf: "gm_wf ?s" by (simp add: relay_run_wf newRelayStore_def)
  have "e \<in> snd ` set ?s \<longleftrightarrow> gm_get ?s (NodeID e) = Some e" for e
  proof
    assume "e \<in> snd ` set ?s"
    then obtain i where "gm_get ?s i = Some e" using gm_get_in_set [OF wf] by auto
    moreover from this have "NodeID e = i" using fresh [of i] by (simp add: freshest_def)
    ultimately show "gm_get ?s (NodeID e) = Some e" by simp
  qed (use gm_get_in_set [OF wf] in force)
  with fresh show ?thesis by (auto simp: Let_def relay_all_def ttl_seconds_120)
qed

definition complete_run :: "(gotime \<times> string \<times> int \<times> bool) list \<Rightarrow> completeStore \<Rightarrow> completeStore" where
  "complete_run evs s = fold (\<lambda>(t, a, ts, b). complete_record t a ts b) evs s"

text \<open>The last announcement from an address.\<close>

definition last_from :: "string \<Rightarrow> (gotime \<times> string \<times> int \<times> bool) list \<Rightarrow> (gotime \<times> string \<times> int \<times> bool) option" where
  "last_from a evs = find (\<lambda>ev. fst (snd ev) = a) (rev evs)"

lemma last_from_snoc: "last_from a (evs @ [ev]) = (if fst (snd ev) = a then Some ev else last_from a evs)"
  by (simp add: last_from_def)

lemma last_from_addr: "last_from a evs = Some (t, b, ts, c) \<Longrightarrow> b = a"
  by (metis (mono_tags, lifting) find_Some_iff fst_conv last_from_def snd_conv)

lemma complete_run_get:
  "gm_get (complete_run evs newCompleteStore) a =
     map_option (\<lambda>(t, a', ts, b). \<lparr>pe_addr = a', pe_ts = ts, pe_complete = b, pe_lastSeen = t\<rparr>) (last_from a evs)"
proof (induction evs rule: rev_induct)
  case Nil
  show ?case by (simp add: complete_run_def newCompleteStore_def last_from_def)
next
  case (snoc ev evs)
  then show ?case
    by (cases ev) (simp add: complete_run_def complete_record_def last_from_snoc)
qed

lemma complete_run_wf: "gm_wf s \<Longrightarrow> gm_wf (complete_run evs s)"
proof (induction evs arbitrary: s)
  case (Cons ev evs)
  then show ?case by (simp add: complete_run_def complete_record_def case_prod_unfold)
qed (simp add: complete_run_def)

text \<open>
  A peer is listed as a source for a content version exactly when the last
  announcement received from its address named that version as complete and arrived less than
  the relay lifetime ago; each such peer is listed once.
\<close>

theorem complete_peers_last_word:
  "let peers = peersFor now ts (complete_run evs newCompleteStore) in
    distinct peers \<and>
    (\<forall>a. a \<in> set peers \<longleftrightarrow>
      (\<exists>t. last_from a evs = Some (t, a, ts, True) \<and> now - t < 2 * minute))"
proof -
  let ?s = "complete_run evs newCompleteStore"
  let ?live = "\<lambda>e. pe_complete e \<and> pe_ts e = ts \<and> pe_lastSeen e > now - RelayTTL"
  have wf: "gm_wf ?s" by (simp add: complete_run_wf newCompleteStore_def)
  have key: "pe_addr v = a" if "(a, v) \<in> set ?s" for a v
    using that by (auto simp: gm_get_in_set [OF wf, symmetric] complete_run_get dest: last_from_addr)
  have peers: "peersFor now ts ?s = map fst (filter (\<lambda>kv. ?live (snd kv)) ?s)"
    using key by (auto simp: peersFor_def Let_def filter_map comp_def)
  have "distinct (map fst (filter (\<lambda>kv. ?live (snd kv)) ?s))"
    using wf unfolding gm_wf_def by (rule distinct_map_filter)
  moreover have "a \<in> set (peersFor now ts ?s) \<longleftrightarrow> (\<exists>v. gm_get ?s a = Some v \<and> ?live v)" for a
    by (auto simp: peers gm_get_in_set [OF wf] image_iff)
  moreover have "(\<exists>v. gm_get ?s a = Some v \<and> ?live v) \<longleftrightarrow>
      (\<exists>t. last_from a evs = Some (t, a, ts, True) \<and> now - t < 2 * minute)" for a
  proof (cases "last_from a evs")
    case (Some ev)
    then obtain t ts' b where "last_from a evs = Some (t, a, ts', b)" by (metis last_from_addr prod_cases4)
    then show ?thesis by (auto simp: complete_run_get RelayTTL_def)
  qed (simp add: complete_run_get)
  ultimately show ?thesis by (simp only: Let_def peers [symmetric] simp_thms)
qed

end
