(* ===== verification/Aead.thy ===== *)
theory Aead
  imports Go_Lib
begin

text \<open>
  The ciphers and the hash of \<open>golang.org/x/crypto\<close>, which the sources call: ChaCha20-Poly1305 and
  BLAKE2b are parameters, with their documented behaviour as \<open>crypto_ok\<close>. The arguments of the cipher
  are key, nonce and text; there is no associated data.
\<close>

record crypto =
  aead_seal :: "bytes \<Rightarrow> bytes \<Rightarrow> bytes \<Rightarrow> bytes"
  aead_open :: "bytes \<Rightarrow> bytes \<Rightarrow> bytes \<Rightarrow> bytes option"
  blake2b_256 :: "bytes \<Rightarrow> bytes"

definition aead_overhead :: nat where "aead_overhead = 16"

definition crypto_ok :: "crypto \<Rightarrow> bool" where
  "crypto_ok C \<longleftrightarrow>
     (\<forall>k n p. length (aead_seal C k n p) = length p + aead_overhead) \<and>
     (\<forall>k n p. aead_open C k n (aead_seal C k n p) = Some p) \<and>
     (\<forall>k n c p. aead_open C k n c = Some p \<longrightarrow> length c = length p + aead_overhead) \<and>
     (\<forall>x. length (blake2b_256 C x) = 32)"

text \<open>\<open>chacha20poly1305.New\<close> fails exactly on keys that are not 32 bytes long.\<close>

definition aead_New_ok :: "bytes \<Rightarrow> bool" where "aead_New_ok k \<longleftrightarrow> length k = 32"

text \<open>A cipher that meets the laws, for concrete instances.\<close>

definition plain_crypto :: crypto where
  "plain_crypto = \<lparr>aead_seal = (\<lambda>k n p. p @ replicate 16 0),
     aead_open = (\<lambda>k n c. if 16 \<le> length c \<and> drop (length c - 16) c = replicate 16 0 then Some (take (length c - 16) c) else None),
     blake2b_256 = (\<lambda>x. replicate 32 0)\<rparr>"

lemma plain_crypto_ok [simp]: "crypto_ok plain_crypto"
  by (auto simp: crypto_ok_def plain_crypto_def aead_overhead_def)

end
