(* ===== verification/Dht_Wire.thy ===== *)
theory Dht_Wire
  imports Dht_Relay Aead "HOL-Library.Monad_Syntax"
begin

text \<open>
  Framing of overlay datagrams (\<open>src/dht/dht_wire.go\<close>): \<open>Seal\<close>, \<open>Open\<close> and the typed payloads.
  The AEAD cipher and the hash are parameters of the model (\<open>crypto\<close> of \<open>Aead\<close>); the conversion of the payload structs to and from JSON is \<open>json_codec\<close>. What the
  proofs rely on is stated as \<open>crypto_ok\<close> and \<open>json_ok\<close>: an authenticated ciphertext opens to
  its plaintext and is 16 bytes longer, the hash has 32 bytes, and a marshalled struct
  unmarshals to itself, with embedded raw JSON compacted. The random bytes a call to \<open>Seal\<close>
  draws are its argument \<open>seal_rand\<close>; a field that is \<open>None\<close> is a failing read.
\<close>

unbundle bit_operations_syntax

section \<open>Message types and payloads\<close>

definition MsgPing :: byte where "MsgPing = 0x01"
definition MsgPong :: byte where "MsgPong = 0x02"
definition MsgFindNode :: byte where "MsgFindNode = 0x03"
definition MsgNodes :: byte where "MsgNodes = 0x04"
definition MsgAnnounce :: byte where "MsgAnnounce = 0x05"
definition MsgAck :: byte where "MsgAck = 0x06"
definition MsgGetRelays :: byte where "MsgGetRelays = 0x07"
definition MsgRelayList :: byte where "MsgRelayList = 0x08"
definition MsgManifestHave :: byte where "MsgManifestHave = 0x09"
definition MsgManifestWant :: byte where "MsgManifestWant = 0x0A"
definition MsgManifest :: byte where "MsgManifest = 0x0B"
definition MsgHolePunch :: byte where "MsgHolePunch = 0x0C"
definition MsgContentHave :: byte where "MsgContentHave = 0x0D"
definition MsgContentWant :: byte where "MsgContentWant = 0x0E"
definition MsgContent :: byte where "MsgContent = 0x0F"
definition MsgMirrorPunch :: byte where "MsgMirrorPunch = 0x10"

lemmas msg_defs = MsgPing_def MsgPong_def MsgFindNode_def MsgNodes_def MsgAnnounce_def MsgAck_def
  MsgGetRelays_def MsgRelayList_def MsgManifestHave_def MsgManifestWant_def MsgManifest_def
  MsgHolePunch_def MsgContentHave_def MsgContentWant_def MsgContent_def MsgMirrorPunch_def

record FindNodePayload =
  fn_From :: ContactJSON
  fn_Target :: string

record NodesPayload =
  np_From :: ContactJSON
  np_Nodes :: "ContactJSON list"

record AnnouncePayload =
  ap_Entry :: RelayEntry

record RelayListPayload =
  rl_Entries :: "RelayEntry list"

record ManifestHavePayload =
  mh_TS :: int

record ManifestPayload =
  mp_TS :: int
  mp_Raw :: bytes

record HolePunchPayload =
  hp_Peer :: string
  hp_Control :: string

record ContentHavePayload =
  ch_TS :: int
  ch_Complete :: bool

record ContentPayload =
  cp_TS :: int
  cp_Raw :: bytes

record MirrorPunchPayload =
  mpp_Peer :: string

text \<open>The values passed to \<open>Seal\<close> as \<open>interface{}\<close>; a nil payload is the absent option.\<close>

datatype payload =
    PFindNode FindNodePayload
  | PNodes NodesPayload
  | PAnnounce AnnouncePayload
  | PRelayList RelayListPayload
  | PManifestHave ManifestHavePayload
  | PManifest ManifestPayload
  | PHolePunch HolePunchPayload
  | PContentHave ContentHavePayload
  | PContent ContentPayload
  | PMirrorPunch MirrorPunchPayload

section \<open>Parameters\<close>

record json_codec =
  marshal :: "payload \<Rightarrow> bytes option"
  compact :: "bytes \<Rightarrow> bytes"
  um_find_node :: "bytes \<Rightarrow> FindNodePayload option"
  um_nodes :: "bytes \<Rightarrow> NodesPayload option"
  um_announce :: "bytes \<Rightarrow> AnnouncePayload option"
  um_relay_list :: "bytes \<Rightarrow> RelayListPayload option"
  um_manifest_have :: "bytes \<Rightarrow> ManifestHavePayload option"
  um_manifest :: "bytes \<Rightarrow> ManifestPayload option"
  um_hole_punch :: "bytes \<Rightarrow> HolePunchPayload option"
  um_content_have :: "bytes \<Rightarrow> ContentHavePayload option"
  um_content :: "bytes \<Rightarrow> ContentPayload option"
  um_mirror_punch :: "bytes \<Rightarrow> MirrorPunchPayload option"

text \<open>The round trips the gossip channels rely on. Marshalling a \<open>json.RawMessage\<close> compacts it.\<close>

definition json_ok :: "json_codec \<Rightarrow> bool" where
  "json_ok J \<longleftrightarrow>
     (\<forall>p b. marshal J (PManifestHave p) = Some b \<longrightarrow> um_manifest_have J b = Some p) \<and>
     (\<forall>p b. marshal J (PManifest p) = Some b \<longrightarrow>
        um_manifest J b = Some (p\<lparr>mp_Raw := compact J (mp_Raw p)\<rparr>)) \<and>
     (\<forall>p b. marshal J (PContentHave p) = Some b \<longrightarrow> um_content_have J b = Some p) \<and>
     (\<forall>p b. marshal J (PContent p) = Some b \<longrightarrow>
        um_content J b = Some (p\<lparr>cp_Raw := compact J (cp_Raw p)\<rparr>))"

section \<open>Seal and Open\<close>

definition NonceSize :: nat where "NonceSize = 12"
definition MaxTTL :: byte where "MaxTTL = 8"

definition dht_key :: "crypto \<Rightarrow> bytes" where
  "dht_key C = blake2b_256 C (str_bytes ''snc-dht-v1'')"

record seal_rand =
  r_pad :: "byte option"
  r_fill :: "nat \<Rightarrow> bytes option"
  r_nonce :: "bytes option"

definition Seal :: "crypto \<Rightarrow> json_codec \<Rightarrow> seal_rand \<Rightarrow> byte \<Rightarrow> byte \<Rightarrow> payload option \<Rightarrow> bytes option" where
  "Seal C J r msgType ttl0 pl =
     (if \<not> aead_New_ok (dht_key C) then None
      else let ttl = (if ttl0 = 0 then MaxTTL else ttl0) in
      do {
        body \<leftarrow> (case pl of None \<Rightarrow> Some [] | Some p \<Rightarrow> marshal J p);
        padByte \<leftarrow> r_pad r;
        let padLen = unat (padByte AND 0x0F);
        padding \<leftarrow> (if padLen > 0 then r_fill r padLen else Some []);
        let plain = [msgType, ttl, word_of_nat padLen] @ padding @ body;
        nonce \<leftarrow> r_nonce r;
        Some (nonce @ aead_seal C (dht_key C) nonce plain)
      })"

datatype opened = OpenPanic | OpenErr | Opened byte byte bytes

definition Open :: "crypto \<Rightarrow> bytes \<Rightarrow> opened" where
  "Open C pkt =
     (if \<not> aead_New_ok (dht_key C) then OpenErr
      else if length pkt < NonceSize + 3 + aead_overhead then OpenErr
      else case aead_open C (dht_key C) (take NonceSize pkt) (drop NonceSize pkt) of None \<Rightarrow> OpenErr
      | Some plain \<Rightarrow>
        if length plain < 3 then OpenPanic
        else let padLen = unat (plain ! 2) in
          if 3 + padLen > length plain then OpenErr
          else Opened (plain ! 0) (plain ! 1) (drop (3 + padLen) plain))"

section \<open>Properties\<close>

text \<open>The random source delivers as many bytes as it is asked for.\<close>

definition rand_ok :: "seal_rand \<Rightarrow> bool" where
  "rand_ok r \<longleftrightarrow> (\<forall>n. case r_fill r n of None \<Rightarrow> True | Some bs \<Rightarrow> length bs = n) \<and>
     (case r_nonce r of None \<Rightarrow> True | Some bs \<Rightarrow> length bs = NonceSize)"

lemma crypto_okD:
  assumes "crypto_ok C"
  shows "length (aead_seal C k n p) = length p + 16" "aead_open C k n (aead_seal C k n p) = Some p"
    "aead_open C k n c = Some p \<Longrightarrow> length c = length p + 16" "aead_New_ok (dht_key C)"
  using assms by (simp_all add: crypto_ok_def aead_overhead_def aead_New_ok_def dht_key_def)

lemma Seal_Some:
  assumes "crypto_ok C" "rand_ok r" "Seal C J r mt ttl pl = Some pkt"
  obtains body padding nonce where
    "(case pl of None \<Rightarrow> Some [] | Some p \<Rightarrow> marshal J p) = Some body"
    "length padding < 16" "length nonce = NonceSize"
    "pkt = nonce @ aead_seal C (dht_key C) nonce
       ([mt, if ttl = 0 then MaxTTL else ttl, word_of_nat (length padding)] @ padding @ body)"
proof -
  have New: "(\<not> aead_New_ok (dht_key C)) = False" using crypto_okD(4) [OF assms(1)] by simp
  from assms(3) obtain body and padByte :: byte and padding nonce where
    body: "(case pl of None \<Rightarrow> Some [] | Some p \<Rightarrow> marshal J p) = Some body" and
    fill: "(if unat (padByte AND 15) > 0 then r_fill r (unat (padByte AND 15)) else Some []) = Some padding" and
    nonce: "r_nonce r = Some nonce" and
    pkt: "pkt = nonce @ aead_seal C (dht_key C) nonce
      ([mt, if ttl = 0 then MaxTTL else ttl, word_of_nat (unat (padByte AND 15))] @ padding @ body)"
    unfolding Seal_def Let_def bind_eq_Some_conv New if_False option.inject by metis
  have len: "length padding = unat (padByte AND 15)"
  proof (cases "unat (padByte AND 15) > 0")
    case True
    with fill have "r_fill r (unat (padByte AND 15)) = Some padding" by (simp only: if_True)
    moreover have "case r_fill r (unat (padByte AND 15)) of None \<Rightarrow> True | Some bs \<Rightarrow> length bs = unat (padByte AND 15)"
      using assms(2) unfolding rand_ok_def by blast
    ultimately show ?thesis by simp
  qed (use fill in simp)
  have "length nonce = NonceSize" using nonce assms(2) by (simp add: rand_ok_def)
  moreover have "length padding < 16" using nibble_lt(2) [of padByte] by (simp only: len)
  ultimately show ?thesis using that [OF body _ _ pkt [folded len]] by blast
qed

text \<open>
  Property C8: what \<open>Seal\<close> produces, \<open>Open\<close> returns: message type, time to live and payload, with
  a zero time to live replaced by the maximum and whatever random padding was drawn. Every
  sealed datagram is longer than the minimum length \<open>Open\<close> accepts.
\<close>

theorem seal_open_roundtrip:
  assumes "crypto_ok C" "rand_ok r" "Seal C J r mt ttl pl = Some pkt"
  shows "\<exists>body. (case pl of None \<Rightarrow> Some [] | Some p \<Rightarrow> marshal J p) = Some body \<and>
    Open C pkt = Opened mt (if ttl = 0 then MaxTTL else ttl) body \<and>
    NonceSize + 3 + aead_overhead + length body \<le> length pkt"
proof -
  from assms obtain body padding nonce where
    body: "(case pl of None \<Rightarrow> Some [] | Some p \<Rightarrow> marshal J p) = Some body" and
    pad: "length padding < 16" and nonce: "length nonce = NonceSize" and
    pkt: "pkt = nonce @ aead_seal C (dht_key C) nonce
       ([mt, if ttl = 0 then MaxTTL else ttl, word_of_nat (length padding)] @ padding @ body)"
    by (rule Seal_Some)
  have "unat (word_of_nat (length padding) :: byte) = length padding"
    using pad by (simp only: unat_of_nat) simp
  moreover have "drop (3 + length padding) (a # b # c # padding @ body) = body" for a b c :: byte
    by (simp add: numeral_3_eq_3)
  ultimately show ?thesis
    using body pad nonce by (simp add: pkt Open_def Let_def crypto_okD [OF assms(1)] aead_overhead_def)
qed

text \<open>A codec that meets the round trips, for timestamps of one byte.\<close>

definition small_ts :: "int \<Rightarrow> bytes \<Rightarrow> bytes option" where
  "small_ts ts rest = (if 0 \<le> ts \<and> ts < 256 then Some (word_of_int ts # rest) else None)"

fun byte_marshal :: "payload \<Rightarrow> bytes option" where
  "byte_marshal (PManifestHave p) = small_ts (mh_TS p) []"
| "byte_marshal (PManifest p) = small_ts (mp_TS p) (mp_Raw p)"
| "byte_marshal (PContentHave p) = small_ts (ch_TS p) [of_bool (ch_Complete p)]"
| "byte_marshal (PContent p) = small_ts (cp_TS p) (cp_Raw p)"
| "byte_marshal _ = None"

definition byte_json :: json_codec where
  "byte_json = \<lparr>marshal = byte_marshal, compact = (\<lambda>b. b),
     um_find_node = (\<lambda>b. None), um_nodes = (\<lambda>b. None), um_announce = (\<lambda>b. None), um_relay_list = (\<lambda>b. None),
     um_manifest_have = (\<lambda>b. case b of [t] \<Rightarrow> Some \<lparr>mh_TS = uint t\<rparr> | _ \<Rightarrow> None),
     um_manifest = (\<lambda>b. case b of t # r \<Rightarrow> Some \<lparr>mp_TS = uint t, mp_Raw = r\<rparr> | _ \<Rightarrow> None),
     um_hole_punch = (\<lambda>b. None),
     um_content_have = (\<lambda>b. case b of [t, c] \<Rightarrow> Some \<lparr>ch_TS = uint t, ch_Complete = (c \<noteq> 0)\<rparr> | _ \<Rightarrow> None),
     um_content = (\<lambda>b. case b of t # r \<Rightarrow> Some \<lparr>cp_TS = uint t, cp_Raw = r\<rparr> | _ \<Rightarrow> None),
     um_mirror_punch = (\<lambda>b. None)\<rparr>"

lemma small_ts_Some: "small_ts ts r = Some b \<Longrightarrow> b = word_of_int ts # r \<and> uint (word_of_int ts :: byte) = ts"
  by (auto simp: small_ts_def uint_word_of_int split: if_splits)

lemma byte_json_ok [simp]: "json_ok byte_json"
  by (auto simp: json_ok_def byte_json_def dest!: small_ts_Some)

definition sample_rand :: seal_rand where
  "sample_rand = \<lparr>r_pad = Some 0x35, r_fill = (\<lambda>n. Some (replicate n 9)), r_nonce = Some (replicate 12 1)\<rparr>"

lemma sample_rand_ok [simp]: "rand_ok sample_rand"
  by (simp add: rand_ok_def sample_rand_def NonceSize_def)

theorem seal_open_roundtrip_witness:
  "\<exists>pkt. Seal plain_crypto byte_json sample_rand MsgPing 0 None = Some pkt \<and> Open plain_crypto pkt = Opened MsgPing MaxTTL []"
proof -
  obtain pkt where pkt: "Seal plain_crypto byte_json sample_rand MsgPing 0 None = Some pkt"
    by (auto simp: Seal_def sample_rand_def Let_def crypto_okD(4))
  with seal_open_roundtrip [OF plain_crypto_ok sample_rand_ok pkt] show ?thesis by auto
qed

text \<open>
  \<open>Open\<close> never fails at run time on a hostile datagram: for every byte string it
  either reports an error or returns a type, a time to live and a payload that is a suffix of
  the decrypted text; in particular the read of the padding length is always in range.
\<close>

theorem open_total:
  assumes "crypto_ok C"
  shows "Open C pkt \<noteq> OpenPanic \<and>
    (\<forall>mt ttl raw. Open C pkt = Opened mt ttl raw \<longrightarrow>
      (\<exists>plain. aead_open C (dht_key C) (take NonceSize pkt) (drop NonceSize pkt) = Some plain \<and>
         3 + length raw \<le> length plain \<and> raw = drop (length plain - length raw) plain))"
proof (intro conjI allI impI)
  show "Open C pkt \<noteq> OpenPanic"
    using crypto_okD(3) [OF assms, of "dht_key C" "take NonceSize pkt" "drop NonceSize pkt"]
    by (auto simp: Open_def Let_def NonceSize_def aead_overhead_def split: option.splits)
  fix mt ttl raw assume "Open C pkt = Opened mt ttl raw"
  then show "\<exists>plain. aead_open C (dht_key C) (take NonceSize pkt) (drop NonceSize pkt) = Some plain \<and>
         3 + length raw \<le> length plain \<and> raw = drop (length plain - length raw) plain"
    by (auto simp: Open_def Let_def split: option.splits if_splits)
qed

theorem open_total_witness: "Open plain_crypto (replicate 40 0) \<noteq> OpenPanic"
  using open_total [OF plain_crypto_ok, of "replicate 40 0"] by blast

end
