(* ===== verification/Dht_Node.thy ===== *)
theory Dht_Node
  imports Dht_Wire
begin

text \<open>
  The overlay node (\<open>src/dht/dht_node.go\<close> and the gossip part of \<open>src/dht/dht_content.go\<close>):
  its state, the handler of every message type, the active operations and the maintenance
  ticks. An operation takes what it reads from outside as \<open>dht_env\<close> (the clock, random bytes,
  cipher, JSON, signature check, address resolution) and returns the new state and the list of
  its \<open>effect\<close>s in order: datagrams sent, callbacks started, timers armed, files written. A
  \<open>*net.UDPAddr\<close> is its \<open>String()\<close>. A goroutine started by an operation is an effect; its body
  is an operation of its own. Log output is not modelled.
\<close>

section \<open>Environment, state, effects\<close>

record dht_env =
  e_now :: gotime
  e_rand :: "nat \<Rightarrow> seal_rand"
  e_crypto :: crypto
  e_json :: json_codec
  e_verify :: sig_verify
  e_resolve :: "string \<Rightarrow> string option"
  e_parseIP :: "string \<Rightarrow> bytes option"
  e_marshal_peers :: "ContactJSON list \<Rightarrow> bytes option"
  e_unmarshal_peers :: "bytes \<Rightarrow> ContactJSON list option"
  e_marshal_relays :: "RelayEntry list \<Rightarrow> bytes option"
  e_unmarshal_relays :: "bytes \<Rightarrow> RelayEntry list option"

definition bootstrapAlpha :: nat where "bootstrapAlpha = 3"
definition announceEvery :: duration where "announceEvery = 25 * second"
definition persistEvery :: duration where "persistEvery = 5 * minute"
definition pingEvery :: duration where "pingEvery = 15 * minute"
definition suspectRetry :: duration where "suspectRetry = 90 * second"
definition maxUDPSize :: nat where "maxUDPSize = 65507"
definition pingTimeout :: duration where "pingTimeout = 5 * second"

record Node =
  n_id :: ID
  localAddr :: string
  ownAddr :: string
  rt :: RoutingTable
  relays :: relayStore
  peersPath :: string
  ownEntry :: "RelayEntry option"
  entryRefresher :: "(gotime \<Rightarrow> RelayEntry option option) option"
  pendingPings :: "(string, ID) gomap"
  manifestRaw :: bytes
  manifestTS :: int
  onManifest :: bool
  contentRaw :: bytes
  contentTS :: int
  contentComplete :: bool
  onContent :: bool
  completePeers :: completeStore
  holePunchHandler :: bool
  mirrorPunchHandler :: bool
  encryptFn :: "bytes \<Rightarrow> bytes option"
  decryptFn :: "bytes \<Rightarrow> bytes option"
  done_closed :: bool

datatype effect =
    Send bytes string
  | GoAnnounce
  | CallManifest bytes
  | CallContent bytes
  | GoHolePunch string string
  | GoMirrorPunch string
  | StartPingTimer string ID
  | WriteFile string bytes

type_synonym result = "Node \<times> effect list"

definition NewNode :: "ID \<Rightarrow> string \<Rightarrow> string \<Rightarrow> (bytes \<Rightarrow> bytes option) option \<Rightarrow> (bytes \<Rightarrow> bytes option) option \<Rightarrow> Node" where
  "NewNode i local path enc dec =
     \<lparr>n_id = i, localAddr = local, ownAddr = [], rt = NewRoutingTable i, relays = newRelayStore, peersPath = path,
      ownEntry = None, entryRefresher = None, pendingPings = gm_empty, manifestRaw = [], manifestTS = 0, onManifest = False,
      contentRaw = [], contentTS = 0, contentComplete = False, onContent = False, completePeers = newCompleteStore,
      holePunchHandler = False, mirrorPunchHandler = False,
      encryptFn = (case enc of None \<Rightarrow> Some | Some f \<Rightarrow> f), decryptFn = (case dec of None \<Rightarrow> Some | Some f \<Rightarrow> f),
      done_closed = False\<rparr>"

section \<open>Setters and getters\<close>

definition SetOwnEntry :: "RelayEntry option \<Rightarrow> Node \<Rightarrow> result" where
  "SetOwnEntry e n = (n\<lparr>ownEntry := e\<rparr>, [GoAnnounce])"

definition SetEntryRefresher :: "(gotime \<Rightarrow> RelayEntry option option) option \<Rightarrow> Node \<Rightarrow> Node" where
  "SetEntryRefresher f n = n\<lparr>entryRefresher := f\<rparr>"

definition OwnEntry :: "Node \<Rightarrow> RelayEntry option" where
  "OwnEntry n = ownEntry n"

definition SetManifest :: "bytes \<Rightarrow> int \<Rightarrow> Node \<Rightarrow> Node" where
  "SetManifest raw ts n = (if ts > manifestTS n then n\<lparr>manifestRaw := raw, manifestTS := ts\<rparr> else n)"

definition SetHolePunchHandler :: "bool \<Rightarrow> Node \<Rightarrow> Node" where
  "SetHolePunchHandler f n = n\<lparr>holePunchHandler := f\<rparr>"

definition SetManifestHandler :: "bool \<Rightarrow> Node \<Rightarrow> Node" where
  "SetManifestHandler f n = n\<lparr>onManifest := f\<rparr>"

definition SetOwnAddr :: "string \<Rightarrow> Node \<Rightarrow> Node" where
  "SetOwnAddr a n = n\<lparr>ownAddr := a\<rparr>"

definition SetMirrorPunchHandler :: "bool \<Rightarrow> Node \<Rightarrow> Node" where
  "SetMirrorPunchHandler f n = n\<lparr>mirrorPunchHandler := f\<rparr>"

definition SetContent :: "bytes \<Rightarrow> int \<Rightarrow> Node \<Rightarrow> Node" where
  "SetContent raw ts n =
     (if ts > contentTS n then n\<lparr>contentRaw := raw, contentTS := ts, contentComplete := False\<rparr> else n)"

definition SetContentComplete :: "int \<Rightarrow> bool \<Rightarrow> Node \<Rightarrow> Node" where
  "SetContentComplete ts complete n = (if ts = contentTS n then n\<lparr>contentComplete := complete\<rparr> else n)"

definition SetContentHandler :: "bool \<Rightarrow> Node \<Rightarrow> Node" where
  "SetContentHandler f n = n\<lparr>onContent := f\<rparr>"

definition CompletePeers :: "gotime \<Rightarrow> int \<Rightarrow> Node \<Rightarrow> string list" where
  "CompletePeers now ts n = peersFor now ts (completePeers n)"

definition Relays :: "gotime \<Rightarrow> Node \<Rightarrow> RelayEntry list" where
  "Relays now n = relay_all now (relays n)"

definition RoutingTableSize :: "Node \<Rightarrow> nat" where
  "RoutingTableSize n = rt_Size (rt n)"

definition selfAddr :: "Node \<Rightarrow> string" where
  "selfAddr n = (if ownAddr n \<noteq> [] then ownAddr n else localAddr n)"

text \<open>\<open>close(n.done)\<close> panics on the second call.\<close>

definition Stop :: "Node \<Rightarrow> Node option" where
  "Stop n = (if done_closed n then None else Some (n\<lparr>done_closed := True\<rparr>))"

section \<open>Address checks\<close>

text \<open>An IP address is 16 bytes; IPv4 addresses have the prefix of mapped addresses.\<close>

definition IsUnspecified :: "bytes \<Rightarrow> bool" where
  "IsUnspecified ip \<longleftrightarrow> ip = replicate 16 0 \<or> ip = replicate 10 0 @ [255, 255, 0, 0, 0, 0]"

definition isValidContactAddr :: "dht_env \<Rightarrow> string \<Rightarrow> bool" where
  "isValidContactAddr E addr = (case SplitHostPort addr of None \<Rightarrow> False
     | Some (host, _) \<Rightarrow> (case e_parseIP E host of None \<Rightarrow> False | Some ip \<Rightarrow> \<not> IsUnspecified ip))"

section \<open>Sealing with the environment\<close>

abbreviation seal :: "dht_env \<Rightarrow> nat \<Rightarrow> byte \<Rightarrow> byte \<Rightarrow> payload option \<Rightarrow> bytes option" where
  "seal E k \<equiv> Seal (e_crypto E) (e_json E) (e_rand E k)"

text \<open>\<open>pkt, err := Seal(...); if err != nil { return }; n.send(pkt, dst)\<close>\<close>

definition seal_send :: "dht_env \<Rightarrow> byte \<Rightarrow> byte \<Rightarrow> payload option \<Rightarrow> string \<Rightarrow> effect list" where
  "seal_send E mt ttl pl dst = (case seal E 0 mt ttl pl of None \<Rightarrow> [] | Some pkt \<Rightarrow> [Send pkt dst])"

text \<open>The loop of the fan-out operations: one fresh datagram per contact, contacts that do not
  seal or resolve are skipped.\<close>

fun send_each :: "dht_env \<Rightarrow> nat \<Rightarrow> byte \<Rightarrow> byte \<Rightarrow> payload option \<Rightarrow> Contact list \<Rightarrow> effect list" where
  "send_each E k mt ttl pl [] = []"
| "send_each E k mt ttl pl (c # cs) =
     (case seal E k mt ttl pl of None \<Rightarrow> send_each E (Suc k) mt ttl pl cs
      | Some pkt \<Rightarrow>
        (case e_resolve E (cAddr c) of None \<Rightarrow> send_each E (Suc k) mt ttl pl cs
         | Some raddr \<Rightarrow> Send pkt raddr # send_each E (Suc k) mt ttl pl cs))"

text \<open>The loop of the gossip operations: one datagram, sent to every contact that resolves.\<close>

definition send_all :: "dht_env \<Rightarrow> bytes \<Rightarrow> Contact list \<Rightarrow> effect list" where
  "send_all E pkt cs = concat (map (\<lambda>c. case e_resolve E (cAddr c) of None \<Rightarrow> [] | Some raddr \<Rightarrow> [Send pkt raddr]) cs)"

section \<open>Message handlers\<close>

definition learnContact :: "string \<Rightarrow> Node \<Rightarrow> Node" where "learnContact src n = n"

definition clearSuspectByAddr :: "string \<Rightarrow> Node \<Rightarrow> Node" where
  "clearSuspectByAddr src n = (case gm_get (pendingPings n) src of None \<Rightarrow> n
     | Some i \<Rightarrow> n\<lparr>pendingPings := gm_del src (pendingPings n), rt := rt_ResetMissed i (rt n)\<rparr>)"

definition handlePing :: "dht_env \<Rightarrow> string \<Rightarrow> byte \<Rightarrow> Node \<Rightarrow> result" where
  "handlePing E src ttl n = (learnContact src n, seal_send E MsgPong MaxTTL None src)"

definition add_contact_json :: "dht_env \<Rightarrow> ContactJSON \<Rightarrow> Node \<Rightarrow> Node" where
  "add_contact_json E j n = (case ContactFromJSON (e_now E) j of None \<Rightarrow> n | Some c \<Rightarrow> n\<lparr>rt := rt_Add c (rt n)\<rparr>)"

definition handleFindNode :: "dht_env \<Rightarrow> string \<Rightarrow> byte \<Rightarrow> bytes \<Rightarrow> Node \<Rightarrow> result" where
  "handleFindNode E src ttl raw n0 =
     (let n = learnContact src n0 in
      case um_find_node (e_json E) raw of None \<Rightarrow> (n, [])
      | Some req \<Rightarrow>
        (case ParseID (fn_Target req) of None \<Rightarrow> (n, [])
         | Some target \<Rightarrow>
           (let n' = add_contact_json E (fn_From req) n;
                nodes = map ContactToJSON (Closest (rt n') target K);
                resp = PNodes \<lparr>np_From = \<lparr>jID = id_String (n_id n'), jAddr = selfAddr n'\<rparr>, np_Nodes = nodes\<rparr>
            in (n', seal_send E MsgNodes MaxTTL (Some resp) src))))"

definition handleNodes :: "dht_env \<Rightarrow> string \<Rightarrow> bytes \<Rightarrow> Node \<Rightarrow> result" where
  "handleNodes E src raw n0 =
     (let n = learnContact src n0 in
      case um_nodes (e_json E) raw of None \<Rightarrow> (n, [])
      | Some resp \<Rightarrow>
        (let n1 = (if jID (np_From resp) \<noteq> [] \<and> isValidContactAddr E (jAddr (np_From resp))
                   then add_contact_json E (np_From resp) n else n)
         in (fold (\<lambda>j n. if \<not> isValidContactAddr E (jAddr j) then n else add_contact_json E j n) (np_Nodes resp) n1, [])))"

definition store_entry :: "dht_env \<Rightarrow> RelayEntry \<Rightarrow> Node \<Rightarrow> relay_error option \<times> Node" where
  "store_entry E e n = (case relay_store (e_verify E) (e_now E) e (relays n) of (err, s) \<Rightarrow> (err, n\<lparr>relays := s\<rparr>))"

text \<open>The acknowledgement ignores the error of \<open>Seal\<close>: an empty datagram is sent then.\<close>

definition handleAnnounce :: "dht_env \<Rightarrow> string \<Rightarrow> bytes \<Rightarrow> Node \<Rightarrow> result" where
  "handleAnnounce E src raw n0 =
     (let n = learnContact src n0 in
      case um_announce (e_json E) raw of None \<Rightarrow> (n, [])
      | Some req \<Rightarrow>
        (case store_entry E (ap_Entry req) n of
           (Some err, n') \<Rightarrow> (n', [])
         | (None, n') \<Rightarrow> (n', [Send (case seal E 0 MsgAck MaxTTL None of None \<Rightarrow> [] | Some ack \<Rightarrow> ack) src])))"

definition handleGetRelays :: "dht_env \<Rightarrow> string \<Rightarrow> byte \<Rightarrow> Node \<Rightarrow> result" where
  "handleGetRelays E src ttl n0 =
     (let n = learnContact src n0; entries = relay_all (e_now E) (relays n)
      in (n, seal_send E MsgRelayList MaxTTL (Some (PRelayList \<lparr>rl_Entries = entries\<rparr>)) src))"

definition handleRelayList :: "dht_env \<Rightarrow> bytes \<Rightarrow> Node \<Rightarrow> result" where
  "handleRelayList E raw n = (case um_relay_list (e_json E) raw of None \<Rightarrow> (n, [])
     | Some resp \<Rightarrow> (fold (\<lambda>e n. snd (store_entry E e n)) (rl_Entries resp) n, []))"

definition handleManifestHave :: "dht_env \<Rightarrow> string \<Rightarrow> bytes \<Rightarrow> Node \<Rightarrow> result" where
  "handleManifestHave E src raw n = (case um_manifest_have (e_json E) raw of None \<Rightarrow> (n, [])
     | Some req \<Rightarrow> if mh_TS req > manifestTS n then (n, seal_send E MsgManifestWant MaxTTL None src) else (n, []))"

definition handleManifestWant :: "dht_env \<Rightarrow> string \<Rightarrow> Node \<Rightarrow> result" where
  "handleManifestWant E src n =
     (if manifestRaw n = [] then (n, [])
      else (n, seal_send E MsgManifest MaxTTL (Some (PManifest \<lparr>mp_TS = manifestTS n, mp_Raw = manifestRaw n\<rparr>)) src))"

definition handleManifestData :: "dht_env \<Rightarrow> bytes \<Rightarrow> Node \<Rightarrow> result" where
  "handleManifestData E raw n = (case um_manifest (e_json E) raw of None \<Rightarrow> (n, [])
     | Some msg \<Rightarrow> if mp_TS msg \<le> manifestTS n then (n, [])
       else (n, if onManifest n then [CallManifest (mp_Raw msg)] else []))"

definition handleHolePunch :: "dht_env \<Rightarrow> string \<Rightarrow> bytes \<Rightarrow> Node \<Rightarrow> result" where
  "handleHolePunch E src raw n =
     (if raw = [] then (n, [])
      else case um_hole_punch (e_json E) raw of None \<Rightarrow> (n, [])
      | Some p \<Rightarrow>
        if hp_Peer p = [] then (n, [])
        else if \<not> holePunchHandler n then (n, [])
        else if hp_Control p \<noteq> [] \<and> hp_Control p = selfAddr n then (n, [])
        else (n, [GoHolePunch (hp_Peer p) (hp_Control p)]))"

definition handleMirrorPunch :: "dht_env \<Rightarrow> string \<Rightarrow> bytes \<Rightarrow> Node \<Rightarrow> result" where
  "handleMirrorPunch E src raw n =
     (if raw = [] then (n, [])
      else case um_mirror_punch (e_json E) raw of None \<Rightarrow> (n, [])
      | Some p \<Rightarrow>
        if mpp_Peer p = [] then (n, [])
        else if \<not> mirrorPunchHandler n then (n, [])
        else (n, [GoMirrorPunch (mpp_Peer p)]))"

definition handleContentHave :: "dht_env \<Rightarrow> string \<Rightarrow> bytes \<Rightarrow> Node \<Rightarrow> result" where
  "handleContentHave E src raw n = (case um_content_have (e_json E) raw of None \<Rightarrow> (n, [])
     | Some req \<Rightarrow>
       (let n' = n\<lparr>completePeers := complete_record (e_now E) src (ch_TS req) (ch_Complete req) (completePeers n)\<rparr>
        in if ch_TS req > contentTS n' then (n', seal_send E MsgContentWant MaxTTL None src) else (n', [])))"

definition handleContentWant :: "dht_env \<Rightarrow> string \<Rightarrow> Node \<Rightarrow> result" where
  "handleContentWant E src n =
     (if contentRaw n = [] then (n, [])
      else (n, seal_send E MsgContent MaxTTL (Some (PContent \<lparr>cp_TS = contentTS n, cp_Raw = contentRaw n\<rparr>)) src))"

definition handleContentData :: "dht_env \<Rightarrow> string \<Rightarrow> bytes \<Rightarrow> Node \<Rightarrow> result" where
  "handleContentData E src raw n = (case um_content (e_json E) raw of None \<Rightarrow> (n, [])
     | Some msg \<Rightarrow> if cp_TS msg \<le> contentTS n then (n, [])
       else (n, if onContent n then [CallContent (cp_Raw msg)] else []))"

definition dispatch :: "dht_env \<Rightarrow> byte \<Rightarrow> byte \<Rightarrow> bytes \<Rightarrow> string \<Rightarrow> Node \<Rightarrow> result" where
  "dispatch E msgType ttl raw src n =
     (if msgType = MsgPing then handlePing E src ttl n
      else if msgType = MsgPong then (n, [])
      else if msgType = MsgFindNode then handleFindNode E src ttl raw n
      else if msgType = MsgNodes then handleNodes E src raw n
      else if msgType = MsgAnnounce then handleAnnounce E src raw n
      else if msgType = MsgAck then (n, [])
      else if msgType = MsgGetRelays then handleGetRelays E src ttl n
      else if msgType = MsgRelayList then handleRelayList E raw n
      else if msgType = MsgManifestHave then handleManifestHave E src raw n
      else if msgType = MsgManifestWant then handleManifestWant E src n
      else if msgType = MsgManifest then handleManifestData E raw n
      else if msgType = MsgHolePunch then handleHolePunch E src raw n
      else if msgType = MsgMirrorPunch then handleMirrorPunch E src raw n
      else if msgType = MsgContentHave then handleContentHave E src raw n
      else if msgType = MsgContentWant then handleContentWant E src n
      else if msgType = MsgContent then handleContentData E src raw n
      else (n, []))"

text \<open>A panic of \<open>Open\<close> would end the process: the result is \<open>None\<close> then.\<close>

definition handlePacket :: "dht_env \<Rightarrow> bytes \<Rightarrow> string \<Rightarrow> Node \<Rightarrow> result option" where
  "handlePacket E pkt src n = (case Open (e_crypto E) pkt of
     OpenPanic \<Rightarrow> None
   | OpenErr \<Rightarrow> Some (n, [])
   | Opened msgType ttl raw \<Rightarrow> Some (dispatch E msgType ttl raw src (clearSuspectByAddr src n)))"

definition HandleInbound :: "dht_env \<Rightarrow> bytes \<Rightarrow> string \<Rightarrow> Node \<Rightarrow> result option" where
  "HandleInbound E pkt src n = handlePacket E pkt src n"

datatype udp_read = ReadError | ReadPacket bytes string

text \<open>One turn of \<open>recvLoop\<close>; the first component says whether the loop goes on. A datagram longer
  than the buffer is cut.\<close>

definition recv_turn :: "dht_env \<Rightarrow> udp_read \<Rightarrow> Node \<Rightarrow> bool \<times> result option" where
  "recv_turn E r n = (case r of
     ReadError \<Rightarrow> (\<not> done_closed n, Some (n, []))
   | ReadPacket pkt src \<Rightarrow> (True, handlePacket E (take maxUDPSize pkt) src n))"

section \<open>Active operations\<close>

definition SendHolePunch :: "dht_env \<Rightarrow> string \<Rightarrow> string \<Rightarrow> string \<Rightarrow> effect list" where
  "SendHolePunch E relayAddr own controlURL = (case e_resolve E relayAddr of None \<Rightarrow> []
     | Some raddr \<Rightarrow> seal_send E MsgHolePunch MaxTTL (Some (PHolePunch \<lparr>hp_Peer = own, hp_Control = controlURL\<rparr>)) raddr)"

definition SendMirrorPunch :: "dht_env \<Rightarrow> string \<Rightarrow> string \<Rightarrow> effect list" where
  "SendMirrorPunch E peerAddr own = (case e_resolve E peerAddr of None \<Rightarrow> []
     | Some raddr \<Rightarrow> seal_send E MsgMirrorPunch MaxTTL (Some (PMirrorPunch \<lparr>mpp_Peer = own\<rparr>)) raddr)"

definition pingAddr :: "dht_env \<Rightarrow> nat \<Rightarrow> string \<Rightarrow> Node \<Rightarrow> result" where
  "pingAddr E k addr n = (case e_resolve E addr of None \<Rightarrow> (n, [])
     | Some raddr \<Rightarrow>
       (case seal E k MsgPing 0 None of None \<Rightarrow> (n, [])
        | Some pkt \<Rightarrow>
          (case find (\<lambda>c. cAddr c = addr) (Closest (rt n) (n_id n) (K * IDBits)) of
             None \<Rightarrow> (n, [Send pkt raddr])
           | Some c \<Rightarrow> (n\<lparr>pendingPings := gm_put addr (cID c) (pendingPings n)\<rparr>,
               [Send pkt raddr, StartPingTimer addr (cID c)]))))"

text \<open>The goroutine of \<open>pingAddr\<close> after \<open>pingTimeout\<close>; when the node is stopped it does nothing.\<close>

definition ping_timeout :: "string \<Rightarrow> ID \<Rightarrow> Node \<Rightarrow> Node" where
  "ping_timeout addr i n =
     (if done_closed n then n
      else case gm_get (pendingPings n) addr of None \<Rightarrow> n
      | Some _ \<Rightarrow> n\<lparr>pendingPings := gm_del addr (pendingPings n), rt := rt_MarkMissed i (rt n)\<rparr>)"

definition findNode :: "dht_env \<Rightarrow> ID \<Rightarrow> Node \<Rightarrow> effect list" where
  "findNode E target n = send_each E 0 MsgFindNode 0
     (Some (PFindNode \<lparr>fn_From = \<lparr>jID = id_String (n_id n), jAddr = selfAddr n\<rparr>, fn_Target = id_String target\<rparr>))
     (Closest (rt n) target bootstrapAlpha)"

definition findNodeDirect :: "dht_env \<Rightarrow> string \<Rightarrow> ID \<Rightarrow> Node \<Rightarrow> effect list" where
  "findNodeDirect E addr target n = (case e_resolve E addr of None \<Rightarrow> []
     | Some raddr \<Rightarrow> seal_send E MsgFindNode 0
         (Some (PFindNode \<lparr>fn_From = \<lparr>jID = id_String (n_id n), jAddr = selfAddr n\<rparr>, fn_Target = id_String target\<rparr>)) raddr)"

definition announce :: "dht_env \<Rightarrow> Node \<Rightarrow> result" where
  "announce E n0 =
     (let n = (case entryRefresher n0 of None \<Rightarrow> n0
               | Some f \<Rightarrow> (case f (e_now E) of None \<Rightarrow> n0 | Some fresh \<Rightarrow> n0\<lparr>ownEntry := fresh\<rparr>))
      in case ownEntry n of None \<Rightarrow> (n, [])
      | Some entry \<Rightarrow>
        (case ParseID (NodeID entry) of None \<Rightarrow> (n, [])
         | Some i \<Rightarrow> (n, send_each E 0 MsgAnnounce 0 (Some (PAnnounce \<lparr>ap_Entry = entry\<rparr>)) (Closest (rt n) i K))))"

definition Announce :: "dht_env \<Rightarrow> Node \<Rightarrow> result" where "Announce E n = announce E n"

definition getRelays :: "dht_env \<Rightarrow> Node \<Rightarrow> effect list" where
  "getRelays E n = send_each E 0 MsgGetRelays 0 None (Closest (rt n) (n_id n) K)"

definition gossipManifestHave :: "dht_env \<Rightarrow> Node \<Rightarrow> effect list" where
  "gossipManifestHave E n =
     (if manifestTS n = 0 then []
      else let peers = Closest (rt n) (n_id n) K in
      if peers = [] then []
      else case seal E 0 MsgManifestHave MaxTTL (Some (PManifestHave \<lparr>mh_TS = manifestTS n\<rparr>)) of None \<Rightarrow> []
      | Some pkt \<Rightarrow> send_all E pkt peers)"

definition gossipContentHave :: "dht_env \<Rightarrow> Node \<Rightarrow> effect list" where
  "gossipContentHave E n =
     (if contentTS n = 0 then []
      else let peers = Closest (rt n) (n_id n) K in
      if peers = [] then []
      else case seal E 0 MsgContentHave MaxTTL
          (Some (PContentHave \<lparr>ch_TS = contentTS n, ch_Complete = contentComplete n\<rparr>)) of None \<Rightarrow> []
      | Some pkt \<Rightarrow> send_all E pkt peers)"

definition GossipContentHave :: "dht_env \<Rightarrow> Node \<Rightarrow> effect list" where
  "GossipContentHave E n = gossipContentHave E n"

fun ping_each :: "dht_env \<Rightarrow> nat \<Rightarrow> Contact list \<Rightarrow> Node \<Rightarrow> result" where
  "ping_each E k [] n = (n, [])"
| "ping_each E k (c # cs) n =
     (case pingAddr E k (cAddr c) n of (n', es) \<Rightarrow> (case ping_each E (Suc k) cs n' of (n'', es') \<Rightarrow> (n'', es @ es')))"

definition reprobeSuspects :: "dht_env \<Rightarrow> Node \<Rightarrow> result" where
  "reprobeSuspects E n = ping_each E 0 (SuspectContacts (rt n)) n"

definition pingStale :: "dht_env \<Rightarrow> Node \<Rightarrow> result" where
  "pingStale E n = (case rt_All (rt n) of [] \<Rightarrow> (n, [])
     | c # cs \<Rightarrow>
       (let oldest = foldl (\<lambda>old c. if LastSeen c < LastSeen old then c else old) c cs
        in pingAddr E 0 (cAddr oldest) n))"

section \<open>Persistence\<close>

datatype file_read = NoFile | ReadFailed | FileData bytes

definition savePeers :: "dht_env \<Rightarrow> Node \<Rightarrow> effect list" where
  "savePeers E n =
     (if peersPath n = [] then []
      else case e_marshal_peers E (map ContactToJSON (rt_All (rt n))) of None \<Rightarrow> []
      | Some plain \<Rightarrow> (case encryptFn n plain of None \<Rightarrow> [] | Some enc \<Rightarrow> [WriteFile (peersPath n) enc]))"

text \<open>A file that does not decrypt is tried as plain text.\<close>

definition loadPeers :: "dht_env \<Rightarrow> file_read \<Rightarrow> Node \<Rightarrow> Node" where
  "loadPeers E file n =
     (if peersPath n = [] then n
      else case file of NoFile \<Rightarrow> n | ReadFailed \<Rightarrow> n
      | FileData enc \<Rightarrow>
        (let plain = (case decryptFn n enc of None \<Rightarrow> enc | Some p \<Rightarrow> p) in
         case e_unmarshal_peers E plain of None \<Rightarrow> n
         | Some contacts \<Rightarrow> fold (add_contact_json E) contacts n))"

datatype io_error = FileError | JsonError

definition SaveRelays :: "dht_env \<Rightarrow> string \<Rightarrow> Node \<Rightarrow> io_error option \<times> effect list" where
  "SaveRelays E path n =
     (let entries = relay_all (e_now E) (relays n) in
      if entries = [] then (None, [])
      else case e_marshal_relays E entries of None \<Rightarrow> (Some JsonError, [])
      | Some data \<Rightarrow> (None, [WriteFile path data]))"

definition LoadRelays :: "dht_env \<Rightarrow> file_read \<Rightarrow> Node \<Rightarrow> io_error option \<times> Node" where
  "LoadRelays E file n = (case file of NoFile \<Rightarrow> (None, n) | ReadFailed \<Rightarrow> (Some FileError, n)
     | FileData data \<Rightarrow>
       (case e_unmarshal_relays E data of None \<Rightarrow> (Some JsonError, n)
        | Some entries \<Rightarrow> (None, fold (\<lambda>e n. snd (store_entry E e n)) entries n)))"

definition Bootstrap :: "(nat \<Rightarrow> dht_env) \<Rightarrow> file_read \<Rightarrow> string list \<Rightarrow> Node \<Rightarrow> result" where
  "Bootstrap E file seeds n0 =
     (let n = loadPeers (E 0) file n0
      in (n, concat (map (\<lambda>(k, addr). findNodeDirect (E (Suc k)) addr (n_id n) n) (enumerate 0 seeds)) @
             findNode (E (Suc (length seeds))) (n_id n) n))"

section \<open>Maintenance\<close>

text \<open>The cases of the \<open>select\<close> in \<open>maintainLoop\<close>, and the delayed first announce. Each operation
  of a tick runs in its own environment.\<close>

datatype tick = FirstAnnounce | AnnounceTick | PersistTick | PingTick | SuspectTick | DoneTick

definition maintain :: "(nat \<Rightarrow> dht_env) \<Rightarrow> tick \<Rightarrow> Node \<Rightarrow> result" where
  "maintain E t n = (case t of
     FirstAnnounce \<Rightarrow> (case announce (E 0) n of (n', es) \<Rightarrow> (n', es @ getRelays (E 1) n'))
   | AnnounceTick \<Rightarrow> (case announce (E 0) n of (n', es) \<Rightarrow>
       (n', es @ getRelays (E 1) n' @ gossipManifestHave (E 2) n' @ gossipContentHave (E 3) n'))
   | PersistTick \<Rightarrow> (n, savePeers (E 0) n)
   | PingTick \<Rightarrow> pingStale (E 0) n
   | SuspectTick \<Rightarrow> reprobeSuspects (E 0) n
   | DoneTick \<Rightarrow> (n, savePeers (E 0) n))"

section \<open>Runs of a node\<close>

text \<open>Every way the state of a node changes: a received datagram, a tick, an expired ping timer,
  a start-up load, a call of the application. The signature check is the same throughout a run.\<close>

inductive dht_step :: "sig_verify \<Rightarrow> Node \<Rightarrow> effect list \<Rightarrow> Node \<Rightarrow> bool" for V where
  packet: "e_verify E = V \<Longrightarrow> handlePacket E pkt src n = Some (n', es) \<Longrightarrow> dht_step V n es n'"
| tick: "maintain Es t n = (n', es) \<Longrightarrow> dht_step V n es n'"
| timer: "is_ID i \<Longrightarrow> dht_step V n [] (ping_timeout addr i n)"
| bootstrap: "Bootstrap Es file seeds n = (n', es) \<Longrightarrow> dht_step V n es n'"
| load_relays: "e_verify E = V \<Longrightarrow> dht_step V n [] (snd (LoadRelays E file n))"
| announce: "announce E n = (n', es) \<Longrightarrow> dht_step V n es n'"
| own_entry: "SetOwnEntry e n = (n', es) \<Longrightarrow> dht_step V n es n'"
| refresher: "dht_step V n [] (SetEntryRefresher f n)"
| manifest: "dht_step V n [] (SetManifest raw ts n)"
| content: "dht_step V n [] (SetContent raw ts n)"
| complete: "dht_step V n [] (SetContentComplete ts b n)"
| handlers: "dht_step V n [] (SetHolePunchHandler a (SetManifestHandler b (SetMirrorPunchHandler c (SetContentHandler d n))))"
| own_addr: "dht_step V n [] (SetOwnAddr a n)"
| stop: "Stop n = Some n' \<Longrightarrow> dht_step V n [] n'"

inductive dht_reach :: "sig_verify \<Rightarrow> Node \<Rightarrow> Node \<Rightarrow> bool" for V n0 where
  init: "dht_reach V n0 n0"
| step: "dht_reach V n0 n \<Longrightarrow> dht_step V n es n' \<Longrightarrow> dht_reach V n0 n'"

end
