(* ===== verification/Dht_Invariant.thy ===== *)
theory Dht_Invariant
  imports Dht_Node
begin

text \<open>
  Invariants and safety of the overlay node: the state invariant \<open>node_wf\<close> holds in every
  reachable state, versions never go back, a datagram is answered by at most one datagram and
  only to its sender, and malformed datagrams change nothing.
\<close>

named_theorems handler_defs \<open>the message handlers\<close>

declare handlePing_def [handler_defs] handleFindNode_def [handler_defs] handleNodes_def [handler_defs]
  handleAnnounce_def [handler_defs] handleGetRelays_def [handler_defs] handleRelayList_def [handler_defs]
  handleManifestHave_def [handler_defs] handleManifestWant_def [handler_defs] handleManifestData_def [handler_defs]
  handleHolePunch_def [handler_defs] handleMirrorPunch_def [handler_defs] handleContentHave_def [handler_defs]
  handleContentWant_def [handler_defs] handleContentData_def [handler_defs] learnContact_def [handler_defs]

section \<open>The state invariant\<close>

definition relays_ok :: "sig_verify \<Rightarrow> relayStore \<Rightarrow> bool" where
  "relays_ok V s \<longleftrightarrow> gm_wf s \<and> gm.all_values (\<lambda>k e. NodeID e = k \<and> VerifyRelayEntry V e = None) s"

definition node_wf :: "sig_verify \<Rightarrow> Node \<Rightarrow> bool" where
  "node_wf V n \<longleftrightarrow> rt_wf (rt n) \<and> rt_self (rt n) = n_id n \<and> relays_ok V (relays n) \<and>
     gm_wf (pendingPings n) \<and> gm.all_values (\<lambda>a i. is_ID i) (pendingPings n) \<and> gm_wf (completePeers n)"

text \<open>The parts of the state the invariant does not read.\<close>

lemma node_wf_frame [simp]:
  "node_wf V (n\<lparr>ownEntry := e\<rparr>) = node_wf V n"
  "node_wf V (n\<lparr>entryRefresher := f\<rparr>) = node_wf V n"
  "node_wf V (n\<lparr>ownAddr := a\<rparr>) = node_wf V n"
  "node_wf V (n\<lparr>manifestRaw := r, manifestTS := t\<rparr>) = node_wf V n"
  "node_wf V (n\<lparr>contentRaw := r, contentTS := t, contentComplete := b\<rparr>) = node_wf V n"
  "node_wf V (n\<lparr>contentRaw := r, contentTS := t\<rparr>) = node_wf V n"
  "node_wf V (n\<lparr>contentComplete := b\<rparr>) = node_wf V n"
  "node_wf V (n\<lparr>onManifest := b\<rparr>) = node_wf V n"
  "node_wf V (n\<lparr>onContent := b\<rparr>) = node_wf V n"
  "node_wf V (n\<lparr>holePunchHandler := b\<rparr>) = node_wf V n"
  "node_wf V (n\<lparr>mirrorPunchHandler := b\<rparr>) = node_wf V n"
  "node_wf V (n\<lparr>done_closed := b\<rparr>) = node_wf V n"
  by (simp_all add: node_wf_def)

lemma ParseID_is_ID: "ParseID s = Some i \<Longrightarrow> is_ID i"
  by (auto simp: ParseID_def is_ID_def split: option.splits if_splits)

lemma ContactFromJSON_is_ID: "ContactFromJSON now j = Some c \<Longrightarrow> is_ID (cID c)"
  by (auto simp: ContactFromJSON_def dest: ParseID_is_ID)

lemma add_contact_json_wf: "node_wf V n \<Longrightarrow> node_wf V (add_contact_json E j n)"
  by (auto simp: add_contact_json_def node_wf_def rt_Add_wf dest: ContactFromJSON_is_ID split: option.splits)

lemma relay_store_ok: "relays_ok V s \<Longrightarrow> relays_ok V (snd (relay_store V t e s))"
  by (auto simp: relays_ok_def relay_store_def Let_def gm.all_values_put split: option.splits)

lemma store_entry_wf: "node_wf V n \<Longrightarrow> e_verify E = V \<Longrightarrow> node_wf V (snd (store_entry E e n))"
  using relay_store_ok [of V "relays n" "e_now E" e]
  by (auto simp: store_entry_def node_wf_def case_prod_unfold)

lemma store_entries_wf:
  "node_wf V n \<Longrightarrow> e_verify E = V \<Longrightarrow> node_wf V (fold (\<lambda>e n. snd (store_entry E e n)) es n)"
  by (induction es arbitrary: n) (simp_all add: store_entry_wf)

lemma clearSuspect_wf: "node_wf V n \<Longrightarrow> node_wf V (clearSuspectByAddr src n)"
  by (auto simp: clearSuspectByAddr_def node_wf_def gm.all_values_del rt_ResetMissed_wf gm.all_values_def
      split: option.splits)

lemma ping_timeout_wf: "node_wf V n \<Longrightarrow> is_ID i \<Longrightarrow> node_wf V (ping_timeout addr i n)"
  by (auto simp: ping_timeout_def node_wf_def gm.all_values_del rt_MarkMissed_wf split: option.splits)

lemma handleFindNode_wf: "node_wf V n \<Longrightarrow> node_wf V (fst (handleFindNode E src ttl raw n))"
  by (auto simp: handleFindNode_def learnContact_def Let_def add_contact_json_wf split: option.splits)

lemma handleNodes_wf: "node_wf V n \<Longrightarrow> node_wf V (fst (handleNodes E src raw n))"
  by (auto simp: handleNodes_def learnContact_def Let_def add_contact_json_wf intro!: fold_keeps [where P = "node_wf V"]
      split: option.splits)

lemma handleAnnounce_wf: "node_wf V n \<Longrightarrow> e_verify E = V \<Longrightarrow> node_wf V (fst (handleAnnounce E src raw n))"
  using store_entry_wf [of V n E] by (auto simp: handleAnnounce_def learnContact_def Let_def split: option.splits prod.splits)
    (metis snd_conv)+

lemma handleRelayList_wf: "node_wf V n \<Longrightarrow> e_verify E = V \<Longrightarrow> node_wf V (fst (handleRelayList E raw n))"
  by (auto simp: handleRelayList_def store_entries_wf split: option.splits)

lemma handleContentHave_wf: "node_wf V n \<Longrightarrow> node_wf V (fst (handleContentHave E src raw n))"
  by (auto simp: handleContentHave_def Let_def node_wf_def complete_record_def split: option.splits)

lemma handlers_same:
  "fst (handlePing E src ttl n) = n" "fst (handleGetRelays E src ttl n) = n"
  "fst (handleManifestHave E src raw n) = n" "fst (handleManifestWant E src n) = n" "fst (handleManifestData E raw n) = n"
  "fst (handleHolePunch E src raw n) = n" "fst (handleMirrorPunch E src raw n) = n"
  "fst (handleContentWant E src n) = n" "fst (handleContentData E src raw n) = n"
  by (simp_all add: handler_defs Let_def split: option.splits)

lemma dispatch_wf:
  assumes "node_wf V n" "e_verify E = V"
  shows "node_wf V (fst (dispatch E mt ttl raw src n))"
proof -
  note wf = handleFindNode_wf handleNodes_wf handleAnnounce_wf handleRelayList_wf handleContentHave_wf
  show ?thesis unfolding dispatch_def using assms by (simp add: handlers_same wf)
qed

lemma handlePacket_wf:
  "node_wf V n \<Longrightarrow> e_verify E = V \<Longrightarrow> handlePacket E pkt src n = Some (n', es) \<Longrightarrow> node_wf V n'"
  using dispatch_wf [of V "clearSuspectByAddr src n" E]
  by (auto simp: handlePacket_def clearSuspect_wf split: opened.splits) (metis fst_conv)

lemma Closest_is_ID: "rt_wf t \<Longrightarrow> c \<in> set (Closest t target n) \<Longrightarrow> is_ID (cID c)"
  using set_take_subset [of n "sort_Slice (\<lambda>x y. dist64 target x < dist64 target y) (filter (\<lambda>c. \<not> Suspect c) (rt_All t))"]
    rt_wf_member [of t c] by (auto simp: Closest_take)

lemma pingAddr_wf: "node_wf V n \<Longrightarrow> node_wf V (fst (pingAddr E k addr n))"
proof -
  assume wf: "node_wf V n"
  then have "is_ID (cID c)" if "find (\<lambda>c. cAddr c = addr) (Closest (rt n) (n_id n) (K * IDBits)) = Some c" for c
    using that wf Closest_is_ID [of "rt n"] by (metis find_Some_iff node_wf_def nth_mem)
  with wf show ?thesis
    by (auto simp: pingAddr_def node_wf_def gm.all_values_put split: option.splits)
qed

lemma ping_each_wf: "node_wf V n \<Longrightarrow> node_wf V (fst (ping_each E k cs n))"
proof (induction cs arbitrary: k n)
  case (Cons c cs)
  then show ?case using pingAddr_wf [of V n E k "cAddr c"] by (simp add: case_prod_unfold)
qed simp

lemma announce_wf: "node_wf V n \<Longrightarrow> node_wf V (fst (announce E n))"
  by (auto simp: announce_def Let_def split: option.splits)

lemma loadPeers_wf: "node_wf V n \<Longrightarrow> node_wf V (loadPeers E file n)"
  by (auto simp: loadPeers_def Let_def add_contact_json_wf intro!: fold_keeps [where P = "node_wf V"]
      split: file_read.splits option.splits)

lemma LoadRelays_wf: "node_wf V n \<Longrightarrow> e_verify E = V \<Longrightarrow> node_wf V (snd (LoadRelays E file n))"
  by (auto simp: LoadRelays_def store_entries_wf split: file_read.splits option.splits)

lemma maintain_wf: "node_wf V n \<Longrightarrow> node_wf V (fst (maintain Es t n))"
  using announce_wf [of V n "Es 0"]
  by (auto simp: maintain_def case_prod_unfold pingStale_def reprobeSuspects_def ping_each_wf pingAddr_wf Let_def
      split: tick.splits list.splits)

lemma dht_step_wf: "dht_step V n es n' \<Longrightarrow> node_wf V n \<Longrightarrow> node_wf V n'"
proof (induction rule: dht_step.induct)
  case (tick Es t n n' es)
  then show ?case using maintain_wf [of V n Es t] by simp
next
  case (announce E n n' es)
  then show ?case using announce_wf [of V n E] by simp
next
  case (bootstrap Es data seeds n n' es)
  then show ?case using loadPeers_wf [of V n "Es 0" data] by (auto simp: Bootstrap_def Let_def)
qed (auto simp: handlePacket_wf ping_timeout_wf LoadRelays_wf SetOwnEntry_def SetEntryRefresher_def SetManifest_def
  SetContent_def SetContentComplete_def SetHolePunchHandler_def SetManifestHandler_def SetMirrorPunchHandler_def
  SetContentHandler_def SetOwnAddr_def Stop_def split: if_splits)

lemma NewNode_wf: "is_ID i \<Longrightarrow> node_wf V (NewNode i local path enc dec)"
  by (simp add: node_wf_def NewNode_def NewRoutingTable_wf relays_ok_def newRelayStore_def newCompleteStore_def
      gm.all_values_empty) (simp add: NewRoutingTable_def)

text \<open>
  Property C4: in every state a node can reach from its creation, by any interleaving of received
  datagrams, maintenance ticks, ping timeouts, start-up loads and application calls, the routing
  table satisfies its invariant for the node's own identifier, every stored relay entry is filed
  under its own node and carries a valid signature, and every pending ping names an identifier.
\<close>

theorem node_invariant:
  assumes "is_ID i" "dht_reach V (NewNode i local path enc dec) n"
  shows "node_wf V n"
  using assms(2) by induction (use assms(1) in \<open>auto intro: NewNode_wf dht_step_wf\<close>)

definition sample_node :: Node where
  "sample_node = NewNode (replicate 32 0) ''10.0.0.9:4000'' [] None None"

theorem node_invariant_witness:
  "node_wf (\<lambda>pub m sig. False) (SetContent [1] 5 sample_node)"
proof -
  have "dht_reach (\<lambda>pub m sig. False) sample_node (SetContent [1] 5 sample_node)"
    by (rule dht_reach.step [OF dht_reach.init dht_step.content])
  then show ?thesis
    unfolding sample_node_def by (intro node_invariant) (simp_all add: is_ID_32)
qed

section \<open>Versions\<close>

definition versions :: "Node \<Rightarrow> bytes \<times> int \<times> bytes \<times> int \<times> bool" where
  "versions n = (manifestRaw n, manifestTS n, contentRaw n, contentTS n, contentComplete n)"

lemma versions_frame [simp]:
  "versions (n\<lparr>rt := t\<rparr>) = versions n" "versions (n\<lparr>relays := s\<rparr>) = versions n"
  "versions (n\<lparr>pendingPings := p, rt := t\<rparr>) = versions n" "versions (n\<lparr>pendingPings := p\<rparr>) = versions n"
  "versions (n\<lparr>completePeers := c\<rparr>) = versions n" "versions (n\<lparr>ownEntry := e\<rparr>) = versions n"
  by (simp_all add: versions_def)

lemma versions_add [simp]: "versions (add_contact_json E j n) = versions n"
  by (simp add: add_contact_json_def split: option.splits)

lemma versions_store [simp]: "versions (snd (store_entry E e n)) = versions n"
  by (simp add: store_entry_def case_prod_unfold)

lemma versions_fold_add [simp]: "versions (fold (add_contact_json E) js n) = versions n"
  by (induction js arbitrary: n) simp_all

lemma versions_fold_store [simp]: "versions (fold (\<lambda>e n. snd (store_entry E e n)) es n) = versions n"
  by (induction es arbitrary: n) simp_all

lemma versions_fold_valid [simp]:
  "versions (fold (\<lambda>j n. if \<not> isValidContactAddr E (jAddr j) then n else add_contact_json E j n) js n) = versions n"
  by (induction js arbitrary: n) simp_all

lemma versions_handlers:
  "versions (fst (handleFindNode E src ttl raw n)) = versions n"
  "versions (fst (handleNodes E src raw n)) = versions n"
  "versions (fst (handleAnnounce E src raw n)) = versions n"
  "versions (fst (handleRelayList E raw n)) = versions n"
  "versions (fst (handleContentHave E src raw n)) = versions n"
proof -
  show "versions (fst (handleFindNode E src ttl raw n)) = versions n"
    by (simp add: handleFindNode_def learnContact_def Let_def split: option.splits)
  show "versions (fst (handleNodes E src raw n)) = versions n"
    by (simp add: handleNodes_def learnContact_def Let_def split: option.splits)
  show "versions (fst (handleAnnounce E src raw n)) = versions n"
    by (auto simp: handleAnnounce_def learnContact_def Let_def split: option.splits prod.splits)
      (metis snd_conv versions_store)+
  show "versions (fst (handleRelayList E raw n)) = versions n"
    by (simp add: handleRelayList_def split: option.splits)
  show "versions (fst (handleContentHave E src raw n)) = versions n"
    by (simp add: handleContentHave_def Let_def split: option.splits)
qed

lemma versions_dispatch: "versions (fst (dispatch E mt ttl raw src n)) = versions n"
  by (simp add: dispatch_def handlers_same versions_handlers)

lemma versions_packet: "handlePacket E pkt src n = Some (n', es) \<Longrightarrow> versions n' = versions n"
proof -
  have "versions (clearSuspectByAddr src n) = versions n"
    by (simp add: clearSuspectByAddr_def split: option.splits)
  then show "handlePacket E pkt src n = Some (n', es) \<Longrightarrow> ?thesis"
    using versions_dispatch [of E _ _ _ src "clearSuspectByAddr src n"]
    by (auto simp: handlePacket_def split: opened.splits) (metis fst_conv)
qed

lemma versions_ping: "versions (fst (pingAddr E k addr n)) = versions n"
  by (simp add: pingAddr_def split: option.splits)

lemma versions_ping_each: "versions (fst (ping_each E k cs n)) = versions n"
  by (induction cs arbitrary: k n) (simp_all add: case_prod_unfold versions_ping)

lemma versions_announce: "versions (fst (announce E n)) = versions n"
  by (auto simp: announce_def Let_def split: option.splits)

lemma versions_maintain: "versions (fst (maintain Es t n)) = versions n"
  by (simp add: maintain_def case_prod_unfold pingStale_def reprobeSuspects_def Let_def versions_ping versions_ping_each
      versions_announce split: tick.splits list.splits)

definition version_step :: "Node \<Rightarrow> Node \<Rightarrow> bool" where
  "version_step n n' \<longleftrightarrow> manifestTS n \<le> manifestTS n' \<and> contentTS n \<le> contentTS n' \<and>
     (contentTS n < contentTS n' \<longrightarrow> \<not> contentComplete n') \<and>
     (manifestTS n = manifestTS n' \<longrightarrow> manifestRaw n = manifestRaw n') \<and>
     (contentTS n = contentTS n' \<longrightarrow> contentRaw n = contentRaw n')"

lemma version_step_same: "versions n' = versions n \<Longrightarrow> version_step n n'"
  by (simp add: versions_def version_step_def)

lemma dht_step_versions: "dht_step V n es n' \<Longrightarrow> version_step n n'"
proof (induction rule: dht_step.induct)
  case (tick Es t n n' es)
  then show ?case using versions_maintain [of Es t n] by (simp add: version_step_same)
next
  case (announce E n n' es)
  then show ?case using versions_announce [of E n] by (simp add: version_step_same)
next
  case (packet E pkt src n n' es)
  then show ?case by (auto intro: version_step_same versions_packet)
next
  case (bootstrap Es data seeds n n' es)
  then show ?case
    by (auto simp: Bootstrap_def Let_def loadPeers_def intro!: version_step_same split: file_read.splits option.splits)
next
  case (load_relays E n data)
  then show ?case by (auto simp: LoadRelays_def intro!: version_step_same split: file_read.splits option.splits)
next
  case (timer i n addr)
  then show ?case by (auto simp: ping_timeout_def intro!: version_step_same split: option.splits)
qed (auto simp: version_step_def SetOwnEntry_def SetEntryRefresher_def SetManifest_def
  SetContent_def SetContentComplete_def SetHolePunchHandler_def SetManifestHandler_def SetMirrorPunchHandler_def
  SetContentHandler_def SetOwnAddr_def Stop_def split: if_splits)

lemma dht_reach_versions:
  "dht_reach V n0 n \<Longrightarrow> manifestTS n0 \<le> manifestTS n \<and> contentTS n0 \<le> contentTS n"
proof (induction rule: dht_reach.induct)
  case (step n es n')
  with dht_step_versions [OF step.hyps(2)] show ?case by (auto simp: version_step_def)
qed simp

text \<open>
  Versions only move forward. Along every run the timestamps of the control manifest
  and of the content manifest never decrease, the stored manifest changes only together with a
  newer timestamp, and whenever the content version advances the node no longer counts as a
  complete mirror: completeness of an old version is never claimed for a new one.
\<close>

theorem versions_monotone:
  assumes "dht_reach V n0 n" "dht_step V n es n'"
  shows "manifestTS n0 \<le> manifestTS n' \<and> contentTS n0 \<le> contentTS n' \<and>
    (contentTS n < contentTS n' \<longrightarrow> \<not> contentComplete n') \<and>
    (manifestRaw n \<noteq> manifestRaw n' \<longrightarrow> manifestTS n < manifestTS n') \<and>
    (contentRaw n \<noteq> contentRaw n' \<longrightarrow> contentTS n < contentTS n')"
  using dht_reach_versions [OF assms(1)] dht_step_versions [OF assms(2)] by (auto simp: version_step_def)

theorem versions_monotone_witness:
  "\<not> contentComplete (SetContent [2] 6 (SetContentComplete 5 True (SetContent [1] 5 sample_node)))"
proof -
  let ?n = "SetContentComplete 5 True (SetContent [1] 5 sample_node)"
  have "dht_reach (\<lambda>pub m sig. False) sample_node ?n"
    by (rule dht_reach.step [OF dht_reach.step [OF dht_reach.init dht_step.content] dht_step.complete])
  moreover have "contentTS ?n < contentTS (SetContent [2] 6 ?n)"
    by (simp add: SetContent_def SetContentComplete_def sample_node_def NewNode_def)
  ultimately show ?thesis
    using versions_monotone [OF _ dht_step.content [where raw = "[2]" and ts = 6 and n = ?n]] by blast
qed

section \<open>Replies\<close>

definition reply_ok :: "string \<Rightarrow> effect list \<Rightarrow> bool" where
  "reply_ok src es \<longleftrightarrow> length es \<le> 1 \<and> (\<forall>p dst. Send p dst \<in> set es \<longrightarrow> dst = src)"

lemma reply_ok_simps [simp]:
  "reply_ok src []" "reply_ok src [Send p src]" "reply_ok src (seal_send E mt ttl pl src)"
  "reply_ok src [CallManifest r]" "reply_ok src [CallContent r]" "reply_ok src [GoHolePunch a b]" "reply_ok src [GoMirrorPunch a]"
  by (simp_all add: reply_ok_def seal_send_def split: option.splits)

lemma reply_handlers:
  "reply_ok src (snd (handlePing E src ttl n))" "reply_ok src (snd (handleFindNode E src ttl raw n))"
  "reply_ok src (snd (handleNodes E src raw n))" "reply_ok src (snd (handleAnnounce E src raw n))"
  "reply_ok src (snd (handleGetRelays E src ttl n))" "reply_ok src (snd (handleRelayList E raw n))"
  "reply_ok src (snd (handleManifestHave E src raw n))" "reply_ok src (snd (handleManifestWant E src n))"
  "reply_ok src (snd (handleManifestData E raw n))" "reply_ok src (snd (handleHolePunch E src raw n))"
  "reply_ok src (snd (handleMirrorPunch E src raw n))" "reply_ok src (snd (handleContentHave E src raw n))"
  "reply_ok src (snd (handleContentWant E src n))" "reply_ok src (snd (handleContentData E src raw n))"
  by (simp_all add: handler_defs Let_def split: option.splits prod.splits)

lemma reply_dispatch: "reply_ok src (snd (dispatch E mt ttl raw src n))"
  by (simp add: dispatch_def reply_handlers)

text \<open>
  Property C5: a datagram cannot be used to attack a third party or to stop the node. Whatever
  bytes arrive, the handler terminates normally; a datagram that does not authenticate changes
  nothing; any other causes at most one effect, and a datagram it sends goes to the sender.
\<close>

theorem packet_answers_sender:
  assumes "crypto_ok (e_crypto E)"
  shows "\<exists>n' es. handlePacket E pkt src n = Some (n', es) \<and>
    (Open (e_crypto E) pkt = OpenErr \<longrightarrow> n' = n \<and> es = []) \<and>
    length es \<le> 1 \<and> (\<forall>p dst. Send p dst \<in> set es \<longrightarrow> dst = src)"
proof (cases "Open (e_crypto E) pkt")
  case OpenPanic
  moreover have "Open (e_crypto E) pkt \<noteq> OpenPanic"
    using crypto_okD(3) [OF assms, of "dht_key (e_crypto E)" "take NonceSize pkt" "drop NonceSize pkt"]
    by (auto simp: Open_def Let_def NonceSize_def aead_overhead_def split: option.splits)
  ultimately show ?thesis by simp
next
  case OpenErr
  then show ?thesis by (simp add: handlePacket_def)
next
  case (Opened mt ttl raw)
  then show ?thesis
    using reply_dispatch [of src E mt ttl raw "clearSuspectByAddr src n"]
    by (cases "dispatch E mt ttl raw src (clearSuspectByAddr src n)") (auto simp: handlePacket_def reply_ok_def)
qed

definition sample_env :: dht_env where
  "sample_env = \<lparr>e_now = 1000 * second, e_rand = (\<lambda>k. sample_rand), e_crypto = plain_crypto, e_json = byte_json,
     e_verify = (\<lambda>pub m sig. False), e_resolve = Some, e_parseIP = (\<lambda>s. None),
     e_marshal_peers = (\<lambda>js. Some (str_bytes (concat (map (\<lambda>j. jID j @ jAddr j) js)))), e_unmarshal_peers = (\<lambda>b. None),
     e_marshal_relays = (\<lambda>es. None), e_unmarshal_relays = (\<lambda>b. None)\<rparr>"

theorem packet_answers_sender_witness:
  "\<exists>n' es. handlePacket sample_env (replicate 5 1) ''10.0.0.2:1'' sample_node = Some (n', es) \<and> length es \<le> 1"
  using packet_answers_sender [of sample_env "replicate 5 1" "''10.0.0.2:1''" sample_node]
  by (auto simp: sample_env_def)

section \<open>Pings\<close>

lemma pingAddr_timer:
  assumes "StartPingTimer addr i \<in> set (snd (pingAddr E k addr n))"
  shows "gm_get (pendingPings (fst (pingAddr E k addr n))) addr = Some i \<and> rt (fst (pingAddr E k addr n)) = rt n \<and>
    done_closed (fst (pingAddr E k addr n)) = done_closed n \<and>
    (\<exists>c \<in> set (Closest (rt n) (n_id n) (K * IDBits)). cAddr c = addr \<and> cID c = i)"
  using assms by (auto simp: pingAddr_def dest: find_SomeD split: option.splits)

lemma Closest_lookup:
  "rt_wf t \<Longrightarrow> c \<in> set (Closest t target m) \<Longrightarrow> is_ID (cID c) \<and> rt_lookup t (cID c) = Some c \<and> \<not> Suspect c"
  using set_take_subset [of m "sort_Slice (\<lambda>x y. dist64 target x < dist64 target y) (filter (\<lambda>c. \<not> Suspect c) (rt_All t))"]
    rt_All_lookup [of t c] by (auto simp: Closest_take)

text \<open>
  A ping is settled exactly once. If the contact answers before the timeout its
  record is clean and the timer that fires later changes nothing; if it does not answer, the
  timer counts one missed ping and makes the contact suspect, and an answer that comes after the
  timeout changes nothing.
\<close>

theorem ping_settled_once:
  assumes "node_wf V n" "\<not> done_closed n" "StartPingTimer addr i \<in> set (snd (pingAddr E k addr n))"
  defines "n1 \<equiv> fst (pingAddr E k addr n)"
  shows "ping_timeout addr i (clearSuspectByAddr addr n1) = clearSuspectByAddr addr n1 \<and>
    rt (clearSuspectByAddr addr n1) = rt_ResetMissed i (rt n) \<and>
    clearSuspectByAddr addr (ping_timeout addr i n1) = ping_timeout addr i n1 \<and>
    rt (ping_timeout addr i n1) = rt_MarkMissed i (rt n) \<and>
    (\<exists>c. rt_lookup (rt n) i = Some c \<and>
      rt_lookup (rt (clearSuspectByAddr addr n1)) i = Some (c\<lparr>MissedPings := 0, Suspect := False\<rparr>) \<and>
      rt_lookup (rt (ping_timeout addr i n1)) i = missed c)"
proof -
  note t = pingAddr_timer [OF assms(3)]
  have wf: "rt_wf (rt n)" using assms(1) by (simp add: node_wf_def)
  obtain c where c: "is_ID i" "rt_lookup (rt n) i = Some c"
    using t Closest_lookup [OF wf] by blast
  have clear: "clearSuspectByAddr addr n1 = n1\<lparr>pendingPings := gm_del addr (pendingPings n1), rt := rt_ResetMissed i (rt n)\<rparr>"
    using t by (simp add: clearSuspectByAddr_def n1_def)
  have timeout: "ping_timeout addr i n1 = n1\<lparr>pendingPings := gm_del addr (pendingPings n1), rt := rt_MarkMissed i (rt n)\<rparr>"
    using t assms(2) by (simp add: ping_timeout_def n1_def)
  show ?thesis
    using c wf by (simp add: clear timeout rt_lookup_ResetMissed rt_lookup_MarkMissed)
      (simp add: clearSuspectByAddr_def ping_timeout_def)
qed

definition peer_node :: Node where
  "peer_node = sample_node\<lparr>rt := rt_Add (peer 1) (NewRoutingTable (replicate 32 0))\<rparr>"

lemma peer_node_closest: "Closest (rt peer_node) (n_id peer_node) (K * IDBits) = [peer 1]"
  by code_simp

lemma peer_node_wf: "node_wf V peer_node"
proof -
  have "node_wf V sample_node" unfolding sample_node_def by (rule NewNode_wf) (simp add: is_ID_32)
  moreover have "rt_wf (rt peer_node)" using peer_table [of 1] by (simp add: peer_node_def)
  ultimately show ?thesis by (simp add: node_wf_def peer_node_def) (simp add: sample_node_def NewNode_def NewRoutingTable_def)
qed

lemma sample_seal: "seal sample_env k mt ttl None \<noteq> None"
  by (simp add: sample_env_def Seal_def sample_rand_def Let_def crypto_okD(4))

theorem ping_settled_once_witness:
  "rt (ping_timeout ''10.0.0.1:4000'' (replicate 32 1) (fst (pingAddr sample_env 0 ''10.0.0.1:4000'' peer_node))) =
     rt_MarkMissed (replicate 32 1) (rt peer_node)"
proof -
  have "find (\<lambda>c. cAddr c = ''10.0.0.1:4000'') [peer 1] = Some (peer 1)" by (simp add: peer_def)
  then have "StartPingTimer ''10.0.0.1:4000'' (replicate 32 1) \<in> set (snd (pingAddr sample_env 0 ''10.0.0.1:4000'' peer_node))"
    using sample_seal [of 0 MsgPing 0] by (auto simp: pingAddr_def peer_node_closest sample_env_def split: option.splits)
  moreover have "\<not> done_closed peer_node" by (simp add: peer_node_def sample_node_def NewNode_def)
  ultimately show ?thesis using ping_settled_once [OF peer_node_wf] by blast
qed

text \<open>A contact that is suspect is not among the contacts \<open>pingAddr\<close> searches, so re-probing it
  arms no timer and registers no pending ping: its answer does not clear it and its silence does
  not count.\<close>

lemma suspect_ping_unregistered:
  assumes "\<forall>c \<in> set (rt_All (rt n)). cAddr c = addr \<longrightarrow> Suspect c"
  shows "fst (pingAddr E k addr n) = n \<and> (\<forall>i. StartPingTimer addr i \<notin> set (snd (pingAddr E k addr n)))"
proof -
  have "find (\<lambda>c. cAddr c = addr) (Closest (rt n) (n_id n) (K * IDBits)) = None"
    using assms set_take_subset [of "K * IDBits" "sort_Slice (\<lambda>x y. dist64 (n_id n) x < dist64 (n_id n) y)
      (filter (\<lambda>c. \<not> Suspect c) (rt_All (rt n)))"]
    by (auto simp: find_None_iff Closest_take)
  then show ?thesis by (simp add: pingAddr_def split: option.splits)
qed

lemma reprobe_changes_nothing:
  assumes "\<forall>c \<in> set (rt_All (rt n)). \<forall>d \<in> set (rt_All (rt n)). Suspect d \<and> cAddr c = cAddr d \<longrightarrow> Suspect c"
  shows "fst (reprobeSuspects E n) = n"
proof -
  have "fst (ping_each E k cs n) = n" if "set cs \<subseteq> {c \<in> set (rt_All (rt n)). Suspect c}" for k cs
    using that
  proof (induction cs arbitrary: k)
    case (Cons d cs)
    then have "fst (pingAddr E k (cAddr d) n) = n" using assms by (intro suspect_ping_unregistered [THEN conjunct1]) auto
    with Cons show ?case by (simp add: case_prod_unfold)
  qed simp
  then show ?thesis by (simp add: reprobeSuspects_def SuspectContacts_filter)
qed

end
