(* ===== verification/Dht_Gossip.thy ===== *)
theory Dht_Gossip
  imports Dht_Invariant
begin

text \<open>
  Properties that span several nodes or several runs of one node. The control manifest and the
  content manifest travel over two gossip channels with the same three messages; the channel
  contract \<open>gossip_channel\<close> says what each message causes, the exchange is proved once from the
  contract and holds for both channels. The peers file restores the routing table.
\<close>

unbundle bit_operations_syntax

section \<open>Two nodes that can talk\<close>

definition rand_works :: "seal_rand \<Rightarrow> bool" where
  "rand_works r \<longleftrightarrow> rand_ok r \<and> r_pad r \<noteq> None \<and> (\<forall>n. r_fill r n \<noteq> None) \<and> r_nonce r \<noteq> None"

definition env_of :: "crypto \<Rightarrow> json_codec \<Rightarrow> dht_env \<Rightarrow> bool" where
  "env_of C J E \<longleftrightarrow> e_crypto E = C \<and> e_json E = J \<and> (\<forall>k. rand_works (e_rand E k))"

lemma Seal_works:
  assumes "crypto_ok C" "rand_works r" "(case pl of None \<Rightarrow> Some [] | Some p \<Rightarrow> marshal J p) = Some body"
  shows "\<exists>pkt. Seal C J r mt MaxTTL pl = Some pkt \<and> Open C pkt = Opened mt MaxTTL body"
proof -
  obtain p z where p: "r_pad r = Some p" "r_nonce r = Some z" using assms(2) by (auto simp: rand_works_def)
  obtain f where "r_fill r (unat (p AND 15)) = Some f" using assms(2) by (auto simp: rand_works_def)
  with p have "Seal C J r mt MaxTTL pl \<noteq> None"
    using assms by (simp add: Seal_def Let_def crypto_okD(4))
  then obtain pkt where pkt: "Seal C J r mt MaxTTL pl = Some pkt" by blast
  from Seal_Some [OF assms(1) _ pkt] assms(2) obtain padding nonce where
    pad: "length padding < 16" "length nonce = NonceSize" and
    eq: "pkt = nonce @ aead_seal C (dht_key C) nonce
      ([mt, if MaxTTL = 0 then MaxTTL else MaxTTL, word_of_nat (length padding)] @ padding @ body)"
    unfolding rand_works_def by (metis assms(3) option.inject)
  have "unat (word_of_nat (length padding) :: byte) = length padding"
    using pad(1) by (simp only: unat_of_nat) simp
  moreover have "drop (3 + length padding) (a # b # c # padding @ body) = body" for a b c :: byte
    by (simp add: numeral_3_eq_3)
  ultimately have "Open C pkt = Opened mt MaxTTL body"
    using pad by (simp add: eq Open_def Let_def crypto_okD [OF assms(1)] aead_overhead_def)
  with pkt show ?thesis by blast
qed

lemma seal_send_works:
  assumes "crypto_ok C" "env_of C J E" "(case pl of None \<Rightarrow> Some [] | Some p \<Rightarrow> marshal J p) = Some body"
  shows "\<exists>pkt. seal_send E mt MaxTTL pl dst = [Send pkt dst] \<and> Open C pkt = Opened mt MaxTTL body"
proof -
  obtain pkt where "Seal C J (e_rand E 0) mt MaxTTL pl = Some pkt" "Open C pkt = Opened mt MaxTTL body"
    using Seal_works [OF assms(1) _ assms(3)] assms(2) unfolding env_of_def by blast
  with assms(2) show ?thesis by (auto simp: seal_send_def env_of_def)
qed

lemma handlePacket_opened:
  "e_crypto E = C \<Longrightarrow> Open C pkt = Opened mt ttl raw \<Longrightarrow>
   handlePacket E pkt src n = Some (dispatch E mt ttl raw src (clearSuspectByAddr src n))"
  by (simp add: handlePacket_def)

section \<open>The channel contract\<close>

locale gossip_channel =
  fixes ts :: "Node \<Rightarrow> int" and raw :: "Node \<Rightarrow> bytes" and listening :: "Node \<Rightarrow> bool" and call :: "bytes \<Rightarrow> effect"
    and have_msg :: byte and want_msg :: byte and data_msg :: byte
    and have_of :: "Node \<Rightarrow> payload" and data_of :: "Node \<Rightarrow> payload"
  assumes on_have: "\<lbrakk>json_ok (e_json E); marshal (e_json E) (have_of a) = Some b\<rbrakk> \<Longrightarrow>
      snd (dispatch E have_msg t b src n) = (if ts a > ts n then seal_send E want_msg MaxTTL None src else [])"
    and on_want: "snd (dispatch E want_msg t [] src n) =
      (if raw n = [] then [] else seal_send E data_msg MaxTTL (Some (data_of n)) src)"
    and on_data: "\<lbrakk>json_ok (e_json E); marshal (e_json E) (data_of a) = Some b\<rbrakk> \<Longrightarrow>
      snd (dispatch E data_msg t b src n) =
        (if ts a > ts n \<and> listening n then [call (compact (e_json E) (raw a))] else [])"
    and have_keeps: "ts (fst (dispatch E have_msg t b src n)) = ts n"
      "listening (fst (dispatch E have_msg t b src n)) = listening n"
    and clear_keeps: "ts (clearSuspectByAddr src n) = ts n" "raw (clearSuspectByAddr src n) = raw n"
      "listening (clearSuspectByAddr src n) = listening n" "data_of (clearSuspectByAddr src n) = data_of n"
begin

lemma exchange:
  assumes C: "crypto_ok C" and J: "json_ok J" and A: "env_of C J EA" and B: "env_of C J EB" and B': "env_of C J EB'"
    and have_body: "marshal J (have_of a) = Some hb" and data_body: "marshal J (data_of a) = Some db"
    and newer: "ts b < ts a" and some: "raw a \<noteq> []" and listening: "listening b"
  shows "\<exists>h w d a' b' b''.
    seal EA 0 have_msg MaxTTL (Some (have_of a)) = Some h \<and>
    handlePacket EB h srcA b = Some (b', [Send w srcA]) \<and>
    handlePacket EA w srcB a = Some (a', [Send d srcB]) \<and>
    handlePacket EB' d srcA b' = Some (b'', [call (compact J (raw a))])"
proof -
  have env: "e_crypto EA = C" "e_json EA = J" "e_crypto EB = C" "e_json EB = J" "e_crypto EB' = C" "e_json EB' = J"
    using A B B' by (simp_all add: env_of_def)
  obtain h where h: "seal EA 0 have_msg MaxTTL (Some (have_of a)) = Some h" "Open C h = Opened have_msg MaxTTL hb"
    using Seal_works [OF C, where r = "e_rand EA 0" and pl = "Some (have_of a)" and J = J and body = hb] A have_body
    by (auto simp: env_of_def)
  define b' where "b' = fst (dispatch EB have_msg MaxTTL hb srcA (clearSuspectByAddr srcA b))"
  obtain w where w: "seal_send EB want_msg MaxTTL None srcA = [Send w srcA]" "Open C w = Opened want_msg MaxTTL []"
    using seal_send_works [OF C B, of None "[]"] by auto
  have 1: "handlePacket EB h srcA b = Some (b', [Send w srcA])"
    using h(2) env newer J have_body w(1)
    by (simp add: handlePacket_opened [OF env(3)] b'_def prod_eq_iff on_have [where a = a] clear_keeps)
  obtain d where d: "seal_send EA data_msg MaxTTL (Some (data_of a)) srcB = [Send d srcB]" "Open C d = Opened data_msg MaxTTL db"
    using seal_send_works [OF C A, of "Some (data_of a)" db] data_body by auto
  have 2: "handlePacket EA w srcB a = Some (fst (dispatch EA want_msg MaxTTL [] srcB (clearSuspectByAddr srcB a)), [Send d srcB])"
    using w(2) env some d(1) by (simp add: handlePacket_opened [OF env(1)] prod_eq_iff on_want clear_keeps)
  have 3: "handlePacket EB' d srcA b' = Some (fst (dispatch EB' data_msg MaxTTL db srcA (clearSuspectByAddr srcA b')), [call (compact J (raw a))])"
    using d(2) env newer J data_body listening
    by (simp add: handlePacket_opened [OF env(5)] prod_eq_iff on_data [where a = a] clear_keeps have_keeps b'_def)
  from h(1) 1 2 3 show ?thesis by blast
qed

lemma no_exchange:
  assumes "crypto_ok C" "json_ok J" "env_of C J EA" "env_of C J EB" "marshal J (have_of a) = Some hb" "ts a \<le> ts b"
    "seal EA 0 have_msg MaxTTL (Some (have_of a)) = Some h"
  shows "\<exists>b'. handlePacket EB h srcA b = Some (b', [])"
proof -
  have "Open C h = Opened have_msg MaxTTL hb"
    using Seal_works [OF assms(1), where r = "e_rand EA 0" and pl = "Some (have_of a)" and J = J and body = hb and mt = have_msg]
      assms by (auto simp: env_of_def)
  then show ?thesis
    using assms by (cases "dispatch EB have_msg MaxTTL hb srcA (clearSuspectByAddr srcA b)")
      (simp add: handlePacket_opened [of EB C] env_of_def, use on_have [where a = a and E = EB and b = hb] clear_keeps in
        \<open>metis assms(6) linorder_not_less snd_conv\<close>)
qed

end

abbreviation manifest_have_of :: "Node \<Rightarrow> payload" where
  "manifest_have_of n \<equiv> PManifestHave \<lparr>mh_TS = manifestTS n\<rparr>"

abbreviation manifest_data_of :: "Node \<Rightarrow> payload" where
  "manifest_data_of n \<equiv> PManifest \<lparr>mp_TS = manifestTS n, mp_Raw = manifestRaw n\<rparr>"

abbreviation content_have_of :: "Node \<Rightarrow> payload" where
  "content_have_of n \<equiv> PContentHave \<lparr>ch_TS = contentTS n, ch_Complete = contentComplete n\<rparr>"

abbreviation content_data_of :: "Node \<Rightarrow> payload" where
  "content_data_of n \<equiv> PContent \<lparr>cp_TS = contentTS n, cp_Raw = contentRaw n\<rparr>"

lemma clear_versions:
  "manifestTS (clearSuspectByAddr src n) = manifestTS n" "manifestRaw (clearSuspectByAddr src n) = manifestRaw n"
  "onManifest (clearSuspectByAddr src n) = onManifest n" "contentTS (clearSuspectByAddr src n) = contentTS n"
  "contentRaw (clearSuspectByAddr src n) = contentRaw n" "onContent (clearSuspectByAddr src n) = onContent n"
  by (simp_all add: clearSuspectByAddr_def split: option.splits)

interpretation mg: gossip_channel manifestTS manifestRaw onManifest CallManifest MsgManifestHave MsgManifestWant MsgManifest
  manifest_have_of manifest_data_of
  by unfold_locales (auto simp: dispatch_def msg_defs handler_defs json_ok_def clear_versions split: option.splits)

interpretation cg: gossip_channel contentTS contentRaw onContent CallContent MsgContentHave MsgContentWant MsgContent
  content_have_of content_data_of
  by unfold_locales (auto simp: dispatch_def msg_defs handler_defs json_ok_def clear_versions Let_def split: option.splits)

section \<open>Gossip delivers newer manifests\<close>

text \<open>
  Property C6: gossip brings a newer control manifest to a node that listens, and nothing else.
  When node A advertises its version and node B has an older one, B asks A, A answers with its
  manifest, and B hands exactly A's manifest (as compact JSON) to its callback; when B's version
  is not older, B does not react.
\<close>

theorem manifest_gossip:
  assumes "crypto_ok C" "json_ok J" "env_of C J EA" "env_of C J EB" "env_of C J EB'"
    and "marshal J (PManifestHave \<lparr>mh_TS = manifestTS a\<rparr>) = Some hb"
    and "marshal J (PManifest \<lparr>mp_TS = manifestTS a, mp_Raw = manifestRaw a\<rparr>) = Some db"
    and "manifestRaw a \<noteq> []" "onManifest b"
  shows "\<exists>h. Seal C J (e_rand EA 0) MsgManifestHave MaxTTL (Some (PManifestHave \<lparr>mh_TS = manifestTS a\<rparr>)) = Some h \<and>
    (manifestTS b < manifestTS a \<longrightarrow> (\<exists>w d a' b' b''.
       handlePacket EB h srcA b = Some (b', [Send w srcA]) \<and>
       handlePacket EA w srcB a = Some (a', [Send d srcB]) \<and>
       handlePacket EB' d srcA b' = Some (b'', [CallManifest (compact J (manifestRaw a))]))) \<and>
    (manifestTS a \<le> manifestTS b \<longrightarrow> (\<exists>b'. handlePacket EB h srcA b = Some (b', [])))"
proof -
  have EA: "e_crypto EA = C" "e_json EA = J" using assms(3) by (simp_all add: env_of_def)
  obtain h where h: "Seal C J (e_rand EA 0) MsgManifestHave MaxTTL (Some (PManifestHave \<lparr>mh_TS = manifestTS a\<rparr>)) = Some h"
    using Seal_works [OF assms(1), where r = "e_rand EA 0" and J = J and pl = "Some (PManifestHave \<lparr>mh_TS = manifestTS a\<rparr>)"
        and body = hb and mt = MsgManifestHave] assms by (auto simp: env_of_def)
  show ?thesis
  proof (cases "manifestTS b < manifestTS a")
    case True
    from mg.exchange [OF assms(1-7) this assms(8,9)] h EA True show ?thesis by auto
  next
    case False
    then show ?thesis using mg.no_exchange [OF assms(1-4,6), of b h srcA] h EA by auto
  qed
qed

lemma sample_env_of [simp]: "env_of plain_crypto byte_json sample_env"
  by (simp add: env_of_def sample_env_def rand_works_def) (simp add: sample_rand_def)

theorem manifest_gossip_witness:
  "\<exists>h w d a' b' b''.
     handlePacket sample_env h ''A'' (SetManifestHandler True sample_node) = Some (b', [Send w ''A'']) \<and>
     handlePacket sample_env w ''B'' (SetManifest [1, 2] 7 sample_node) = Some (a', [Send d ''B'']) \<and>
     handlePacket sample_env d ''A'' b' = Some (b'', [CallManifest [1, 2]])"
proof -
  let ?a = "SetManifest [1, 2] 7 sample_node" and ?b = "SetManifestHandler True sample_node"
  have vals: "manifestTS ?a = 7" "manifestRaw ?a = [1, 2]" "manifestTS ?b = 0" "onManifest ?b" "compact byte_json r = r" for r
    by (simp_all add: SetManifest_def SetManifestHandler_def sample_node_def NewNode_def byte_json_def)
  have "marshal byte_json (PManifestHave \<lparr>mh_TS = manifestTS ?a\<rparr>) = Some [7]"
    "marshal byte_json (PManifest \<lparr>mp_TS = manifestTS ?a, mp_Raw = manifestRaw ?a\<rparr>) = Some [7, 1, 2]"
    by (simp_all only: vals) (simp_all add: byte_json_def small_ts_def)
  moreover have "manifestRaw ?a \<noteq> []" "manifestTS ?b < manifestTS ?a" by (simp_all only: vals) simp_all
  ultimately show ?thesis
    using manifest_gossip [OF plain_crypto_ok byte_json_ok sample_env_of sample_env_of sample_env_of _ _ _ vals(4), of ?a]
    unfolding vals by blast
qed

text \<open>
  The content channel has the same guarantee, and the completeness flag that travels
  with the advertisement is recorded for the sender's address whether or not the version is newer.
\<close>

theorem content_gossip:
  assumes "crypto_ok C" "json_ok J" "env_of C J EA" "env_of C J EB" "env_of C J EB'"
    and "marshal J (PContentHave \<lparr>ch_TS = contentTS a, ch_Complete = contentComplete a\<rparr>) = Some hb"
    and "marshal J (PContent \<lparr>cp_TS = contentTS a, cp_Raw = contentRaw a\<rparr>) = Some db"
    and "contentRaw a \<noteq> []" "onContent b"
  shows "\<exists>h b' es. Seal C J (e_rand EA 0) MsgContentHave MaxTTL
      (Some (PContentHave \<lparr>ch_TS = contentTS a, ch_Complete = contentComplete a\<rparr>)) = Some h \<and>
    handlePacket EB h srcA b = Some (b', es) \<and>
    gm_get (completePeers b') srcA =
      Some \<lparr>pe_addr = srcA, pe_ts = contentTS a, pe_complete = contentComplete a, pe_lastSeen = e_now EB\<rparr> \<and>
    (contentTS b < contentTS a \<longrightarrow> (\<exists>w d a' b''. es = [Send w srcA] \<and>
       handlePacket EA w srcB a = Some (a', [Send d srcB]) \<and>
       handlePacket EB' d srcA b' = Some (b'', [CallContent (compact J (contentRaw a))]))) \<and>
    (contentTS a \<le> contentTS b \<longrightarrow> es = [])"
proof -
  have EA: "e_crypto EA = C" "e_json EA = J" and EB: "e_crypto EB = C" "e_json EB = J"
    using assms(3,4) by (simp_all add: env_of_def)
  obtain h where h: "Seal C J (e_rand EA 0) MsgContentHave MaxTTL
      (Some (PContentHave \<lparr>ch_TS = contentTS a, ch_Complete = contentComplete a\<rparr>)) = Some h"
    "Open C h = Opened MsgContentHave MaxTTL hb"
    using Seal_works [OF assms(1), where r = "e_rand EA 0" and J = J and body = hb and mt = MsgContentHave
        and pl = "Some (PContentHave \<lparr>ch_TS = contentTS a, ch_Complete = contentComplete a\<rparr>)"] assms by (auto simp: env_of_def)
  obtain b' es where hp: "handlePacket EB h srcA b = Some (b', es)"
    using handlePacket_opened [OF EB(1) h(2)] by (metis surj_pair)
  have um: "um_content_have J hb = Some \<lparr>ch_TS = contentTS a, ch_Complete = contentComplete a\<rparr>"
    using assms(2,6) unfolding json_ok_def by blast
  have rec: "gm_get (completePeers b') srcA =
      Some \<lparr>pe_addr = srcA, pe_ts = contentTS a, pe_complete = contentComplete a, pe_lastSeen = e_now EB\<rparr>"
    using hp handlePacket_opened [OF EB(1) h(2), of srcA b] um EB(2)
    by (auto simp: dispatch_def msg_defs handleContentHave_def Let_def complete_record_def split: if_splits)
  show ?thesis
  proof (cases "contentTS b < contentTS a")
    case True
    from cg.exchange [OF assms(1-7) this assms(8,9), where srcA = srcA and srcB = srcB] h EA hp rec True
    show ?thesis by auto
  next
    case False
    then show ?thesis using cg.no_exchange [OF assms(1-4,6), of b h srcA] h EA hp rec by auto
  qed
qed

theorem content_gossip_witness:
  "\<exists>h b' es. handlePacket sample_env h ''A'' (SetContentHandler True sample_node) = Some (b', es) \<and>
     gm_get (completePeers b') ''A'' = Some \<lparr>pe_addr = ''A'', pe_ts = 7, pe_complete = False, pe_lastSeen = 1000 * second\<rparr>"
proof -
  let ?a = "SetContent [1, 2] 7 sample_node" and ?b = "SetContentHandler True sample_node"
  have vals: "contentTS ?a = 7" "contentRaw ?a = [1, 2]" "contentComplete ?a = False" "onContent ?b"
    "e_now sample_env = 1000 * second"
    by (simp_all add: SetContent_def SetContentHandler_def sample_node_def NewNode_def sample_env_def)
  have "marshal byte_json (PContentHave \<lparr>ch_TS = contentTS ?a, ch_Complete = contentComplete ?a\<rparr>) = Some [7, 0]"
    "marshal byte_json (PContent \<lparr>cp_TS = contentTS ?a, cp_Raw = contentRaw ?a\<rparr>) = Some [7, 1, 2]"
    by (simp_all only: vals) (simp_all add: byte_json_def small_ts_def)
  moreover have "contentRaw ?a \<noteq> []" by (simp only: vals) simp
  ultimately show ?thesis
    using content_gossip [OF plain_crypto_ok byte_json_ok sample_env_of sample_env_of sample_env_of _ _ _ vals(4), of ?a]
    unfolding vals by blast
qed

section \<open>The peers file\<close>

definition refresh :: "gotime \<Rightarrow> Contact \<Rightarrow> Contact" where
  "refresh now c = c\<lparr>LastSeen := now, MissedPings := 0, Suspect := False\<rparr>"

lemma cID_refresh [simp]: "cID (refresh now c) = cID c"
  by (simp add: refresh_def)

lemma contact_json_roundtrip: "is_ID (cID c) \<Longrightarrow> ContactFromJSON now (ContactToJSON c) = Some (refresh now c)"
  by (simp add: ContactFromJSON_def ContactToJSON_def ParseID_def id_String_def is_ID_def refresh_def)

lemma fold_add_json:
  "\<forall>c \<in> set cs. is_ID (cID c) \<Longrightarrow>
   rt (fold (add_contact_json E) (map ContactToJSON cs) m) = fold rt_Add (map (refresh (e_now E)) cs) (rt m)"
  by (induction cs arbitrary: m) (simp_all add: add_contact_json_def contact_json_roundtrip)

lemma fold_bucket_add: "length (b @ cs) \<le> K \<Longrightarrow> distinct (ids (b @ cs)) \<Longrightarrow> fold bucket_add cs b = b @ cs"
proof (induction cs arbitrary: b)
  case (Cons c cs)
  then have "bucket_replace c b = None" by (simp add: bucket_replace_None)
  then have "bucket_add c b = b @ [c]" using Cons.prems by (simp add: bucket_add_def)
  with Cons show ?case by simp
qed simp

text \<open>Adding the contacts of one bucket touches that bucket only.\<close>

lemma fold_rt_Add_bucket:
  "\<forall>c \<in> set cs. cID c \<noteq> rt_self t \<and> BucketIndex (id_XOR (rt_self t) (cID c)) = k \<Longrightarrow> k < length (rt_buckets t) \<Longrightarrow>
   fold rt_Add cs t = at_bucket k (fold bucket_add cs) t"
proof (induction cs arbitrary: t)
  case (Cons c cs)
  have "rt_Add c t = at_bucket k (bucket_add c) t" using Cons.prems by (simp add: rt_Add_def)
  then show ?case using Cons by (simp add: at_bucket_def)
qed (simp add: at_bucket_def)

lemma rebuild_buckets:
  assumes "rt_wf t" "k \<le> IDBits"
  shows "fold rt_Add (concat (take k (rt_buckets t))) (NewRoutingTable (rt_self t)) =
    \<lparr>rt_self = rt_self t, rt_buckets = take k (rt_buckets t) @ replicate (IDBits - k) []\<rparr>"
  using assms(2)
proof (induction k)
  case (Suc k)
  let ?b = "rt_buckets t ! k" and ?t = "\<lparr>rt_self = rt_self t, rt_buckets = take k (rt_buckets t) @ replicate (IDBits - k) []\<rparr>"
  have len: "length (rt_buckets t) = IDBits" and ok: "bucket_ok ?b" and
    ix: "\<forall>c \<in> set ?b. cID c \<noteq> rt_self t \<and> BucketIndex (id_XOR (rt_self t) (cID c)) = k"
    using assms(1) Suc.prems unfolding rt_wf_def by (metis Suc_le_lessD)+
  have rep: "replicate (IDBits - k) [] = [] # replicate (IDBits - Suc k) ([] :: bucket)"
    using Suc.prems by (metis Suc_diff_Suc Suc_le_lessD replicate_Suc)
  have "fold rt_Add ?b ?t = at_bucket k (fold bucket_add ?b) ?t"
    using ix len Suc.prems by (intro fold_rt_Add_bucket) simp_all
  also have "\<dots> = \<lparr>rt_self = rt_self t, rt_buckets = take (Suc k) (rt_buckets t) @ replicate (IDBits - Suc k) []\<rparr>"
    using ok len Suc.prems fold_bucket_add [of "[]" ?b]
    by (simp add: at_bucket_def rep nth_append list_update_append bucket_ok_def take_Suc_conv_app_nth)
  finally show ?case using Suc len by (simp add: take_Suc_conv_app_nth)
qed (simp add: NewRoutingTable_def)

lemma refresh_wf:
  assumes "rt_wf t"
  shows "rt_wf (t\<lparr>rt_buckets := map (map (refresh now)) (rt_buckets t)\<rparr>)"
proof -
  have "ids (map (refresh now) b) = ids b" for b by (simp add: comp_def)
  then have "bucket_ok (map (refresh now) b) = bucket_ok b" for b by (simp add: bucket_ok_def del: map_map)
  with assms show ?thesis by (auto simp: rt_wf_def)
qed

text \<open>
  The peers file restores the routing table. When a node writes its peers file and a
  new node with the same identifier loads it, the new table has exactly the same contacts in the
  same buckets and order, with clean ping records and the load time as last contact; no contact
  is lost to eviction on the way.
\<close>

theorem peers_file_roundtrip:
  assumes "node_wf V n" "savePeers E n = [WriteFile path data]"
    and "\<forall>js b. e_marshal_peers E js = Some b \<longrightarrow> e_unmarshal_peers E' b = Some js"
    and "\<forall>p c. encryptFn n p = Some c \<longrightarrow> decryptFn m c = Some p"
    and "rt m = NewRoutingTable (n_id n)" "peersPath m \<noteq> []"
  shows "rt (loadPeers E' (FileData data) m) =
    (rt n)\<lparr>rt_buckets := map (map (refresh (e_now E'))) (rt_buckets (rt n))\<rparr>"
proof -
  let ?t = "(rt n)\<lparr>rt_buckets := map (map (refresh (e_now E'))) (rt_buckets (rt n))\<rparr>"
  have wf: "rt_wf (rt n)" and self: "rt_self (rt n) = n_id n" using assms(1) by (simp_all add: node_wf_def)
  from assms(2) obtain plain where
    "e_marshal_peers E (map ContactToJSON (rt_All (rt n))) = Some plain" "encryptFn n plain = Some data"
    by (auto simp: savePeers_def split: if_splits option.splits)
  then have "loadPeers E' (FileData data) m = fold (add_contact_json E') (map ContactToJSON (rt_All (rt n))) m"
    using assms(3,4,6) by (simp add: loadPeers_def)
  then have "rt (loadPeers E' (FileData data) m) = fold rt_Add (map (refresh (e_now E')) (rt_All (rt n))) (rt m)"
    using fold_add_json [of "rt_All (rt n)" E' m] rt_wf_member [OF wf] by simp
  also have "map (refresh (e_now E')) (rt_All (rt n)) = concat (take IDBits (rt_buckets ?t))"
    using wf by (simp add: rt_All_concat map_concat rt_wf_def)
  also have "rt m = NewRoutingTable (rt_self ?t)" using assms(5) self by simp
  also have "fold rt_Add (concat (take IDBits (rt_buckets ?t))) (NewRoutingTable (rt_self ?t)) =
      \<lparr>rt_self = rt_self ?t, rt_buckets = take IDBits (rt_buckets ?t) @ replicate (IDBits - IDBits) []\<rparr>"
    by (rule rebuild_buckets [OF refresh_wf [OF wf] order_refl])
  also have "\<dots> = ?t" using wf by (simp add: rt_wf_def)
  finally show ?thesis .
qed

lemma peer_node_all: "rt_All (rt peer_node) = [peer 1]"
  by code_simp

definition one_peer_env :: dht_env where
  "one_peer_env = sample_env\<lparr>
     e_marshal_peers := (\<lambda>js. if js = [ContactToJSON (peer 1)] then Some [1] else None),
     e_unmarshal_peers := (\<lambda>b. Some [ContactToJSON (peer 1)])\<rparr>"

theorem peers_file_roundtrip_witness:
  "rt (loadPeers one_peer_env (FileData [1]) (sample_node\<lparr>peersPath := ''p''\<rparr>)) =
     (rt peer_node)\<lparr>rt_buckets := map (map (refresh (e_now one_peer_env))) (rt_buckets (rt peer_node))\<rparr>"
proof -
  let ?n = "peer_node\<lparr>peersPath := ''p''\<rparr>" and ?m = "sample_node\<lparr>peersPath := ''p''\<rparr>"
  have "node_wf V ?n" for V using peer_node_wf [of V] by (simp add: node_wf_def)
  moreover have "savePeers one_peer_env ?n = [WriteFile ''p'' [1]]"
    using peer_node_all by (simp add: savePeers_def one_peer_env_def) (simp add: peer_node_def sample_node_def NewNode_def)
  moreover have "\<forall>js b. e_marshal_peers one_peer_env js = Some b \<longrightarrow> e_unmarshal_peers one_peer_env b = Some js"
    by (simp add: one_peer_env_def)
  moreover have "\<forall>p c. encryptFn ?n p = Some c \<longrightarrow> decryptFn ?m c = Some p"
    by (simp add: peer_node_def sample_node_def NewNode_def)
  moreover have "rt ?m = NewRoutingTable (n_id ?n)" by (simp add: peer_node_def sample_node_def NewNode_def)
  ultimately show ?thesis using peers_file_roundtrip [of _ ?n one_peer_env "''p''" "[1]" one_peer_env ?m] by simp
qed

end
