(* ===== verification/Rate_Limit.thy ===== *)
theory Rate_Limit
  imports Complex_Main Go_Lib
begin

text \<open>
  The rate limiters of the arbiter's public endpoints and the extraction of the caller's address
  they are keyed by (\<open>src/snc-arbiter/ratelimit.go\<close>). The clock reading of a call is its argument
  \<open>now\<close>. The token bucket's \<open>float64\<close> counters are rationals: rounding is not modelled. Parsing
  of IP addresses and CIDR blocks is a parameter; membership in a block is the bitwise test.
\<close>

unbundle bit_operations_syntax

section \<open>Single cooldown\<close>

type_synonym simpleRateLimiter = "(string, gotime) gomap"

definition newSimpleRateLimiter :: simpleRateLimiter where "newSimpleRateLimiter = gm_empty"

definition simple_Allow :: "gotime \<Rightarrow> string \<Rightarrow> duration \<Rightarrow> simpleRateLimiter \<Rightarrow> bool \<times> simpleRateLimiter" where
  "simple_Allow now key cooldown l =
     (if (case gm_get l key of Some t \<Rightarrow> time_sub now t < cooldown | None \<Rightarrow> False) then (False, l)
      else let l' = gm_put key now l in
        (True, if gm_len l' > 10000 then gm_sweep (\<lambda>k t. time_sub now t > hour) l' else l'))"

section \<open>Sliding windows\<close>

record limitTier =
  Window :: duration
  Max_n :: int

type_synonym tieredWindowLimiter = "(string, gotime list) gomap"

definition newTieredWindowLimiter :: tieredWindowLimiter where "newTieredWindowLimiter = gm_empty"

definition window_count :: "gotime \<Rightarrow> duration \<Rightarrow> gotime list \<Rightarrow> int" where
  "window_count now w evs = int (length (filter (\<lambda>e. e > now - w) evs))"

text \<open>The loop over the tiers: the first tier that is exhausted rejects; otherwise the longest
  window is returned.\<close>

fun check_tiers :: "gotime \<Rightarrow> gotime list \<Rightarrow> duration \<Rightarrow> limitTier list \<Rightarrow> duration option" where
  "check_tiers now evs longest [] = Some longest"
| "check_tiers now evs longest (t # ts) =
     (let longest' = (if Window t > longest then Window t else longest) in
      if window_count now (Window t) evs \<ge> Max_n t then None else check_tiers now evs longest' ts)"

definition tiered_Allow :: "gotime \<Rightarrow> string \<Rightarrow> limitTier list \<Rightarrow> tieredWindowLimiter \<Rightarrow> bool \<times> tieredWindowLimiter" where
  "tiered_Allow now key tiers l =
     (let evs = (case gm_get l key of None \<Rightarrow> [] | Some evs \<Rightarrow> evs) in
      case check_tiers now evs 0 tiers of None \<Rightarrow> (False, l)
      | Some longest \<Rightarrow>
        (let kept = filter (\<lambda>e. e > now - longest) evs;
             l' = gm_put key (kept @ [now]) l
         in (True, if gm_len l' > 10000 then gm_sweep (\<lambda>k v. length v = 0) l' else l')))"

section \<open>Token bucket\<close>

record tokenBucket =
  tokens :: rat
  capacity :: rat
  refillPerSec :: rat
  tb_last :: gotime

definition newTokenBucket :: "gotime \<Rightarrow> rat \<Rightarrow> rat \<Rightarrow> tokenBucket" where
  "newTokenBucket now cap rate = \<lparr>tokens = cap, capacity = cap, refillPerSec = rate, tb_last = now\<rparr>"

definition Seconds :: "duration \<Rightarrow> rat" where "Seconds d = of_int d / of_int second"

definition bucket_Allow :: "gotime \<Rightarrow> tokenBucket \<Rightarrow> bool \<times> tokenBucket" where
  "bucket_Allow now b =
     (let t1 = tokens b + Seconds (time_sub now (tb_last b)) * refillPerSec b;
          t2 = (if t1 > capacity b then capacity b else t1);
          b' = b\<lparr>tokens := t2, tb_last := now\<rparr>
      in if t2 < 1 then (False, b') else (True, b'\<lparr>tokens := t2 - 1\<rparr>))"

section \<open>The caller's address\<close>

text \<open>A block is a network number and a mask of the same length, 4 or 16.\<close>

record IPNet =
  net_IP :: bytes
  net_Mask :: bytes

definition net_Contains :: "IPNet \<Rightarrow> bytes \<Rightarrow> bool" where
  "net_Contains n ip =
     (let nn = (case To4 (net_IP n) of Some v \<Rightarrow> v | None \<Rightarrow> net_IP n);
          m = (if length (net_Mask n) = 16 \<and> length nn = 4 then drop 12 (net_Mask n) else net_Mask n);
          x = (case To4 ip of Some v \<Rightarrow> v | None \<Rightarrow> ip)
      in length x = length nn \<and> length m = length nn \<and>
         list_all (\<lambda>i. nn ! i AND m ! i = x ! i AND m ! i) [0..<length nn])"

record ip_parsers =
  parseIP :: "string \<Rightarrow> bytes option"
  parseCIDR :: "string \<Rightarrow> IPNet option"

fun parse_parts :: "ip_parsers \<Rightarrow> string list \<Rightarrow> IPNet list option" where
  "parse_parts P [] = Some []"
| "parse_parts P (part # ps) =
     (let p = TrimSpace part in
      if p = [] then parse_parts P ps
      else case parseCIDR P p of None \<Rightarrow> None
      | Some n \<Rightarrow> map_option ((#) n) (parse_parts P ps))"

definition parseCIDRs :: "ip_parsers \<Rightarrow> string \<Rightarrow> IPNet list option" where
  "parseCIDRs P csv = parse_parts P (split_on CHR '','' csv)"

text \<open>\<open>mustParseCIDRs\<close> panics on an error: \<open>None\<close>.\<close>

definition mustParseCIDRs :: "ip_parsers \<Rightarrow> string \<Rightarrow> IPNet list option" where
  "mustParseCIDRs P csv = parseCIDRs P csv"

definition trustedProxyNets :: "ip_parsers \<Rightarrow> IPNet list option" where
  "trustedProxyNets P = mustParseCIDRs P ''127.0.0.1/32,::1/128''"

text \<open>Returns whether the list was accepted, and the new set; a bad list leaves the old one.\<close>

definition SetTrustedProxyCIDRs :: "ip_parsers \<Rightarrow> string \<Rightarrow> IPNet list \<Rightarrow> bool \<times> IPNet list" where
  "SetTrustedProxyCIDRs P csv nets = (case parseCIDRs P csv of None \<Rightarrow> (False, nets) | Some ns \<Rightarrow> (True, ns))"

definition remoteAddrTrusted :: "ip_parsers \<Rightarrow> IPNet list \<Rightarrow> string \<Rightarrow> bool" where
  "remoteAddrTrusted P nets remote =
     (let host = (case SplitHostPort remote of None \<Rightarrow> remote | Some (h, _) \<Rightarrow> h) in
      case parseIP P host of None \<Rightarrow> False | Some ip \<Rightarrow> list_ex (\<lambda>n. net_Contains n ip) nets)"

text \<open>The request's \<open>RemoteAddr\<close> and its \<open>X-Forwarded-For\<close> header, empty when absent.\<close>

record http_request =
  RemoteAddr :: string
  XFF :: string

definition clientIP :: "ip_parsers \<Rightarrow> IPNet list \<Rightarrow> http_request \<Rightarrow> string" where
  "clientIP P nets r =
     (let fallback = (case SplitHostPort (RemoteAddr r) of None \<Rightarrow> RemoteAddr r | Some (host, _) \<Rightarrow> host) in
      if remoteAddrTrusted P nets (RemoteAddr r) \<and> XFF r \<noteq> [] then
        (let last_part = TrimSpace (last (split_on CHR '','' (XFF r))) in
         if last_part \<noteq> [] then last_part else fallback)
      else fallback)"

section \<open>Sliding windows: the bound\<close>

text \<open>The requests a limiter lets through, for fixed tiers per key.\<close>

fun tiered_run :: "(string \<Rightarrow> limitTier list) \<Rightarrow> (gotime \<times> string) list \<Rightarrow> tieredWindowLimiter \<Rightarrow> (gotime \<times> string) list" where
  "tiered_run tiers [] l = []"
| "tiered_run tiers ((now, k) # rs) l =
     (case tiered_Allow now k (tiers k) l of
        (True, l') \<Rightarrow> (now, k) # tiered_run tiers rs l'
      | (False, l') \<Rightarrow> tiered_run tiers rs l')"

definition longest :: "limitTier list \<Rightarrow> duration" where "longest ts = fold max (map Window ts) 0"

definition events_of :: "tieredWindowLimiter \<Rightarrow> string \<Rightarrow> gotime list" where
  "events_of l k = (case gm_get l k of None \<Rightarrow> [] | Some evs \<Rightarrow> evs)"

lemma check_tiers_Some:
  "check_tiers now evs m ts = Some L \<longleftrightarrow>
   (\<forall>t \<in> set ts. window_count now (Window t) evs < Max_n t) \<and> L = fold max (map Window ts) m"
proof (induction ts arbitrary: m)
  case (Cons t ts)
  have "(if Window t > m then Window t else m) = max (Window t) m" by (simp add: max_def)
  with Cons show ?case by (auto simp: Let_def not_le)
qed auto

lemma fold_max_ge: "m \<le> fold max xs (m :: int)" "x \<in> set xs \<Longrightarrow> x \<le> fold max xs m"
proof (induction xs arbitrary: m)
  case (Cons a xs)
  { case 1 show ?case using Cons(1) [of "max a m"] by simp }
  { case 2 then show ?case using Cons(1) [of "max a m"] Cons(2) [of "max a m"] by auto }
qed simp_all

lemma Window_le_longest: "t \<in> set ts \<Longrightarrow> Window t \<le> longest ts"
  by (simp add: longest_def fold_max_ge(2))

definition limiter_wf :: "tieredWindowLimiter \<Rightarrow> bool" where
  "limiter_wf l \<longleftrightarrow> gm_wf l \<and> gm.all_values (\<lambda>k v. length v \<noteq> 0) l"

text \<open>No stored slice is ever empty, so the sweep that is meant to bound the memory removes
  nothing.\<close>

lemma sweep_removes_nothing:
  "limiter_wf l \<Longrightarrow> gm_get (gm_sweep (\<lambda>k v. length v = 0) l) = gm_get l"
  by (rule gm.sweep_none) (auto simp: limiter_wf_def)

lemma tiered_Allow_step:
  assumes "limiter_wf l" "tiered_Allow now k ts l = (ok, l')"
  shows "limiter_wf l' \<and>
    (ok \<longleftrightarrow> (\<forall>t \<in> set ts. window_count now (Window t) (events_of l k) < Max_n t)) \<and>
    events_of l' = (if ok then (events_of l)(k := filter (\<lambda>e. e > now - longest ts) (events_of l k) @ [now]) else events_of l)"
proof (cases "check_tiers now (events_of l k) 0 ts")
  case None
  then have "\<not> (\<forall>t \<in> set ts. window_count now (Window t) (events_of l k) < Max_n t)"
    using check_tiers_Some [of now "events_of l k" 0 ts] by auto
  with None assms show ?thesis by (auto simp: tiered_Allow_def Let_def events_of_def)
next
  case (Some L)
  then have L: "L = longest ts" and ok: "\<forall>t \<in> set ts. window_count now (Window t) (events_of l k) < Max_n t"
    by (simp_all add: check_tiers_Some longest_def)
  define m where "m = gm_put k (filter (\<lambda>e. e > now - L) (events_of l k) @ [now]) l"
  have wf: "limiter_wf m" using assms(1) by (simp add: limiter_wf_def m_def gm.all_values_put)
  have l': "ok" "l' = (if gm_len m > 10000 then gm_sweep (\<lambda>k v. length v = 0) m else m)"
    using assms(2) Some by (auto simp: tiered_Allow_def Let_def events_of_def m_def split: if_splits)
  have get: "gm_get l' = gm_get m" using sweep_removes_nothing [OF wf] by (simp add: l')
  moreover have "limiter_wf l'" using wf get by (auto simp: limiter_wf_def l' gm.all_values_def)
  moreover have "events_of l' = (events_of l)(k := filter (\<lambda>e. e > now - L) (events_of l k) @ [now])"
    by (rule ext) (simp add: events_of_def get, simp add: m_def events_of_def)
  ultimately show ?thesis using ok L l'(1) by simp
qed

text \<open>What is stored for a key suffices for every later check, although old events are pruned.\<close>

definition stored_ok :: "(string \<Rightarrow> limitTier list) \<Rightarrow> (string \<Rightarrow> gotime list) \<Rightarrow> tieredWindowLimiter \<Rightarrow> gotime \<Rightarrow> bool" where
  "stored_ok tiers A l clock \<longleftrightarrow> limiter_wf l \<and>
     (\<forall>k t w. clock \<le> t \<longrightarrow> w \<le> longest (tiers k) \<longrightarrow> filter (\<lambda>e. e > t - w) (events_of l k) = filter (\<lambda>e. e > t - w) (A k))"

definition in_limits :: "limitTier list \<Rightarrow> gotime list \<Rightarrow> bool" where
  "in_limits ts A \<longleftrightarrow> sorted A \<and> (\<forall>i < length A. \<forall>t \<in> set ts. window_count (A ! i) (Window t) (take i A) < Max_n t)"

lemma in_limits_snoc:
  assumes "in_limits ts A" "\<forall>e \<in> set A. e \<le> a" "\<forall>t \<in> set ts. window_count a (Window t) A < Max_n t"
  shows "in_limits ts (A @ [a])"
proof -
  have "window_count ((A @ [a]) ! i) (Window t) (take i (A @ [a])) < Max_n t" if "i < length (A @ [a])" "t \<in> set ts" for i t
    using that assms by (cases "i = length A") (auto simp: in_limits_def nth_append)
  with assms show ?thesis by (auto simp: in_limits_def sorted_append)
qed

lemma stored_ok_later: "stored_ok tiers A l c \<Longrightarrow> c \<le> c' \<Longrightarrow> stored_ok tiers A l c'"
  by (auto simp: stored_ok_def)

lemma stored_ok_record:
  assumes "stored_ok tiers A l now" "limiter_wf l'"
    "events_of l' = (events_of l)(k := filter (\<lambda>e. e > now - longest (tiers k)) (events_of l k) @ [now])"
  shows "stored_ok tiers (A(k := A k @ [now])) l' now"
  unfolding stored_ok_def
proof (intro conjI allI impI)
  fix j t w assume t: "now \<le> t" "w \<le> longest (tiers j)"
  have keep: "filter (\<lambda>e. e > t - w) (events_of l j) = filter (\<lambda>e. e > t - w) (A j)"
    using assms(1) t by (simp add: stored_ok_def)
  have "filter (\<lambda>e. e > t - w) (filter (\<lambda>e. e > now - longest (tiers j)) (events_of l j)) = filter (\<lambda>e. e > t - w) (events_of l j)"
    using t by (auto simp: intro!: filter_cong)
  with keep show "filter (\<lambda>e. e > t - w) (events_of l' j) = filter (\<lambda>e. e > t - w) ((A(k := A k @ [now])) j)"
    by (auto simp: assms(3))
qed (rule assms(2))

abbreviation times_of :: "string \<Rightarrow> (gotime \<times> string) list \<Rightarrow> gotime list" where
  "times_of k xs \<equiv> map fst (filter (\<lambda>x. snd x = k) xs)"

lemma tiered_run_in_limits:
  assumes "stored_ok tiers A l clock" "\<forall>k. in_limits (tiers k) (A k) \<and> (\<forall>e \<in> set (A k). e \<le> clock)"
    and "sorted (clock # map fst rs)"
  shows "in_limits (tiers k) (A k @ times_of k (tiered_run tiers rs l))"
  using assms
proof (induction rs arbitrary: A l clock)
  case (Cons r rs)
  obtain now j where r: "r = (now, j)" by (cases r)
  obtain ok l' where allow: "tiered_Allow now j (tiers j) l = (ok, l')" by (cases "tiered_Allow now j (tiers j) l")
  have le: "clock \<le> now" "sorted (now # map fst rs)" using Cons.prems(3) by (auto simp: r)
  have st: "stored_ok tiers A l now" using Cons.prems(1) le(1) by (rule stored_ok_later)
  have wf: "limiter_wf l" using st by (simp add: stored_ok_def)
  note step = tiered_Allow_step [OF wf allow]
  show ?case
  proof (cases ok)
    case True
    let ?A = "A(j := A j @ [now])"
    have "window_count now (Window t) (events_of l j) = window_count now (Window t) (A j)" if "t \<in> set (tiers j)" for t
      using st Window_le_longest [OF that] by (simp add: stored_ok_def window_count_def)
    then have "\<forall>t \<in> set (tiers j). window_count now (Window t) (A j) < Max_n t" using step True by simp
    then have "in_limits (tiers j) (A j @ [now])" using Cons.prems(2) le(1) by (intro in_limits_snoc) force+
    then have "\<forall>k. in_limits (tiers k) (?A k) \<and> (\<forall>e \<in> set (?A k). e \<le> now)" using Cons.prems(2) le(1) by force
    moreover have "stored_ok tiers ?A l' now" using step True by (intro stored_ok_record [OF st]) simp_all
    ultimately have "in_limits (tiers k) (?A k @ times_of k (tiered_run tiers rs l'))"
      using le(2) by (intro Cons.IH)
    then show ?thesis using True allow by (auto simp: r split: if_splits)
  next
    case False
    then have "events_of l' = events_of l" "limiter_wf l'" using step by (metis (full_types))+
    then have "stored_ok tiers A l' now" using st by (simp add: stored_ok_def)
    moreover have "\<forall>k. in_limits (tiers k) (A k) \<and> (\<forall>e \<in> set (A k). e \<le> now)" using Cons.prems(2) le(1) by force
    ultimately have "in_limits (tiers k) (A k @ times_of k (tiered_run tiers rs l'))" using le(2) by (intro Cons.IH)
    then show ?thesis using False allow by (simp add: r)
  qed
qed simp

lemma in_limits_window:
  assumes "in_limits ts A" "t \<in> set ts"
  shows "int (length (filter (\<lambda>e. t0 - Window t < e \<and> e \<le> t0) A)) \<le> max 0 (Max_n t)"
  using assms(1)
proof (induction A rule: rev_induct)
  case (snoc a A)
  have "window_count (A ! i) (Window u) (take i A) < Max_n u" if "i < length A" "u \<in> set ts" for i u
    using snoc.prems that unfolding in_limits_def by (auto simp: nth_append dest!: spec [of _ i])
  then have pre: "in_limits ts A" using snoc.prems by (simp add: in_limits_def sorted_append)
  show ?case
  proof (cases "a \<le> t0")
    case True
    have "window_count a (Window t) A < Max_n t"
      using snoc.prems assms(2) by (auto simp: in_limits_def dest!: spec [of _ "length A"])
    moreover have "length (filter (\<lambda>e. t0 - Window t < e \<and> e \<le> t0) A) \<le> length (filter (\<lambda>e. e > a - Window t) A)"
      using True by (intro length_filter_implies) simp
    ultimately show ?thesis by (simp add: window_count_def)
  qed (use snoc.IH [OF pre] in simp)
qed simp



section \<open>Token bucket: the bound\<close>

fun bucket_run :: "gotime list \<Rightarrow> tokenBucket \<Rightarrow> nat \<times> tokenBucket" where
  "bucket_run [] b = (0, b)"
| "bucket_run (now # ts) b =
     (case bucket_Allow now b of (ok, b') \<Rightarrow> (case bucket_run ts b' of (n, b'') \<Rightarrow> (of_bool ok + n, b'')))"

definition bucket_ok :: "tokenBucket \<Rightarrow> bool" where
  "bucket_ok b \<longleftrightarrow> 0 \<le> tokens b \<and> tokens b \<le> capacity b \<and> 0 \<le> refillPerSec b"

lemma Seconds_mono: "0 \<le> d \<Longrightarrow> 0 \<le> Seconds d"
  by (simp add: Seconds_def second_def)

lemma Seconds_add: "Seconds (a + b) = Seconds a + Seconds b"
  by (simp add: Seconds_def add_divide_distrib)

lemma time_sub_bounds: "u \<le> t \<Longrightarrow> 0 \<le> time_sub t u \<and> time_sub t u \<le> t - u"
  by (simp add: time_sub_def int64_min_def int64_max_def)

lemma Seconds_le: "a \<le> b \<Longrightarrow> Seconds a \<le> Seconds b"
  by (simp add: Seconds_def second_def divide_right_mono)

lemma bucket_Allow_step:
  assumes "bucket_ok b" "tb_last b \<le> now" "bucket_Allow now b = (ok, b')"
  shows "bucket_ok b' \<and> tb_last b' = now \<and> capacity b' = capacity b \<and> refillPerSec b' = refillPerSec b \<and>
    tokens b' + of_bool ok \<le> tokens b + Seconds (now - tb_last b) * refillPerSec b"
proof -
  let ?d = "time_sub now (tb_last b)"
  have d: "0 \<le> Seconds ?d" "Seconds ?d \<le> Seconds (now - tb_last b)"
    using time_sub_bounds [OF assms(2)] by (auto intro: Seconds_mono Seconds_le)
  have r: "0 \<le> refillPerSec b" "0 \<le> tokens b" "tokens b \<le> capacity b" using assms(1) by (simp_all add: bucket_ok_def)
  have "0 \<le> Seconds ?d * refillPerSec b" "Seconds ?d * refillPerSec b \<le> Seconds (now - tb_last b) * refillPerSec b"
    using d r by (auto intro: mult_right_mono)
  with assms(3) r show ?thesis
    by (auto simp: bucket_Allow_def Let_def bucket_ok_def split: if_splits)
qed

lemma bucket_run_bound:
  "bucket_ok b \<Longrightarrow> sorted (tb_last b # ts) \<Longrightarrow> bucket_run ts b = (n, b') \<Longrightarrow>
   bucket_ok b' \<and> capacity b' = capacity b \<and> tokens b' + of_nat n \<le> tokens b + Seconds (last (tb_last b # ts) - tb_last b) * refillPerSec b"
proof (induction ts arbitrary: b n)
  case Nil
  then show ?case by (simp add: Seconds_def)
next
  case (Cons now ts)
  obtain ok c where step: "bucket_Allow now b = (ok, c)" by (cases "bucket_Allow now b")
  obtain m where run: "bucket_run ts c = (m, b')" and n: "n = of_bool ok + m"
    using Cons.prems(3) step by (auto split: prod.splits)
  note st = bucket_Allow_step [OF Cons.prems(1) _ step]
  have c: "bucket_ok c" "tb_last c = now" "capacity c = capacity b" "refillPerSec c = refillPerSec b"
    "tokens c + of_bool ok \<le> tokens b + Seconds (now - tb_last b) * refillPerSec b"
    using st Cons.prems(2) by auto
  have "sorted (tb_last c # ts)" using Cons.prems(2) c(2) by simp
  from Cons.IH [OF c(1) this run] c(2-4) have ih: "bucket_ok b'" "capacity b' = capacity b"
    "tokens b' + of_nat m \<le> tokens c + Seconds (last (now # ts) - now) * refillPerSec b" by simp_all
  have "Seconds (last (now # ts) - tb_last b) = Seconds (last (now # ts) - now) + Seconds (now - tb_last b)"
    by (simp flip: Seconds_add)
  with ih c(5) show ?case by (simp add: n algebra_simps)
qed

text \<open>
  Property C16: the token bucket admits a burst of at most its capacity and a sustained rate of at
  most its refill rate: from creation, over any sequence of calls with a clock that does not go
  back, the number of admitted calls is at most the capacity plus the rate times the elapsed
  seconds, and the counter stays between zero and the capacity.
\<close>

theorem token_bucket_rate:
  assumes "0 \<le> cap" "0 \<le> rate" "sorted (t0 # ts)" "bucket_run ts (newTokenBucket t0 cap rate) = (n, b)"
  shows "of_nat n \<le> cap + Seconds (last (t0 # ts) - t0) * rate \<and> 0 \<le> tokens b \<and> tokens b \<le> cap"
proof -
  have "bucket_ok (newTokenBucket t0 cap rate)" using assms by (simp add: bucket_ok_def newTokenBucket_def)
  from bucket_run_bound [OF this _ assms(4)] assms(3) show ?thesis
    by (simp add: newTokenBucket_def bucket_ok_def del: last.simps)
qed

theorem token_bucket_rate_witness:
  "fst (bucket_run [0, 0, 0] (newTokenBucket 0 2 1)) \<le> 2"
proof -
  obtain n b where "bucket_run [0, 0, 0] (newTokenBucket 0 2 1) = (n, b)" by fastforce
  with token_bucket_rate [of 2 1 0 "[0, 0, 0]" n b] show ?thesis by (simp add: Seconds_def)
qed

section \<open>The caller's address: properties\<close>

lemma split_on_ne: "split_on sep s \<noteq> []"
  by (induction s) (auto split: list.splits)

lemma split_on_append: "split_on sep (s @ sep # t) = split_on sep s @ split_on sep t"
proof (induction s)
  case (Cons c s)
  then show ?case using split_on_ne [of sep s] by (cases "split_on sep s") auto
qed simp

lemma split_on_none: "sep \<notin> set t \<Longrightarrow> split_on sep t = [t]"
  by (induction t) auto

lemma last_split_on: "sep \<notin> set t \<Longrightarrow> last (split_on sep (s @ sep # t)) = t"
  by (simp add: split_on_append split_on_none)

text \<open>
  Property C17: a caller cannot choose the address it is limited by. Unless the connection comes
  from a trusted proxy the forwarding header is ignored; behind a trusted proxy only what the
  proxy appended last counts, whatever the caller put in front.
\<close>

theorem client_ip_unforgeable:
  assumes "CHR '','' \<notin> set appended" "TrimSpace appended \<noteq> []"
  shows "(\<not> remoteAddrTrusted P nets remote \<longrightarrow>
      clientIP P nets \<lparr>RemoteAddr = remote, XFF = h\<rparr> = clientIP P nets \<lparr>RemoteAddr = remote, XFF = h'\<rparr>) \<and>
    (remoteAddrTrusted P nets remote \<longrightarrow>
      clientIP P nets \<lparr>RemoteAddr = remote, XFF = h @ '','' @ appended\<rparr> = TrimSpace appended)"
  using assms last_split_on [OF assms(1), of h] by (simp add: clientIP_def Let_def split: option.splits)

theorem client_ip_unforgeable_witness:
  "clientIP \<lparr>parseIP = (\<lambda>s. Some (replicate 16 1)), parseCIDR = (\<lambda>s. None)\<rparr> [\<lparr>net_IP = replicate 16 1, net_Mask = replicate 16 255\<rparr>]
     \<lparr>RemoteAddr = ''9.9.9.9:1'', XFF = ''1.2.3.4'' @ '','' @ '' 8.8.8.8''\<rparr> = ''8.8.8.8''"
proof -
  let ?P = "\<lparr>parseIP = (\<lambda>s. Some (replicate 16 1)), parseCIDR = (\<lambda>s. None)\<rparr>"
  let ?nets = "[\<lparr>net_IP = replicate 16 1, net_Mask = replicate 16 255\<rparr>]"
  have "remoteAddrTrusted ?P ?nets ''9.9.9.9:1''"
    by (simp add: remoteAddrTrusted_def net_Contains_def To4_def list_all_iff)
  moreover have "TrimSpace '' 8.8.8.8'' = ''8.8.8.8''" by (simp add: TrimSpace_def is_space_def)
  ultimately show ?thesis
    using client_ip_unforgeable [of "'' 8.8.8.8''" ?P ?nets "''9.9.9.9:1''" "''1.2.3.4''"] by simp
qed

end
