(* ===== verification/Exit_Sessions.thy ===== *)
theory Exit_Sessions
  imports Prelude "HOL-Library.Multiset"
begin

text \<open>
  The session pools of the exit node (\<open>src/snc-exit/sessions.go\<close>, \<open>src/snc-exit/udp_sessions.go\<close>):
  TCP sessions with their reorder buffer, UDP sessions with their receive queue. A connection is
  a number; operations return the connections they close. \<open>getOrCreate\<close> dials between two
  critical sections, modelled one by one; what other goroutines do to the pool in between is the
  argument \<open>meanwhile\<close> of their composition.
\<close>

section \<open>TCP sessions\<close>

definition sessionTimeout :: duration where "sessionTimeout = 30 * second"
definition reorderBufMax :: nat where "reorderBufMax = 32"

record session =
  s_conn :: nat
  s_lastSeen :: gotime
  s_username :: string
  bytesUp :: int
  country :: string
  targetClosed :: bool
  reorderBuf :: "(32 word, bytes) gomap"
  reorderNext :: "32 word"

type_synonym sessionPool = "(string, session) gomap"

definition newSessionPool :: sessionPool where "newSessionPool = gm_empty"

definition new_session :: "gotime \<Rightarrow> nat \<Rightarrow> string \<Rightarrow> session" where
  "new_session now conn user = \<lparr>s_conn = conn, s_lastSeen = now, s_username = user, bytesUp = 0, country = [],
     targetClosed = False, reorderBuf = gm_empty, reorderNext = 1\<rparr>"

definition touch :: "gotime \<Rightarrow> session \<Rightarrow> session" where "touch now s = s\<lparr>s_lastSeen := now\<rparr>"

text \<open>\<open>if s := p.pool[connID]; s != nil { ... }\<close>: the session is updated in place.\<close>

definition update_session :: "string \<Rightarrow> (session \<Rightarrow> session) \<Rightarrow> sessionPool \<Rightarrow> sessionPool" where
  "update_session connID f p = (case gm_get p connID of None \<Rightarrow> p | Some s \<Rightarrow> gm_put connID (f s) p)"

text \<open>The two critical sections of \<open>getOrCreate\<close>: the lookup, and the insertion of the connection
  dialled, which closes it again when another one is there by now.\<close>

definition find_session :: "gotime \<Rightarrow> string \<Rightarrow> sessionPool \<Rightarrow> nat option \<times> sessionPool" where
  "find_session now connID p = (case gm_get p connID of None \<Rightarrow> (None, p)
     | Some s \<Rightarrow> (Some (s_conn s), gm_put connID (touch now s) p))"

definition insert_session :: "gotime \<Rightarrow> string \<Rightarrow> nat \<Rightarrow> string \<Rightarrow> sessionPool \<Rightarrow> nat \<times> sessionPool \<times> nat list" where
  "insert_session now connID conn user p = (case gm_get p connID of
     Some s \<Rightarrow> (s_conn s, gm_put connID (touch now s) p, [conn])
   | None \<Rightarrow> (conn, gm_put connID (new_session now conn user) p, []))"

text \<open>Result: the connection (none when dialling fails), the pool, the connections closed.\<close>

definition getOrCreate :: "gotime \<Rightarrow> nat option \<Rightarrow> (sessionPool \<Rightarrow> sessionPool) \<Rightarrow> gotime \<Rightarrow> string \<Rightarrow> string \<Rightarrow>
    sessionPool \<Rightarrow> nat option \<times> sessionPool \<times> nat list" where
  "getOrCreate now dial meanwhile now' connID user p =
     (case find_session now connID p of
        (Some conn, p1) \<Rightarrow> (Some conn, p1, [])
      | (None, p1) \<Rightarrow>
        (case dial of None \<Rightarrow> (None, meanwhile p1, [])
         | Some conn \<Rightarrow> (case insert_session now' connID conn user (meanwhile p1) of
             (c, p2, closed) \<Rightarrow> (Some c, p2, closed))))"

definition pool_store :: "gotime \<Rightarrow> string \<Rightarrow> nat \<Rightarrow> string \<Rightarrow> sessionPool \<Rightarrow> sessionPool \<times> nat list" where
  "pool_store now connID conn user p =
     (gm_put connID (new_session now conn user) p, case gm_get p connID of None \<Rightarrow> [] | Some old \<Rightarrow> [s_conn old])"

definition pool_get :: "gotime \<Rightarrow> string \<Rightarrow> sessionPool \<Rightarrow> nat option \<times> sessionPool" where
  "pool_get now connID p = (case gm_get p connID of None \<Rightarrow> (None, p)
     | Some s \<Rightarrow> if targetClosed s then (None, p) else (Some (s_conn s), gm_put connID (touch now s) p))"

definition closeReason :: "string \<Rightarrow> sessionPool \<Rightarrow> string" where
  "closeReason connID p = (case gm_get p connID of None \<Rightarrow> ''not-found''
     | Some s \<Rightarrow> if targetClosed s then ''target-closed'' else [])"

definition markTargetClosed :: "string \<Rightarrow> sessionPool \<Rightarrow> sessionPool" where
  "markTargetClosed connID = update_session connID (\<lambda>s. s\<lparr>targetClosed := True\<rparr>)"

definition recordActivity :: "gotime \<Rightarrow> string \<Rightarrow> sessionPool \<Rightarrow> sessionPool" where
  "recordActivity now connID = update_session connID (touch now)"

definition pool_close :: "string \<Rightarrow> sessionPool \<Rightarrow> sessionPool \<times> nat list" where
  "pool_close connID p = (gm_del connID p, case gm_get p connID of None \<Rightarrow> [] | Some s \<Rightarrow> [s_conn s])"

definition addBytesUp :: "string \<Rightarrow> int \<Rightarrow> sessionPool \<Rightarrow> sessionPool" where
  "addBytesUp connID n = update_session connID (\<lambda>s. s\<lparr>bytesUp := wrap64 (bytesUp s + n)\<rparr>)"

definition setCountry :: "string \<Rightarrow> string \<Rightarrow> sessionPool \<Rightarrow> sessionPool" where
  "setCountry connID cc = update_session connID (\<lambda>s. s\<lparr>country := cc\<rparr>)"

definition getSession :: "gotime \<Rightarrow> string \<Rightarrow> sessionPool \<Rightarrow> session option \<times> sessionPool" where
  "getSession now connID p = (case gm_get p connID of None \<Rightarrow> (None, p)
     | Some s \<Rightarrow> (Some (touch now s), gm_put connID (touch now s) p))"

definition pool_snapshot :: "string \<Rightarrow> sessionPool \<Rightarrow> (string \<times> string \<times> int) option" where
  "pool_snapshot connID p = map_option (\<lambda>s. (s_username s, country s, bytesUp s)) (gm_get p connID)"

definition session_stale :: "gotime \<Rightarrow> session \<Rightarrow> bool" where
  "session_stale now s \<longleftrightarrow> time_sub now (s_lastSeen s) > sessionTimeout"

definition pool_watchdog :: "gotime \<Rightarrow> sessionPool \<Rightarrow> sessionPool" where
  "pool_watchdog now p = gm_sweep (\<lambda>k s. session_stale now s) p"

definition watchdog_closes :: "gotime \<Rightarrow> sessionPool \<Rightarrow> nat list" where
  "watchdog_closes now p = map (\<lambda>(k, s). s_conn s) (filter (\<lambda>(k, s). session_stale now s) p)"

section \<open>UDP sessions\<close>

definition udpSessionTimeout :: duration where "udpSessionTimeout = 60 * second"
definition recvChCap :: nat where "recvChCap = 256"

record udpSessionKey =
  u_connID :: string
  u_dst :: string

record udpSession =
  u_conn :: nat
  u_lastSeen :: gotime
  u_username :: string
  recvCh :: "bytes list"

type_synonym udpSessionPool = "(udpSessionKey, udpSession) gomap"

text \<open>What a read of the socket gives: a datagram, an error that is a timeout, another error.\<close>

datatype udp_read = Datagram bytes | ReadError bool

definition isUDPTimeout :: "udp_read \<Rightarrow> bool" where "isUDPTimeout r \<longleftrightarrow> r = ReadError True"

text \<open>The receive loop over the reads it makes: the channel with what it has queued, and whether
  the loop has returned. A full channel drops the datagram.\<close>

fun readLoop :: "udp_read list \<Rightarrow> udpSession \<Rightarrow> udpSession \<times> bool" where
  "readLoop [] s = (s, False)"
| "readLoop (Datagram pkt # rs) s =
     (if length (recvCh s) < recvChCap then readLoop rs (s\<lparr>recvCh := recvCh s @ [pkt]\<rparr>) else readLoop rs s)"
| "readLoop (ReadError t # rs) s = (if isUDPTimeout (ReadError t) then readLoop rs s else (s, True))"

text \<open>Draining the channel: \<open>remaining\<close> is the time left until the deadline when the loop starts,
  \<open>arriving\<close> the datagrams that are queued by the end of the wait on an empty channel (none when the
  timer wins); after the first datagram nothing is waited for.\<close>

fun drain_rest :: "nat \<Rightarrow> bytes list \<Rightarrow> bytes list \<times> bytes list" where
  "drain_rest 0 ch = ([], ch)"
| "drain_rest (Suc n) [] = ([], [])"
| "drain_rest (Suc n) (pkt # ch) = (case drain_rest n ch of (out, ch') \<Rightarrow> (pkt # out, ch'))"

definition DrainRecv :: "duration \<Rightarrow> bytes list \<Rightarrow> int \<Rightarrow> udpSession \<Rightarrow> bytes list \<times> udpSession" where
  "DrainRecv remaining arriving maxN s =
     (if maxN \<le> 0 \<or> remaining \<le> 0 then ([], s)
      else let (out, rest) = drain_rest (nat maxN) (if recvCh s = [] then arriving else recvCh s)
           in (out, s\<lparr>recvCh := rest\<rparr>))"

definition newUDPSessionPool :: udpSessionPool where "newUDPSessionPool = gm_empty"

definition udp_find :: "gotime \<Rightarrow> udpSessionKey \<Rightarrow> udpSessionPool \<Rightarrow> udpSession option \<times> udpSessionPool" where
  "udp_find now key p = (case gm_get p key of None \<Rightarrow> (None, p)
     | Some s \<Rightarrow> (let s' = s\<lparr>u_lastSeen := now\<rparr> in (Some s', gm_put key s' p)))"

definition udp_insert :: "gotime \<Rightarrow> udpSessionKey \<Rightarrow> udpSession \<Rightarrow> udpSessionPool \<Rightarrow> udpSession \<times> udpSessionPool \<times> nat list" where
  "udp_insert now key s p = (case gm_get p key of
     Some ex \<Rightarrow> (let ex' = ex\<lparr>u_lastSeen := now\<rparr> in (ex', gm_put key ex' p, [u_conn s]))
   | None \<Rightarrow> (s, gm_put key s p, []))"

definition udp_getOrCreate :: "gotime \<Rightarrow> nat option \<Rightarrow> gotime \<Rightarrow> (udpSessionPool \<Rightarrow> udpSessionPool) \<Rightarrow> gotime \<Rightarrow>
    udpSessionKey \<Rightarrow> string \<Rightarrow> udpSessionPool \<Rightarrow> udpSession option \<times> udpSessionPool \<times> nat list" where
  "udp_getOrCreate now dial dialled meanwhile now' key user p =
     (case udp_find now key p of
        (Some s, p1) \<Rightarrow> (Some s, p1, [])
      | (None, p1) \<Rightarrow>
        (case dial of None \<Rightarrow> (None, meanwhile p1, [])
         | Some conn \<Rightarrow>
           (case udp_insert now' key \<lparr>u_conn = conn, u_lastSeen = dialled, u_username = user, recvCh = []\<rparr> (meanwhile p1)
            of (s, p2, closed) \<Rightarrow> (Some s, p2, closed))))"

definition udp_recordActivity :: "gotime \<Rightarrow> udpSessionKey \<Rightarrow> udpSessionPool \<Rightarrow> udpSessionPool" where
  "udp_recordActivity now key p = snd (udp_find now key p)"

definition udp_close :: "udpSessionKey \<Rightarrow> udpSessionPool \<Rightarrow> udpSessionPool \<times> nat list" where
  "udp_close key p = (gm_del key p, case gm_get p key of None \<Rightarrow> [] | Some s \<Rightarrow> [u_conn s])"

definition udp_stale :: "gotime \<Rightarrow> udpSession \<Rightarrow> bool" where
  "udp_stale now s \<longleftrightarrow> time_sub now (u_lastSeen s) > udpSessionTimeout"

definition udp_watchdog :: "gotime \<Rightarrow> udpSessionPool \<Rightarrow> udpSessionPool" where
  "udp_watchdog now p = gm_sweep (\<lambda>k s. udp_stale now s) p"

definition udp_watchdog_closes :: "gotime \<Rightarrow> udpSessionPool \<Rightarrow> nat list" where
  "udp_watchdog_closes now p = map (\<lambda>(k, s). u_conn s) (filter (\<lambda>(k, s). udp_stale now s) p)"

section \<open>Eviction of idle sessions\<close>

interpretation tcp_idle: idle_sweep pool_watchdog s_lastSeen sessionTimeout
  by unfold_locales
    (auto simp: pool_watchdog_def session_stale_def gm_get_sweep sessionTimeout_def go_time duration_defs split: option.splits)

interpretation udp_idle: idle_sweep udp_watchdog u_lastSeen udpSessionTimeout
  by unfold_locales
    (auto simp: udp_watchdog_def udp_stale_def gm_get_sweep udpSessionTimeout_def go_time duration_defs split: option.splits)

section \<open>The pools over time\<close>

datatype pool_op =
    OpFind gotime string
  | OpInsert gotime string nat string
  | OpStore gotime string nat string
  | OpGet gotime string
  | OpGetSession gotime string
  | OpTargetClosed string
  | OpActivity gotime string
  | OpClose string
  | OpBytesUp string int
  | OpCountry string string
  | OpWatchdog gotime

text \<open>The critical sections on the pool: the pool after, the connections handed over to it and
  those closed.\<close>

fun pool_step :: "pool_op \<Rightarrow> sessionPool \<Rightarrow> sessionPool \<times> nat list \<times> nat list" where
  "pool_step (OpFind now i) p = (snd (find_session now i p), [], [])"
| "pool_step (OpInsert now i conn user) p = (case insert_session now i conn user p of (_, p', cl) \<Rightarrow> (p', [conn], cl))"
| "pool_step (OpStore now i conn user) p = (case pool_store now i conn user p of (p', cl) \<Rightarrow> (p', [conn], cl))"
| "pool_step (OpGet now i) p = (snd (pool_get now i p), [], [])"
| "pool_step (OpGetSession now i) p = (snd (getSession now i p), [], [])"
| "pool_step (OpTargetClosed i) p = (markTargetClosed i p, [], [])"
| "pool_step (OpActivity now i) p = (recordActivity now i p, [], [])"
| "pool_step (OpClose i) p = (case pool_close i p of (p', cl) \<Rightarrow> (p', [], cl))"
| "pool_step (OpBytesUp i n) p = (addBytesUp i n p, [], [])"
| "pool_step (OpCountry i cc) p = (setCountry i cc p, [], [])"
| "pool_step (OpWatchdog now) p = (pool_watchdog now p, [], watchdog_closes now p)"

fun pool_run :: "pool_op list \<Rightarrow> sessionPool \<Rightarrow> sessionPool \<times> nat list \<times> nat list" where
  "pool_run [] p = (p, [], [])"
| "pool_run (c # cs) p = (case pool_step c p of (p1, op1, cl1) \<Rightarrow>
     case pool_run cs p1 of (p2, op2, cl2) \<Rightarrow> (p2, op1 @ op2, cl1 @ cl2))"

text \<open>The connections a pool holds.\<close>

definition live :: "('v \<Rightarrow> nat) \<Rightarrow> ('k, 'v) gomap \<Rightarrow> nat multiset" where
  "live c p = mset (map (c \<circ> snd) p)"

lemma live_put: "gm_wf p \<Longrightarrow> add_mset (c v) (live c p) = live c (gm_put k v p) + mset (case gm_get p k of None \<Rightarrow> [] | Some s \<Rightarrow> [c s])"
  unfolding live_def gm_wf_def gm_put_def gm_get_def by (induction p) auto

lemma live_del: "gm_wf p \<Longrightarrow> live c p = live c (gm_del k p) + mset (case gm_get p k of None \<Rightarrow> [] | Some s \<Rightarrow> [c s])"
  unfolding live_def gm_wf_def gm_del_def gm_get_def AList.delete_eq
  by (induction p) (auto simp: filter_id_conv map_of_eq_None_iff [THEN iffD2])

lemma live_sweep: "live c p = live c (gm_sweep g p) + mset (map (\<lambda>(k, s). c s) (filter (\<lambda>(k, s). g k s) p))"
  unfolding live_def gm_sweep_def by (induction p) auto

lemma live_update: "gm_wf p \<Longrightarrow> gm_get p k = Some s \<Longrightarrow> c s' = c s \<Longrightarrow> live c (gm_put k s' p) = live c p"
  using live_put [of p c s' k] by simp

lemma touch_conn [simp]: "s_conn (touch now s) = s_conn s"
  by (simp add: touch_def)

lemma update_session_live:
  "gm_wf p \<Longrightarrow> (\<And>s. s_conn (f s) = s_conn s) \<Longrightarrow> gm_wf (update_session i f p) \<and> live s_conn (update_session i f p) = live s_conn p"
  by (auto simp: update_session_def live_update split: option.splits)

lemmas session_updates = markTargetClosed_def recordActivity_def addBytesUp_def setCountry_def

lemma pool_step_accounts:
  assumes "gm_wf p" and "pool_step c p = (p', op, cl)"
  shows "gm_wf p' \<and> live s_conn p + mset op = live s_conn p' + mset cl"
proof (cases c)
  case (OpInsert now i conn user)
  then show ?thesis using assms live_put [OF assms(1), of s_conn "new_session now conn user" i]
    by (auto simp: insert_session_def live_update new_session_def split: option.splits)
next
  case (OpStore now i conn user)
  then show ?thesis using assms live_put [OF assms(1), of s_conn "new_session now conn user" i]
    by (auto simp: pool_store_def new_session_def)
next
  case (OpClose i)
  then show ?thesis using assms live_del [OF assms(1), of s_conn i] by (auto simp: pool_close_def)
next
  case (OpWatchdog now)
  then show ?thesis using assms live_sweep [of s_conn p "\<lambda>k s. session_stale now s"]
    by (auto simp: pool_watchdog_def watchdog_closes_def)
qed (use assms in \<open>auto simp: find_session_def pool_get_def getSession_def session_updates live_update
    update_session_live split: option.splits if_splits\<close>)

lemma pool_run_accounts:
  "gm_wf p \<Longrightarrow> pool_run cs p = (p', op, cl) \<Longrightarrow> gm_wf p' \<and> live s_conn p + mset op = live s_conn p' + mset cl"
proof (induction cs arbitrary: p op cl)
  case (Cons c cs)
  obtain p1 op1 cl1 where st: "pool_step c p = (p1, op1, cl1)" by (metis prod.exhaust)
  obtain op2 cl2 where r: "pool_run cs p1 = (p', op2, cl2)" and eq: "op = op1 @ op2" "cl = cl1 @ cl2"
    using Cons.prems(2) st by (auto split: prod.splits)
  note s1 = pool_step_accounts [OF Cons.prems(1) st]
  have "gm_wf p' \<and> live s_conn p1 + mset op2 = live s_conn p' + mset cl2" using Cons.IH s1 r by blast
  then show ?case using s1 by (simp add: eq) (metis add.assoc add.commute add.left_commute)
qed simp

text \<open>Property C14: (connection accounting) however the operations on the session pool interleave,
  including two dials for the same identifier racing each other, every connection handed to the
  pool is either held by exactly one session or has been closed exactly once: none is leaked and
  none is closed twice.\<close>

theorem connection_accounting:
  assumes "pool_run cs newSessionPool = (p, opened, closed)"
  shows "mset opened = live s_conn p + mset closed"
  using pool_run_accounts [OF _ assms] by (simp add: newSessionPool_def live_def gm_empty_def gm_wf_def)

theorem connection_accounting_witness:
  "\<exists>p opened closed. pool_run [OpFind 0 ''a'', OpInsert 5 ''a'' 1 ''u'', OpInsert 6 ''a'' 2 ''u'', OpStore 7 ''b'' 3 ''v'',
      OpClose ''a'', OpWatchdog (40 * second)] newSessionPool = (p, opened, closed) \<and>
    mset opened = live s_conn p + mset closed"
  using connection_accounting by (metis prod.exhaust)

text \<open>Idle eviction: a pass of the watchdogs over the two pools keeps a session exactly
  when it was seen within the last 30 seconds (TCP) or 60 seconds (UDP), and closes exactly the
  connections of the sessions it drops.\<close>

theorem watchdog_evicts_idle:
  assumes "gm_wf p" and "gm_wf q"
  shows "(gm_get (pool_watchdog now p) i = Some s \<longleftrightarrow> gm_get p i = Some s \<and> now \<le> s_lastSeen s + 30 * second) \<and>
    live s_conn p = live s_conn (pool_watchdog now p) + mset (watchdog_closes now p) \<and>
    (gm_get (udp_watchdog now q) k = Some u \<longleftrightarrow> gm_get q k = Some u \<and> now \<le> u_lastSeen u + 60 * second) \<and>
    live u_conn q = live u_conn (udp_watchdog now q) + mset (udp_watchdog_closes now q)"
proof (intro conjI)
  show "gm_get (pool_watchdog now p) i = Some s \<longleftrightarrow> gm_get p i = Some s \<and> now \<le> s_lastSeen s + 30 * second"
    using tcp_idle.kept_fresh [OF assms(1)] tcp_idle.fresh_kept [OF assms(1)]
    unfolding sessionTimeout_def by (metis diff_le_eq add.commute)
  show "gm_get (udp_watchdog now q) k = Some u \<longleftrightarrow> gm_get q k = Some u \<and> now \<le> u_lastSeen u + 60 * second"
    using udp_idle.kept_fresh [OF assms(2)] udp_idle.fresh_kept [OF assms(2)]
    unfolding udpSessionTimeout_def by (metis diff_le_eq add.commute)
qed (unfold pool_watchdog_def watchdog_closes_def udp_watchdog_def udp_watchdog_closes_def, rule live_sweep, rule live_sweep)

definition sample_pool :: sessionPool where
  "sample_pool = [(''a'', new_session 0 1 ''u''), (''b'', new_session (20 * second) 2 ''v'')]"

definition sample_udp :: udpSessionPool where
  "sample_udp = [(\<lparr>u_connID = ''a'', u_dst = ''d''\<rparr>, \<lparr>u_conn = 4, u_lastSeen = 0, u_username = ''u'', recvCh = []\<rparr>)]"

theorem watchdog_evicts_idle_witness:
  "gm_wf sample_pool \<and> gm_wf sample_udp \<and>
   live s_conn sample_pool = live s_conn (pool_watchdog (31 * second) sample_pool) + mset (watchdog_closes (31 * second) sample_pool) \<and>
   (gm_get (udp_watchdog (31 * second) sample_udp) \<lparr>u_connID = ''a'', u_dst = ''d''\<rparr> =
      Some \<lparr>u_conn = 4, u_lastSeen = 0, u_username = ''u'', recvCh = []\<rparr>)"
proof -
  have p: "gm_wf sample_pool" and q: "gm_wf sample_udp" by (simp_all add: gm_wf_def sample_pool_def sample_udp_def)
  have "gm_get sample_udp \<lparr>u_connID = ''a'', u_dst = ''d''\<rparr> = Some \<lparr>u_conn = 4, u_lastSeen = 0, u_username = ''u'', recvCh = []\<rparr>"
    by (simp add: gm_get_def sample_udp_def)
  then show ?thesis using p q watchdog_evicts_idle [OF p q] by (simp add: duration_defs)
qed

text \<open>The receive queue of a UDP session: bounded, first in first out, and the loop stops at the
  first error that is not a timeout.\<close>

lemma drain_rest_take: "drain_rest n ch = (take n ch, drop n ch)"
  by (induction n ch rule: drain_rest.induct) auto

lemma readLoop_queue:
  "length (recvCh s) \<le> recvChCap \<Longrightarrow> readLoop rs s = (s', done) \<Longrightarrow>
   length (recvCh s') \<le> recvChCap \<and>
   recvCh s' = take recvChCap (recvCh s @ concat (map (\<lambda>r. case r of Datagram pkt \<Rightarrow> [pkt] | ReadError _ \<Rightarrow> [])
     (takeWhile (\<lambda>r. r \<noteq> ReadError False) rs))) \<and> (done \<longleftrightarrow> ReadError False \<in> set rs)"
proof (induction rs s rule: readLoop.induct)
  case (2 pkt rs s)
  show ?case
  proof (cases "length (recvCh s) < recvChCap")
    case True
    then show ?thesis using 2 by simp
  next
    case False
    then show ?thesis using 2 by simp
  qed
next
  case (3 t rs s)
  then show ?case by (cases t) (auto simp: isUDPTimeout_def)
qed auto

end
