(* ===== verification/Exit_Reorder.thy ===== *)
theory Exit_Reorder
  imports Exit_Sessions
begin

text \<open>
  In-order delivery of the frames of a session (\<open>deliverInOrder\<close> of \<open>src/snc-exit/sessions.go\<close>).
  Whether the writes of a delivery succeed is the argument \<open>w\<close>, by position; a failed write counts
  as not written. The draining loop ends because every turn takes a frame out of the buffer.
\<close>

section \<open>In-order delivery\<close>

datatype deliver_error = BufferFull | WriteFailed

text \<open>The loop that drains the frames that have become deliverable. Each turn removes one frame
  from the buffer.\<close>

function drain :: "(nat \<Rightarrow> bool) \<Rightarrow> nat \<Rightarrow> session \<Rightarrow> deliver_error option \<times> session \<times> bytes list" where
  "drain w k s = (case gm_get (reorderBuf s) (reorderNext s) of None \<Rightarrow> (None, s, [])
     | Some nxt \<Rightarrow>
       (let s1 = s\<lparr>reorderBuf := gm_del (reorderNext s) (reorderBuf s)\<rparr> in
        if nxt \<noteq> [] then
          (if w k then
             (case drain w (Suc k) (s1\<lparr>reorderNext := reorderNext s1 + 1\<rparr>) of (e, s2, out) \<Rightarrow> (e, s2, nxt # out))
           else (Some WriteFailed, s1, []))
        else drain w k (s1\<lparr>reorderNext := reorderNext s1 + 1\<rparr>)))"
  by pat_completeness auto

lemma gm_del_shorter: "gm_get m k = Some v \<Longrightarrow> gm_len (gm_del k m) < gm_len m"
proof -
  assume "gm_get m k = Some v"
  then have "(k, v) \<in> set m" by (simp add: gm_get_def map_of_SomeD)
  then have "length (filter (\<lambda>x. k \<noteq> fst x) m) < length m" by (intro length_filter_less) auto
  then show ?thesis by (simp add: gm_len_def gm_del_def AList.delete_eq case_prod_unfold)
qed

termination drain
  by (relation "measure (\<lambda>(w, k, s). gm_len (reorderBuf s))") (auto simp: gm_del_shorter)

declare drain.simps [simp del]

definition deliverInOrder :: "(nat \<Rightarrow> bool) \<Rightarrow> 32 word \<Rightarrow> bytes \<Rightarrow> session \<Rightarrow> deliver_error option \<times> session \<times> bytes list" where
  "deliverInOrder w sq pl s =
     (if sq < reorderNext s then (None, s, [])
      else if sq > reorderNext s then
        (if gm_len (reorderBuf s) \<ge> reorderBufMax then (Some BufferFull, s, [])
         else (None, s\<lparr>reorderBuf := gm_put sq pl (reorderBuf s)\<rparr>, []))
      else if pl \<noteq> [] then
        (if w 0 then (case drain w 1 (s\<lparr>reorderNext := reorderNext s + 1\<rparr>) of (e, s', out) \<Rightarrow> (e, s', pl # out))
         else (Some WriteFailed, s, []))
      else drain w 0 (s\<lparr>reorderNext := reorderNext s + 1\<rparr>))"

text \<open>A sequence of deliveries: each with the outcome of its writes and its sequence number, the
  payload of a number being fixed by the sender. What is kept is the list of results, the session
  and everything written to the target.\<close>

fun deliver_run :: "(nat \<Rightarrow> bytes) \<Rightarrow> ((nat \<Rightarrow> bool) \<times> 32 word) list \<Rightarrow> session \<Rightarrow>
    deliver_error option list \<times> session \<times> bytes list" where
  "deliver_run pay [] s = ([], s, [])"
| "deliver_run pay ((w, sq) # fs) s =
     (case deliverInOrder w sq (pay (unat sq)) s of (e, s1, out) \<Rightarrow>
      case deliver_run pay fs s1 of (es, s2, out2) \<Rightarrow> (e # es, s2, out @ out2))"

definition maxSeq :: nat where "maxSeq = 2 ^ 32 - 1"

lemma unat_next: "unat (a :: 32 word) < maxSeq \<Longrightarrow> unat (a + 1) = Suc (unat a)"
  unfolding maxSeq_def by (simp add: unat_word_ariths(1))

text \<open>What the buffer holds: frames of the sender, of numbers still to come (from \<open>lo\<close> on).\<close>

definition buf_ok :: "(nat \<Rightarrow> bytes) \<Rightarrow> nat \<Rightarrow> session \<Rightarrow> bool" where
  "buf_ok pay lo s \<longleftrightarrow> gm_wf (reorderBuf s) \<and> 1 \<le> unat (reorderNext s) \<and> unat (reorderNext s) \<le> maxSeq \<and>
     (\<forall>k v. gm_get (reorderBuf s) k = Some v \<longrightarrow> lo \<le> unat k \<and> unat k < maxSeq \<and> v = pay (unat k))"

abbreviation next_seq :: "session \<Rightarrow> nat" where "next_seq s \<equiv> unat (reorderNext s)"

definition stream :: "(nat \<Rightarrow> bytes) \<Rightarrow> nat \<Rightarrow> nat \<Rightarrow> bytes" where
  "stream pay a b = concat (map pay [a..<b])"

lemma stream_empty [simp]: "stream pay a a = []"
  by (simp add: stream_def)

lemma stream_Cons: "a < b \<Longrightarrow> stream pay a b = pay a @ stream pay (Suc a) b"
  by (simp add: stream_def upt_conv_Cons)

lemma stream_append: "a \<le> b \<Longrightarrow> b \<le> c \<Longrightarrow> stream pay a b @ stream pay b c = stream pay a c"
  unfolding stream_def by (metis concat_append le_Suc_ex map_append upt_add_eq_append)

lemma buf_ok_get: "buf_ok pay lo s \<Longrightarrow> gm_get (reorderBuf s) k = Some v \<Longrightarrow> lo \<le> unat k \<and> unat k < maxSeq \<and> v = pay (unat k)"
  by (auto simp: buf_ok_def)

text \<open>One turn of the draining loop, and one frame delivered: the next number grows by one.\<close>

lemma buf_ok_advance:
  assumes "buf_ok pay (next_seq s) s" and "next_seq s < maxSeq"
  shows "buf_ok pay (Suc (next_seq s)) (s\<lparr>reorderBuf := gm_del (reorderNext s) (reorderBuf s)\<rparr>)"
    and "buf_ok pay (Suc (next_seq s))
           (s\<lparr>reorderBuf := gm_del (reorderNext s) (reorderBuf s), reorderNext := reorderNext s + 1\<rparr>)"
proof -
  have gt: "Suc (next_seq s) \<le> unat k" if "gm_get (reorderBuf s) k = Some v" "k \<noteq> reorderNext s" for k v
    using buf_ok_get [OF assms(1) that(1)] that(2) by (metis le_neq_implies_less Suc_leI word_unat_eq_iff)
  then show "buf_ok pay (Suc (next_seq s)) (s\<lparr>reorderBuf := gm_del (reorderNext s) (reorderBuf s)\<rparr>)"
    using assms(1) unfolding buf_ok_def by (auto split: if_splits)
  show "buf_ok pay (Suc (next_seq s))
           (s\<lparr>reorderBuf := gm_del (reorderNext s) (reorderBuf s), reorderNext := reorderNext s + 1\<rparr>)"
    using assms gt unfolding buf_ok_def by (auto simp: unat_next split: if_splits)
qed

text \<open>The four ways a turn of the loop goes.\<close>

lemma drain_cases:
  shows drain_stop: "gm_get (reorderBuf s) (reorderNext s) = None \<Longrightarrow> drain w k s = (None, s, [])"
    and drain_fail: "gm_get (reorderBuf s) (reorderNext s) = Some nxt \<Longrightarrow> nxt \<noteq> [] \<Longrightarrow> \<not> w k \<Longrightarrow>
      drain w k s = (Some WriteFailed, s\<lparr>reorderBuf := gm_del (reorderNext s) (reorderBuf s)\<rparr>, [])"
    and drain_write: "gm_get (reorderBuf s) (reorderNext s) = Some nxt \<Longrightarrow> nxt \<noteq> [] \<Longrightarrow> w k \<Longrightarrow>
      drain w k s = (case drain w (Suc k) (s\<lparr>reorderBuf := gm_del (reorderNext s) (reorderBuf s), reorderNext := reorderNext s + 1\<rparr>)
        of (e, s2, out) \<Rightarrow> (e, s2, nxt # out))"
    and drain_skip: "gm_get (reorderBuf s) (reorderNext s) = Some [] \<Longrightarrow>
      drain w k s = drain w k (s\<lparr>reorderBuf := gm_del (reorderNext s) (reorderBuf s), reorderNext := reorderNext s + 1\<rparr>)"
  by (subst drain.simps, simp)+

lemma drain_stream:
  "buf_ok pay (next_seq s) s \<Longrightarrow> drain w k s = (e, s', out) \<Longrightarrow>
   buf_ok pay (Suc (next_seq s')) s' \<and> next_seq s \<le> next_seq s' \<and> concat out = stream pay (next_seq s) (next_seq s') \<and>
   ((\<forall>i. w i) \<longrightarrow> e = None) \<and> e \<noteq> Some BufferFull \<and>
   (\<forall>j v. e = None \<longrightarrow> next_seq s' \<le> unat j \<longrightarrow> gm_get (reorderBuf s) j = Some v \<longrightarrow> gm_get (reorderBuf s') j = Some v) \<and>
   (\<forall>j v. gm_get (reorderBuf s') j = Some v \<longrightarrow> gm_get (reorderBuf s) j = Some v)"
proof (induction w k s arbitrary: e s' out rule: drain.induct)
  case (1 w k s)
  let ?b = "reorderBuf s" and ?n = "reorderNext s"
  let ?s1 = "s\<lparr>reorderBuf := gm_del ?n ?b\<rparr>"
  define s2 where "s2 = ?s1\<lparr>reorderNext := reorderNext ?s1 + 1\<rparr>"
  have s2: "s2 = s\<lparr>reorderBuf := gm_del ?n ?b, reorderNext := ?n + 1\<rparr>" by (simp add: s2_def)
  show ?case
  proof (cases "gm_get ?b ?n")
    case None
    then have eq: "e = None" "s' = s" "out = []" using 1(4) by (simp_all add: drain_stop)
    have "Suc (next_seq s) \<le> unat j" if "gm_get ?b j = Some v" for j v
      using buf_ok_get [OF 1(3) that] that None by (metis le_neq_implies_less Suc_leI option.distinct(1) word_unat_eq_iff)
    then have "buf_ok pay (Suc (next_seq s)) s" using 1(3) unfolding buf_ok_def by auto
    then show ?thesis using eq by simp
  next
    case (Some nxt)
    have lt: "next_seq s < maxSeq" and nxt: "nxt = pay (next_seq s)" using buf_ok_get [OF 1(3) Some] by auto
    note adv = buf_ok_advance [OF 1(3) lt]
    have n2: "next_seq s2 = Suc (next_seq s)" using lt by (simp add: s2 unat_next)
    have ok2: "buf_ok pay (next_seq s2) s2" using adv(2) unfolding n2 unfolding s2 .
    have sub: "gm_get (reorderBuf s2) j = Some v \<longleftrightarrow> j \<noteq> ?n \<and> gm_get ?b j = Some v" for j v by (auto simp: s2)
    have ge: "next_seq s \<le> next_seq s'" if "next_seq s2 \<le> next_seq s'" using that n2 by simp
    have str: "pay (next_seq s) @ stream pay (next_seq s2) (next_seq s') = stream pay (next_seq s) (next_seq s')"
      if "next_seq s2 \<le> next_seq s'"
      using that stream_Cons [of "next_seq s" "next_seq s'" pay] unfolding n2 by simp
    have keep: "gm_get (reorderBuf s2) j = Some v"
      if "next_seq s2 \<le> next_seq s'" "next_seq s' \<le> unat j" "gm_get ?b j = Some v" for j v
      using that unfolding sub n2 by auto
    consider (fail) "nxt \<noteq> []" "\<not> w k" | (wrote) "nxt \<noteq> []" "w k" | (skip) "nxt = []" by blast
    then show ?thesis
    proof cases
      case fail
      then have eq: "e = Some WriteFailed" "s' = ?s1" "out = []"
        using 1(4) Some by (simp_all add: drain_fail)
      show ?thesis using adv(1) fail by (auto simp: eq split: if_splits)
    next
      case wrote
      obtain out2 where d: "drain w (Suc k) s2 = (e, s', out2)" and out: "out = nxt # out2"
        using 1(4) drain_write [where w = w and k = k, OF Some wrote, folded s2] by (cases "drain w (Suc k) s2") simp
      have step: "buf_ok pay (Suc (next_seq s')) s' \<and> next_seq s2 \<le> next_seq s' \<and>
          concat out2 = stream pay (next_seq s2) (next_seq s') \<and> ((\<forall>i. w i) \<longrightarrow> e = None) \<and> e \<noteq> Some BufferFull \<and>
          (\<forall>j v. e = None \<longrightarrow> next_seq s' \<le> unat j \<longrightarrow> gm_get (reorderBuf s2) j = Some v \<longrightarrow> gm_get (reorderBuf s') j = Some v) \<and>
          (\<forall>j v. gm_get (reorderBuf s') j = Some v \<longrightarrow> gm_get (reorderBuf s2) j = Some v)"
        by (rule 1(1) [OF Some refl wrote, folded s2_def, OF ok2 d])
      have "concat out = pay (next_seq s) @ concat out2" by (simp add: out nxt)
      then show ?thesis using step ge str keep sub by metis
    next
      case skip
      have d: "drain w k s2 = (e, s', out)"
        using 1(4) Some skip drain_skip [of s w k, folded s2] by simp
      have step: "buf_ok pay (Suc (next_seq s')) s' \<and> next_seq s2 \<le> next_seq s' \<and>
          concat out = stream pay (next_seq s2) (next_seq s') \<and> ((\<forall>i. w i) \<longrightarrow> e = None) \<and> e \<noteq> Some BufferFull \<and>
          (\<forall>j v. e = None \<longrightarrow> next_seq s' \<le> unat j \<longrightarrow> gm_get (reorderBuf s2) j = Some v \<longrightarrow> gm_get (reorderBuf s') j = Some v) \<and>
          (\<forall>j v. gm_get (reorderBuf s') j = Some v \<longrightarrow> gm_get (reorderBuf s2) j = Some v)"
        by (rule 1(2) [OF Some refl, folded s2_def, OF _ ok2 d]) (simp add: skip)
      have "concat out = pay (next_seq s) @ concat out" using nxt skip by simp
      then show ?thesis using step ge str keep sub by metis
    qed
  qed
qed

abbreviation session_ok :: "(nat \<Rightarrow> bytes) \<Rightarrow> session \<Rightarrow> bool" where
  "session_ok pay s \<equiv> buf_ok pay (Suc (next_seq s)) s"

text \<open>Frame \<open>i\<close> is with the session: already written, or in the buffer.\<close>

definition accepted :: "session \<Rightarrow> nat \<Rightarrow> bool" where
  "accepted s i \<longleftrightarrow> i < next_seq s \<or> (\<exists>k v. unat k = i \<and> gm_get (reorderBuf s) k = Some v)"

definition in_window :: "session \<Rightarrow> bool" where
  "in_window s \<longleftrightarrow> (\<forall>k v. gm_get (reorderBuf s) k = Some v \<longrightarrow> unat k < next_seq s + reorderBufMax)"

lemma buf_ok_weaken: "buf_ok pay lo s \<Longrightarrow> lo' \<le> lo \<Longrightarrow> buf_ok pay lo' s"
  unfolding buf_ok_def by (meson le_trans)

lemma window_space:
  assumes "session_ok pay s" and "in_window s"
  shows "gm_len (reorderBuf s) < reorderBufMax"
proof -
  let ?ks = "map (unat \<circ> fst) (reorderBuf s)"
  have "gm_wf (reorderBuf s)" using assms(1) by (simp add: buf_ok_def)
  then have get: "gm_get (reorderBuf s) k = Some v" if "(k, v) \<in> set (reorderBuf s)" for k v
    using that by (simp add: gm_get_in_set)
  have "distinct (map fst (reorderBuf s))" using \<open>gm_wf (reorderBuf s)\<close> by (simp add: gm_wf_def)
  then have "distinct (map unat (map fst (reorderBuf s)))"
    by (subst distinct_map) (auto intro: inj_onI simp: word_unat_eq_iff)
  then have "distinct ?ks" by simp
  moreover have "set ?ks \<subseteq> {Suc (next_seq s)..<next_seq s + reorderBufMax}"
    using get buf_ok_get [OF assms(1)] assms(2) unfolding in_window_def by fastforce
  ultimately have "length ?ks \<le> card {Suc (next_seq s)..<next_seq s + reorderBufMax}"
    by (metis card_mono distinct_card finite_atLeastLessThan)
  then show ?thesis by (simp add: gm_len_def reorderBufMax_def)
qed

text \<open>One delivery of the frame that is due.\<close>

lemma deliver_due:
  assumes ok: "session_ok pay s" and sq: "next_seq s < maxSeq"
    and run: "deliverInOrder w (reorderNext s) (pay (next_seq s)) s = (e, s', out)"
  shows "session_ok pay s' \<and> next_seq s \<le> next_seq s' \<and> concat out = stream pay (next_seq s) (next_seq s') \<and>
    (e = None \<longrightarrow> next_seq s < next_seq s') \<and> ((\<forall>i. w i) \<longrightarrow> e = None) \<and>
    (\<forall>j v. e = None \<longrightarrow> next_seq s' \<le> unat j \<longrightarrow> gm_get (reorderBuf s) j = Some v \<longrightarrow> gm_get (reorderBuf s') j = Some v) \<and>
    (\<forall>j v. gm_get (reorderBuf s') j = Some v \<longrightarrow> gm_get (reorderBuf s) j = Some v)"
proof (cases "pay (next_seq s) \<noteq> [] \<and> \<not> w 0")
  case True
  then have "e = Some WriteFailed \<and> s' = s \<and> out = []" using run by (simp add: deliverInOrder_def)
  then show ?thesis using ok True by auto
next
  case False
  define s1 where "s1 = s\<lparr>reorderNext := reorderNext s + 1\<rparr>"
  have n1: "next_seq s1 = Suc (next_seq s)" and b1: "reorderBuf s1 = reorderBuf s"
    using sq by (simp_all add: s1_def unat_next)
  have ok1: "buf_ok pay (next_seq s1) s1"
    using ok sq n1 b1 unfolding buf_ok_def by simp
  obtain k out1 where d: "drain w k s1 = (e, s', out1)" and out: "concat out = pay (next_seq s) @ concat out1"
    using run False unfolding deliverInOrder_def s1_def [symmetric]
    by (cases "drain w 1 s1"; cases "drain w 0 s1") (auto split: if_splits)
  note ds = drain_stream [OF ok1 d, unfolded b1]
  then have "stream pay (next_seq s) (next_seq s') = pay (next_seq s) @ stream pay (next_seq s1) (next_seq s')"
    using stream_Cons [of "next_seq s" "next_seq s'" pay] n1 by simp
  then show ?thesis using ds n1 out by (metis Suc_le_lessD less_imp_le)
qed

lemma deliver_step:
  assumes ok: "session_ok pay s" and sq: "unat sq < maxSeq"
    and run: "deliverInOrder w sq (pay (unat sq)) s = (e, s', out)"
  shows "session_ok pay s'" and "next_seq s \<le> next_seq s'" and "concat out = stream pay (next_seq s) (next_seq s')"
    and "e = None \<Longrightarrow> accepted s' (unat sq)" and "e = None \<Longrightarrow> accepted s i \<Longrightarrow> accepted s' i"
    and "in_window s \<Longrightarrow> unat sq < next_seq s + reorderBufMax \<Longrightarrow> in_window s'"
    and "in_window s \<Longrightarrow> unat sq < next_seq s + reorderBufMax \<Longrightarrow> (\<And>i. w i) \<Longrightarrow> e = None"
proof -
  consider (dup) "unat sq < next_seq s" | (full) "unat sq > next_seq s" "gm_len (reorderBuf s) \<ge> reorderBufMax"
    | (early) "unat sq > next_seq s" "gm_len (reorderBuf s) < reorderBufMax" | (due) "unat sq = next_seq s"
    by linarith
  then have "session_ok pay s' \<and> next_seq s \<le> next_seq s' \<and> concat out = stream pay (next_seq s) (next_seq s') \<and>
     (e = None \<longrightarrow> accepted s' (unat sq)) \<and> (e = None \<longrightarrow> accepted s i \<longrightarrow> accepted s' i) \<and>
     (in_window s \<longrightarrow> unat sq < next_seq s + reorderBufMax \<longrightarrow> in_window s') \<and>
     (in_window s \<longrightarrow> unat sq < next_seq s + reorderBufMax \<longrightarrow> (\<forall>i. w i) \<longrightarrow> e = None)"
  proof cases
    case dup
    then have "e = None \<and> s' = s \<and> out = []" using run by (simp add: deliverInOrder_def word_less_nat_alt)
    then show ?thesis using ok dup by (simp add: accepted_def)
  next
    case full
    then have "e = Some BufferFull \<and> s' = s \<and> out = []" using run by (simp add: deliverInOrder_def word_less_nat_alt)
    then show ?thesis using ok full window_space [OF ok] by auto
  next
    case early
    then have eq: "e = None" "s' = s\<lparr>reorderBuf := gm_put sq (pay (unat sq)) (reorderBuf s)\<rparr>" "out = []"
      using run by (simp_all add: deliverInOrder_def word_less_nat_alt)
    have "session_ok pay s'" using ok sq early unfolding eq buf_ok_def by auto
    moreover have "accepted s' (unat sq)" and "accepted s i \<longrightarrow> accepted s' i"
      unfolding accepted_def eq by auto
    moreover have "in_window s \<longrightarrow> unat sq < next_seq s + reorderBufMax \<longrightarrow> in_window s'"
      unfolding in_window_def eq by auto
    ultimately show ?thesis by (simp add: eq)
  next
    case due
    then have "sq = reorderNext s" by (simp add: word_unat_eq_iff)
    then have "deliverInOrder w (reorderNext s) (pay (next_seq s)) s = (e, s', out)" and lt: "next_seq s < maxSeq"
      using run due sq by simp_all
    note dd = deliver_due [OF ok lt this(1)]
    have le: "next_seq s \<le> next_seq s'"
      and keep: "\<And>j v. e = None \<Longrightarrow> next_seq s' \<le> unat j \<Longrightarrow> gm_get (reorderBuf s) j = Some v \<Longrightarrow> gm_get (reorderBuf s') j = Some v"
      using dd by blast+
    have sub: "gm_get (reorderBuf s) j = Some v" if "gm_get (reorderBuf s') j = Some v" for j v
      using that dd by (elim conjE allE [of _ j] allE [of _ v]) simp
    have "accepted s' i" if e: "e = None" and "accepted s i"
      using that(2) unfolding accepted_def
    proof (elim disjE exE conjE)
      fix k v
      assume "unat k = i" and "gm_get (reorderBuf s) k = Some v"
      then show "i < next_seq s' \<or> (\<exists>k v. unat k = i \<and> gm_get (reorderBuf s') k = Some v)"
        using keep [OF e, of k v] by (cases "i < next_seq s'") auto
    qed (use le in simp)
    moreover have "in_window s'" if "in_window s"
      unfolding in_window_def
    proof (intro allI impI)
      fix k v
      assume "gm_get (reorderBuf s') k = Some v"
      then have "unat k < next_seq s + reorderBufMax" using that sub unfolding in_window_def by blast
      then show "unat k < next_seq s' + reorderBufMax" using le by linarith
    qed
    moreover have "e = None \<longrightarrow> accepted s' (unat sq)" using dd due by (simp add: accepted_def)
    ultimately show ?thesis using dd by blast
  qed
  then show "session_ok pay s'" and "next_seq s \<le> next_seq s'" and "concat out = stream pay (next_seq s) (next_seq s')"
    and "e = None \<Longrightarrow> accepted s' (unat sq)" and "e = None \<Longrightarrow> accepted s i \<Longrightarrow> accepted s' i"
    and "in_window s \<Longrightarrow> unat sq < next_seq s + reorderBufMax \<Longrightarrow> in_window s'"
    and "in_window s \<Longrightarrow> unat sq < next_seq s + reorderBufMax \<Longrightarrow> (\<And>i. w i) \<Longrightarrow> e = None"
    by blast+
qed

lemma deliver_run_ok:
  "session_ok pay s \<Longrightarrow> \<forall>(w, sq) \<in> set fs. unat sq < maxSeq \<Longrightarrow> deliver_run pay fs s = (es, s', out) \<Longrightarrow>
   session_ok pay s' \<and> next_seq s \<le> next_seq s' \<and> concat out = stream pay (next_seq s) (next_seq s') \<and>
   (set es \<subseteq> {None} \<longrightarrow> (\<forall>i. accepted s i \<or> i \<in> (unat \<circ> snd) ` set fs \<longrightarrow> accepted s' i))"
proof (induction fs arbitrary: s es out)
  case Nil
  then show ?case by simp
next
  case (Cons f fs)
  obtain w sq where f: "f = (w, sq)" by fastforce
  obtain e s1 out1 where d: "deliverInOrder w sq (pay (unat sq)) s = (e, s1, out1)" by (metis prod.exhaust)
  obtain es2 s2 out2 where r: "deliver_run pay fs s1 = (es2, s2, out2)" by (metis prod.exhaust)
  have eq: "es = e # es2" "s' = s2" "out = out1 @ out2" using Cons.prems(3) by (auto simp: f d r)
  have sq: "unat sq < maxSeq" and fs: "\<forall>(w, sq) \<in> set fs. unat sq < maxSeq" using Cons.prems(2) by (auto simp: f)
  note st = deliver_step [OF Cons.prems(1) sq d]
  note ih = Cons.IH [OF st(1) fs r [folded eq(2)]]
  have "concat out = stream pay (next_seq s) (next_seq s')"
    using ih st(2,3) stream_append [of "next_seq s" "next_seq s1" "next_seq s'" pay] by (simp add: eq)
  moreover have "accepted s' i" if "set es \<subseteq> {None}" "accepted s i \<or> i \<in> (unat \<circ> snd) ` set (f # fs)" for i
  proof -
    have "e = None" and "set es2 \<subseteq> {None}" using that(1) by (auto simp: eq)
    then have "accepted s1 i \<or> i \<in> (unat \<circ> snd) ` set fs" using that(2) st(4,5) by (auto simp: f)
    then show ?thesis using ih \<open>set es2 \<subseteq> {None}\<close> by blast
  qed
  ultimately show ?case using ih st(2) by (meson le_trans)
qed

lemma accepted_prefix:
  assumes "session_ok pay s" and "\<forall>i \<in> {1..n}. accepted s i"
  shows "n < next_seq s"
proof (rule ccontr)
  assume "\<not> n < next_seq s"
  then have "accepted s (next_seq s)" using assms by (auto simp: buf_ok_def)
  then show False using buf_ok_get [OF assms(1)] unfolding accepted_def by fastforce
qed

lemma new_session_ok [simp]: "session_ok pay (new_session now c u)" "in_window (new_session now c u)"
  by (simp_all add: buf_ok_def in_window_def new_session_def maxSeq_def)

lemma next_new_session [simp]: "next_seq (new_session now c u) = 1"
  by (simp add: new_session_def)


definition sample_frames :: "((nat \<Rightarrow> bool) \<times> 32 word) list" where
  "sample_frames = [(\<lambda>i. True, 3), (\<lambda>i. True, 1), (\<lambda>i. True, 3), (\<lambda>i. True, 2), (\<lambda>i. True, 1)]"

definition sample_pay :: "nat \<Rightarrow> bytes" where "sample_pay i = [of_nat i, 0]"

lemma sample_frames_ok: "\<forall>(w, sq) \<in> set sample_frames. unat sq < maxSeq"
  by (simp add: sample_frames_def maxSeq_def)


text \<open>The sender's window: every frame arrives less than \<open>reorderBufMax\<close> above the number expected then.\<close>

fun windowed :: "(nat \<Rightarrow> bytes) \<Rightarrow> ((nat \<Rightarrow> bool) \<times> 32 word) list \<Rightarrow> session \<Rightarrow> bool" where
  "windowed pay [] s \<longleftrightarrow> True"
| "windowed pay ((w, sq) # fs) s \<longleftrightarrow> unat sq < next_seq s + reorderBufMax \<and>
     windowed pay fs (fst (snd (deliverInOrder w sq (pay (unat sq)) s)))"

lemma windowed_no_error:
  "session_ok pay s \<Longrightarrow> in_window s \<Longrightarrow> \<forall>(w, sq) \<in> set fs. unat sq < maxSeq \<and> (\<forall>i. w i) \<Longrightarrow> windowed pay fs s \<Longrightarrow>
   deliver_run pay fs s = (es, s', out) \<Longrightarrow> set es \<subseteq> {None}"
proof (induction fs arbitrary: s es out)
  case Nil
  then show ?case by simp
next
  case (Cons f fs)
  obtain w sq where f: "f = (w, sq)" by fastforce
  obtain e s1 out1 where d: "deliverInOrder w sq (pay (unat sq)) s = (e, s1, out1)" by (metis prod.exhaust)
  obtain es2 s2 out2 where r: "deliver_run pay fs s1 = (es2, s2, out2)" by (metis prod.exhaust)
  have eq: "es = e # es2" "s' = s2" using Cons.prems(5) by (auto simp: f d r)
  have sq: "unat sq < maxSeq" and w: "\<And>i. w i" and fs: "\<forall>(w, sq) \<in> set fs. unat sq < maxSeq \<and> (\<forall>i. w i)"
    using Cons.prems(3) by (auto simp: f)
  have win: "unat sq < next_seq s + reorderBufMax" "windowed pay fs s1" using Cons.prems(4) by (simp_all add: f d)
  note st = deliver_step [OF Cons.prems(1) sq d]
  have "set es2 \<subseteq> {None}"
    using Cons.IH [OF st(1) st(6) [OF Cons.prems(2) win(1)] fs win(2)] r by (simp add: eq)
  then show ?case using st(7) [OF Cons.prems(2) win(1) w] by (simp add: eq)
qed

text \<open>Property C13: (delivery completes) when the writes succeed and the sender never runs more than
  31 frames ahead of the number expected, no delivery is refused, and once the frames 1 to \<open>n\<close> have
  all arrived, in whatever order, the target has received all of them.\<close>

theorem delivery_complete:
  assumes "\<forall>(w, sq) \<in> set fs. unat sq < maxSeq \<and> (\<forall>i. w i)" and "windowed pay fs (new_session now c u)"
    and "{1..n} \<subseteq> (unat \<circ> snd) ` set fs"
    and "deliver_run pay fs (new_session now c u) = (es, s', out)"
  shows "set es \<subseteq> {None} \<and> (\<exists>rest. concat out = stream pay 1 (Suc n) @ rest)"
proof -
  have fs: "\<forall>(w, sq) \<in> set fs. unat sq < maxSeq" using assms(1) by auto
  have none: "set es \<subseteq> {None}"
    by (rule windowed_no_error [OF new_session_ok assms(1,2,4)])
  note run = deliver_run_ok [OF new_session_ok(1) fs assms(4)]
  have "n < next_seq s'" using run none assms(3) by (intro accepted_prefix [of pay]) auto
  then have "concat out = stream pay 1 (Suc n) @ stream pay (Suc n) (next_seq s')"
    using run stream_append [of 1 "Suc n" "next_seq s'" pay] by simp
  then show ?thesis using none by blast
qed

theorem delivery_complete_witness:
  "\<exists>es s' out. deliver_run sample_pay sample_frames (new_session 0 7 ''u'') = (es, s', out) \<and>
     set es \<subseteq> {None} \<and> (\<exists>rest. concat out = stream sample_pay 1 (Suc 3) @ rest)"
proof -
  have "windowed sample_pay sample_frames (new_session 0 7 ''u'')" by code_simp
  moreover have "\<forall>(w, sq) \<in> set sample_frames. unat sq < maxSeq \<and> (\<forall>i. w i)"
    by (simp add: sample_frames_def maxSeq_def)
  moreover have "{1..3} \<subseteq> (unat \<circ> snd) ` set sample_frames"
    by (auto simp: sample_frames_def)
  ultimately show ?thesis using delivery_complete [of sample_frames sample_pay 0 7 "''u''" 3] by (metis prod.exhaust)
qed

end
