(* ===== verification/Json.thy ===== *)
theory Json
  imports Go_Lib
begin

text \<open>
  The part of \<open>encoding/json\<close> the servers use on received bodies: syntax trees, decoding an object
  into a struct with string and bool fields, and into a \<open>map[string]json.RawMessage\<close>. The scanner
  from bytes to trees is the argument \<open>parse\<close> of the definitions that decode; every theorem holds
  for any such function.
\<close>

datatype json = JNull | JBool bool | JNum string | JStr string | JArr "json list" | JObj "(string \<times> json) list"

type_synonym json_parser = "bytes \<Rightarrow> json option"

text \<open>The members seen by a struct or a map: \<open>null\<close> leaves the target as it is, another value that is
  no object is a type error.\<close>

definition json_members :: "json \<Rightarrow> (string \<times> json) list option" where
  "json_members j = (case j of JObj kvs \<Rightarrow> Some kvs | JNull \<Rightarrow> Some [] | _ \<Rightarrow> None)"

text \<open>Struct fields are matched ignoring case, in the order of the input, the last one winning; a
  \<open>null\<close> is skipped and a value of another type is an error of the whole decoding.\<close>

definition fold_name :: "string \<Rightarrow> string" where "fold_name = map to_lower"

fun string_field :: "string \<Rightarrow> (string \<times> json) list \<Rightarrow> string \<Rightarrow> string option" where
  "string_field name [] cur = Some cur"
| "string_field name ((k, v) # kvs) cur =
     (if fold_name k = fold_name name then
        (case v of JStr s \<Rightarrow> string_field name kvs s | JNull \<Rightarrow> string_field name kvs cur | _ \<Rightarrow> None)
      else string_field name kvs cur)"

fun bool_field :: "string \<Rightarrow> (string \<times> json) list \<Rightarrow> bool \<Rightarrow> bool option" where
  "bool_field name [] cur = Some cur"
| "bool_field name ((k, v) # kvs) cur =
     (if fold_name k = fold_name name then
        (case v of JBool b \<Rightarrow> bool_field name kvs b | JNull \<Rightarrow> bool_field name kvs cur | _ \<Rightarrow> None)
      else bool_field name kvs cur)"

text \<open>A raw map has exact keys, the last one winning; the string under a key is empty when the key is
  missing or its value is no string.\<close>

definition raw_string :: "(string \<times> json) list \<Rightarrow> string \<Rightarrow> string" where
  "raw_string kvs key = (case map_of (rev kvs) key of Some (JStr s) \<Rightarrow> s | _ \<Rightarrow> [])"

text \<open>An \<open>int64\<close> field takes a number literal without fraction or exponent that is in range.\<close>

fun int_field :: "string \<Rightarrow> (string \<times> json) list \<Rightarrow> int \<Rightarrow> int option" where
  "int_field name [] cur = Some cur"
| "int_field name ((k, v) # kvs) cur =
     (if fold_name k = fold_name name then
        (case v of JNum s \<Rightarrow> (case parse_int64 s of None \<Rightarrow> None | Some i \<Rightarrow> int_field name kvs i)
         | JNull \<Rightarrow> int_field name kvs cur | _ \<Rightarrow> None)
      else int_field name kvs cur)"

text \<open>A field that is a slice of structs with one string field; \<open>null\<close> makes the slice nil.\<close>

definition struct_string :: "string \<Rightarrow> json \<Rightarrow> string option" where
  "struct_string name j = (case json_members j of None \<Rightarrow> None | Some kvs \<Rightarrow> string_field name kvs [])"

fun structs_field :: "string \<Rightarrow> string \<Rightarrow> (string \<times> json) list \<Rightarrow> string list \<Rightarrow> string list option" where
  "structs_field name inner [] cur = Some cur"
| "structs_field name inner ((k, v) # kvs) cur =
     (if fold_name k = fold_name name then
        (case v of JArr js \<Rightarrow> (case those (map (struct_string inner) js) of None \<Rightarrow> None
             | Some ss \<Rightarrow> structs_field name inner kvs ss)
         | JNull \<Rightarrow> structs_field name inner kvs [] | _ \<Rightarrow> None)
      else structs_field name inner kvs cur)"

end
