(* ===== verification/Http.thy ===== *)
theory Http
  imports Go_Lib
begin

text \<open>Outgoing HTTP requests and what \<open>net/http\<close> makes of them, as the nodes use it.\<close>

record request =
  rq_method :: string
  rq_url :: string
  rq_header :: "(string \<times> string) list"
  rq_body :: bytes

text \<open>\<open>http.NewRequest\<close> may refuse the URL, \<open>Do\<close> may fail, or there is a response.\<close>

datatype http_result = BadRequest | DoFailed | Response int bytes

end
