(* ===== verification/Exit_Auth.thy ===== *)
theory Exit_Auth
  imports Json Http
begin

text \<open>
  Authentication at the exit node (\<open>src/snc-exit/auth.go\<close>): the cache of session verdicts and the
  cache of logins, both of which bridge outages of the arbiter. The arbiter is an argument: a
  function from requests to what the HTTP client gets for them. \<open>meanwhile\<close> is what other
  goroutines do to the client's state between the two critical sections of an operation.
\<close>

section \<open>State\<close>

type_synonym arbiter = "request \<Rightarrow> http_result"

text \<open>What \<open>encoding/json\<close> and \<open>crypto/sha256\<close> compute.\<close>

record auth_env =
  parse :: json_parser
  marshal_obj :: "(string \<times> string) list \<Rightarrow> bytes"
  sha256 :: "bytes \<Rightarrow> bytes"

definition localCacheTTL :: duration where "localCacheTTL = minute"
definition localStaleTTL :: duration where "localStaleTTL = 3 * hour"
definition authCacheTTL :: duration where "authCacheTTL = 5 * minute"
definition authStaleTTL :: duration where "authStaleTTL = 24 * hour"

record cacheEntry =
  username :: string
  clientID :: string
  denied :: bool
  validatedAt :: gotime

record authResultEntry =
  are_body :: bytes
  cachedAt :: gotime

record authClient =
  arbiterURL :: string
  nodeToken :: string
  ac_cache :: "(string, cacheEntry) gomap"
  authCache :: "(string, authResultEntry) gomap"

definition TrimRight_slash :: "string \<Rightarrow> string" where
  "TrimRight_slash s = rev (dropWhile (\<lambda>c. c = CHR ''/'') (rev s))"

definition newAuthClient :: "string \<Rightarrow> string \<Rightarrow> authClient" where
  "newAuthClient url tok = \<lparr>arbiterURL = TrimRight_slash url, nodeToken = tok, ac_cache = gm_empty, authCache = gm_empty\<rparr>"

section \<open>Session verdicts\<close>

type_synonym verdict = "string \<times> string \<times> bool"

definition decode_verdict :: "auth_env \<Rightarrow> bytes \<Rightarrow> verdict option" where
  "decode_verdict E raw = (case parse E raw of None \<Rightarrow> None | Some j \<Rightarrow>
     (case json_members j of None \<Rightarrow> None | Some kvs \<Rightarrow>
      (case (string_field ''user'' kvs [], string_field ''client_id'' kvs [], bool_field ''denied'' kvs False) of
         (Some u, Some c, Some d) \<Rightarrow> Some (u, c, d) | _ \<Rightarrow> None)))"

text \<open>\<open>None\<close> is an error. The status of the response is not looked at.\<close>

definition queryArbiter :: "auth_env \<Rightarrow> arbiter \<Rightarrow> string \<Rightarrow> authClient \<Rightarrow> verdict option" where
  "queryArbiter E arb token a =
     (case arb \<lparr>rq_method = ''POST'', rq_url = arbiterURL a @ ''/api/session/validate'',
        rq_header = [(''Content-Type'', ''application/json''), (''X-Node-Token'', nodeToken a)],
        rq_body = marshal_obj E [(''session'', token)]\<rparr>
      of BadRequest \<Rightarrow> None | DoFailed \<Rightarrow> None | Response st raw \<Rightarrow> decode_verdict E raw)"

definition evict_verdicts :: "gotime \<Rightarrow> (string, cacheEntry) gomap \<Rightarrow> (string, cacheEntry) gomap" where
  "evict_verdicts now m = gm_sweep (\<lambda>k e. validatedAt e < now - localStaleTTL) m"

text \<open>The answer: username, client and denial, and whether the failure is transient. First the part
  of \<open>validateSession\<close> that asks the arbiter, with the expired entry to fall back on.\<close>

abbreviation verdict_of :: "cacheEntry \<Rightarrow> verdict" where
  "verdict_of e \<equiv> (username e, clientID e, denied e)"

definition ask_arbiter :: "auth_env \<Rightarrow> arbiter \<Rightarrow> gotime \<Rightarrow> (authClient \<Rightarrow> authClient) \<Rightarrow> string \<Rightarrow> cacheEntry option \<Rightarrow>
    authClient \<Rightarrow> (verdict \<times> bool) \<times> authClient" where
  "ask_arbiter E arb now meanwhile token stale a =
     (case queryArbiter E arb token a of
        None \<Rightarrow> (case stale of Some e \<Rightarrow> (verdict_of e, False) | None \<Rightarrow> (([], [], False), True), meanwhile a)
      | Some (u, c, d) \<Rightarrow>
          (let a1 = meanwhile a; e = \<lparr>username = u, clientID = c, denied = d, validatedAt = now\<rparr> in
           (((u, c, d), False), a1\<lparr>ac_cache := evict_verdicts now (gm_put token e (ac_cache a1))\<rparr>)))"

definition validateSession :: "auth_env \<Rightarrow> arbiter \<Rightarrow> gotime \<Rightarrow> (authClient \<Rightarrow> authClient) \<Rightarrow> string \<Rightarrow> authClient \<Rightarrow>
    (verdict \<times> bool) \<times> authClient" where
  "validateSession E arb now meanwhile token a =
     (case gm_get (ac_cache a) token of
        Some e \<Rightarrow> if time_sub now (validatedAt e) < localCacheTTL then ((verdict_of e, False), a)
                   else ask_arbiter E arb now meanwhile token (Some e) a
      | None \<Rightarrow> ask_arbiter E arb now meanwhile token None a)"

section \<open>Manifests\<close>

definition get_request :: "string \<Rightarrow> authClient \<Rightarrow> request" where
  "get_request path a = \<lparr>rq_method = ''GET'', rq_url = arbiterURL a @ path,
     rq_header = [(''X-Node-Token'', nodeToken a)], rq_body = []\<rparr>"

definition fetch_result :: "http_result \<Rightarrow> bytes option" where
  "fetch_result r = (case r of Response st raw \<Rightarrow> if st \<noteq> 200 then None else Some (take (4 * 2 ^ 20) raw) | _ \<Rightarrow> None)"

definition fetchManifest :: "arbiter \<Rightarrow> authClient \<Rightarrow> bytes option" where
  "fetchManifest arb a = fetch_result (arb (get_request ''/api/manifest'' a))"

definition fetchClubManifest :: "arbiter \<Rightarrow> string \<Rightarrow> authClient \<Rightarrow> bytes option" where
  "fetchClubManifest arb slug a = fetch_result (arb (get_request (''/api/club-manifest?club='' @ slug) a))"

section \<open>Logins\<close>

definition looksLikeAuthSuccess :: "auth_env \<Rightarrow> bytes \<Rightarrow> bool" where
  "looksLikeAuthSuccess E raw = (case parse E raw of None \<Rightarrow> False | Some j \<Rightarrow>
     (case json_members j of None \<Rightarrow> False | Some kvs \<Rightarrow>
      (case string_field ''session'' kvs [] of None \<Rightarrow> False | Some s \<Rightarrow> s \<noteq> [])))"

definition authDeviceKey :: "auth_env \<Rightarrow> string \<Rightarrow> bytes \<Rightarrow> string" where
  "authDeviceKey E command body = (case parse E body of None \<Rightarrow> [] | Some j \<Rightarrow>
     (case json_members j of None \<Rightarrow> [] | Some kvs \<Rightarrow>
      (let i = raw_string kvs ''device_id'' in
       if i \<noteq> [] then ''dev:'' @ i
       else let u = raw_string kvs ''username''; user = (if u = [] then raw_string kvs ''user'' else u) in
         if user = [] then [] else ''user:'' @ hex_encode (sha256 E (str_bytes (command @ '':'' @ user))))))"

definition internal_error :: bytes where "internal_error = str_bytes ''{\"error\":\"internal\"}''"
definition transient_error :: bytes where
  "transient_error = str_bytes ''{\"error\":\"arbiter_unavailable\",\"transient\":true}''"

definition deferredOrTransient :: "gotime \<Rightarrow> string \<Rightarrow> authClient \<Rightarrow> bytes \<times> int" where
  "deferredOrTransient now key a =
     (case (if key \<noteq> [] then gm_get (authCache a) key else None) of
        Some e \<Rightarrow> if time_sub now (cachedAt e) < authStaleTTL then (are_body e, 200) else (transient_error, 503)
      | None \<Rightarrow> (transient_error, 503))"

definition cachedAuth :: "gotime \<Rightarrow> string \<Rightarrow> authClient \<Rightarrow> bytes option" where
  "cachedAuth now key a = (if key = [] then None else
     (case gm_get (authCache a) key of None \<Rightarrow> None
      | Some e \<Rightarrow> if time_sub now (cachedAt e) \<ge> authStaleTTL then None else Some (are_body e)))"

definition evict_logins :: "gotime \<Rightarrow> (string, authResultEntry) gomap \<Rightarrow> (string, authResultEntry) gomap" where
  "evict_logins now m = gm_sweep (\<lambda>k e. cachedAt e < now - authStaleTTL) m"

definition auth_request :: "string \<Rightarrow> string \<Rightarrow> bytes \<Rightarrow> authClient \<Rightarrow> request" where
  "auth_request path xsession body a = \<lparr>rq_method = ''POST'', rq_url = arbiterURL a @ path,
     rq_header = [(''Content-Type'', ''application/json''), (''X-Node-Token'', nodeToken a)] @
       (if xsession \<noteq> [] then [(''X-Session'', xsession)] else []),
     rq_body = body\<rparr>"

text \<open>The part of \<open>authenticate\<close> after the cache lookup.\<close>

definition login :: "auth_env \<Rightarrow> arbiter \<Rightarrow> gotime \<Rightarrow> gotime \<Rightarrow> (authClient \<Rightarrow> authClient) \<Rightarrow> string \<Rightarrow> string \<Rightarrow> string \<Rightarrow>
    bytes \<Rightarrow> authClient \<Rightarrow> (bytes \<times> int) \<times> authClient" where
  "login E arb now later meanwhile path xsession key body a =
     (case arb (auth_request path xsession body a) of
        BadRequest \<Rightarrow> ((internal_error, 500), a)
      | DoFailed \<Rightarrow> (let a1 = meanwhile a in (deferredOrTransient later key a1, a1))
      | Response st full \<Rightarrow>
          (let a1 = meanwhile a; raw = take (2 ^ 20) full in
           if st \<noteq> 200 \<or> \<not> looksLikeAuthSuccess E raw then ((raw, st), a1)
           else ((raw, 200), if key \<noteq> [] then a1\<lparr>authCache := evict_logins now
                  (gm_put key \<lparr>are_body = raw, cachedAt = now\<rparr> (authCache a1))\<rparr> else a1)))"

text \<open>\<open>later\<close> is the clock when a failed request is answered from the cache.\<close>

definition authenticate :: "auth_env \<Rightarrow> arbiter \<Rightarrow> gotime \<Rightarrow> gotime \<Rightarrow> (authClient \<Rightarrow> authClient) \<Rightarrow> string \<Rightarrow> string \<Rightarrow> string \<Rightarrow>
    bytes \<Rightarrow> authClient \<Rightarrow> (bytes \<times> int) \<times> authClient" where
  "authenticate E arb now later meanwhile path xsession command body a =
     (let key = authDeviceKey E command body in
      case (if key \<noteq> [] then gm_get (authCache a) key else None) of
        Some e \<Rightarrow>
          if time_sub now (cachedAt e) < authCacheTTL then ((are_body e, 200), a)
          else login E arb now later meanwhile path xsession key body a
      | None \<Rightarrow> login E arb now later meanwhile path xsession key body a)"

section \<open>Where verdicts come from\<close>

lemmas auth_ttls = localCacheTTL_def localStaleTTL_def authCacheTTL_def authStaleTTL_def

interpretation verdicts: idle_sweep evict_verdicts validatedAt localStaleTTL
  by unfold_locales (auto simp: evict_verdicts_def gm_get_sweep split: option.splits)

interpretation logins: idle_sweep evict_logins cachedAt authStaleTTL
  by unfold_locales (auto simp: evict_logins_def gm_get_sweep split: option.splits)

text \<open>A sequence of session checks, each with its time, the arbiter as it is then, and the token.\<close>

type_synonym check_call = "gotime \<times> arbiter \<times> string"

fun validate_run :: "auth_env \<Rightarrow> check_call list \<Rightarrow> authClient \<Rightarrow> (verdict \<times> bool) list \<times> authClient" where
  "validate_run E [] a = ([], a)"
| "validate_run E ((now, arb, token) # cs) a =
     (case validateSession E arb now (\<lambda>a. a) token a of (r, a1) \<Rightarrow>
      case validate_run E cs a1 of (rs, a2) \<Rightarrow> (r # rs, a2))"

text \<open>An answer is backed by the calls in \<open>H\<close>: the verdict is the arbiter's own for this very token,
  given just now, or less than a minute ago, or earlier when the arbiter cannot be asked now.\<close>

definition backed :: "auth_env \<Rightarrow> authClient \<Rightarrow> check_call set \<Rightarrow> check_call \<Rightarrow> verdict \<times> bool \<Rightarrow> bool" where
  "backed E a H c r \<longleftrightarrow> (case (c, r) of ((now, arb, token), (v, transient)) \<Rightarrow>
     if transient then v = ([], [], False) \<and> queryArbiter E arb token a = None
     else (\<exists>t b. (t, b, token) \<in> H \<and> queryArbiter E b token a = Some v \<and>
            ((t, b) = (now, arb) \<or> now - t < localCacheTTL \<or> queryArbiter E arb token a = None)))"

definition cache_backed :: "auth_env \<Rightarrow> check_call set \<Rightarrow> authClient \<Rightarrow> bool" where
  "cache_backed E H a \<longleftrightarrow> gm_wf (ac_cache a) \<and>
     (\<forall>token e. gm_get (ac_cache a) token = Some e \<longrightarrow>
        (\<exists>b. (validatedAt e, b, token) \<in> H \<and> queryArbiter E b token a = Some (verdict_of e)))"

lemma queryArbiter_cache [simp]: "queryArbiter E arb token (a\<lparr>ac_cache := m\<rparr>) = queryArbiter E arb token a"
  by (simp add: queryArbiter_def)

lemma cache_backed_mono: "cache_backed E H a \<Longrightarrow> H \<subseteq> H' \<Longrightarrow> cache_backed E H' a"
  unfolding cache_backed_def by blast

lemma cache_backed_get:
  "cache_backed E H a \<Longrightarrow> gm_get (ac_cache a) token = Some e \<Longrightarrow>
   \<exists>b. (validatedAt e, b, token) \<in> H \<and> queryArbiter E b token a = Some (verdict_of e)"
  unfolding cache_backed_def by blast

lemma ask_arbiter_backed:
  assumes inv: "cache_backed E H a" and call: "(now, arb, token) \<in> H" and stale: "stale = gm_get (ac_cache a) token"
    and run: "ask_arbiter E arb now (\<lambda>a. a) token stale a = (r, a')"
  shows "backed E a H (now, arb, token) r \<and> cache_backed E H a' \<and> queryArbiter E b t a' = queryArbiter E b t a"
proof (cases "queryArbiter E arb token a")
  case None
  show ?thesis
  proof (cases stale)
    case None
    then show ?thesis using \<open>queryArbiter E arb token a = None\<close> inv run by (auto simp: ask_arbiter_def backed_def)
  next
    case (Some e)
    then have "\<exists>b. (validatedAt e, b, token) \<in> H \<and> queryArbiter E b token a = Some (verdict_of e)"
      using stale by (intro cache_backed_get [OF inv]) simp
    then show ?thesis using None Some inv run by (auto simp: ask_arbiter_def backed_def)
  qed
next
  case (Some v)
  obtain u c d where v: "v = (u, c, d)" by (cases v)
  define e where "e = \<lparr>username = u, clientID = c, denied = d, validatedAt = now\<rparr>"
  have eq: "r = (v, False)" "a' = a\<lparr>ac_cache := evict_verdicts now (gm_put token e (ac_cache a))\<rparr>"
    using run Some by (simp_all add: ask_arbiter_def v e_def Let_def)
  have wf: "gm_wf (gm_put token e (ac_cache a))" using inv by (simp add: cache_backed_def)
  have "\<exists>b. (validatedAt e', b, t) \<in> H \<and> queryArbiter E b t a = Some (verdict_of e')"
    if "gm_get (ac_cache a') t = Some e'" for t e'
  proof -
    have "gm_get (gm_put token e (ac_cache a)) t = Some e'" using verdicts.kept_fresh [OF wf] that by (simp add: eq)
    then show ?thesis
      using call Some cache_backed_get [OF inv, of t e'] by (auto simp: e_def v split: if_splits)
  qed
  then have "cache_backed E H a'"
    using verdicts.sweep_wf [OF wf] by (simp add: cache_backed_def eq)
  moreover have "backed E a H (now, arb, token) r" using call Some by (auto simp: backed_def eq)
  ultimately show ?thesis by (simp add: eq)
qed

lemma validateSession_backed:
  assumes inv: "cache_backed E H a" and call: "(now, arb, token) \<in> H"
    and run: "validateSession E arb now (\<lambda>a. a) token a = (r, a')"
  shows "backed E a H (now, arb, token) r \<and> cache_backed E H a' \<and> queryArbiter E b t a' = queryArbiter E b t a"
proof (cases "gm_get (ac_cache a) token")
  case None
  then show ?thesis using ask_arbiter_backed [OF inv call] run by (simp add: validateSession_def)
next
  case (Some e)
  show ?thesis
  proof (cases "time_sub now (validatedAt e) < localCacheTTL")
    case True
    then have "now - validatedAt e < localCacheTTL" by (simp add: auth_ttls go_time duration_defs)
    moreover have "r = (verdict_of e, False)" "a' = a" using run Some True by (simp_all add: validateSession_def)
    ultimately show ?thesis using inv cache_backed_get [OF inv Some] by (auto simp: backed_def)
  next
    case False
    then show ?thesis using ask_arbiter_backed [OF inv call] run Some by (simp add: validateSession_def)
  qed
qed

lemma validate_run_backed:
  "cache_backed E H a \<Longrightarrow> validate_run E cs a = (rs, a') \<Longrightarrow> i < length cs \<Longrightarrow>
   backed E a (H \<union> set (take (Suc i) cs)) (cs ! i) (rs ! i)"
proof (induction cs arbitrary: H a rs i)
  case (Cons c cs)
  obtain now arb token where c: "c = (now, arb, token)" by (cases c)
  obtain r a1 where st: "validateSession E arb now (\<lambda>a. a) token a = (r, a1)" by fastforce
  obtain rs1 where r: "validate_run E cs a1 = (rs1, a')" and rs: "rs = r # rs1"
    using Cons.prems(2) st by (auto simp: c split: prod.splits)
  let ?H = "insert c H"
  have inv: "cache_backed E ?H a" using Cons.prems(1) cache_backed_mono by blast
  note s1 = validateSession_backed [OF inv _ st, unfolded c]
  have q: "queryArbiter E b t a1 = queryArbiter E b t a" for b t using s1 by (simp add: c)
  show ?case
  proof (cases i)
    case 0
    then show ?thesis using s1 by (simp add: c rs)
  next
    case (Suc n)
    have "backed E a1 (?H \<union> set (take (Suc n) cs)) (cs ! n) (rs1 ! n)"
      using s1 Cons.prems(3) Suc by (intro Cons.IH [OF _ r]) (simp_all add: c)
    then have "backed E a (?H \<union> set (take (Suc n) cs)) (cs ! n) (rs1 ! n)" unfolding backed_def q .
    moreover have "H \<union> set (take (Suc i) (c # cs)) = ?H \<union> set (take (Suc n) cs)" by (simp add: Suc)
    ultimately show ?thesis by (simp add: Suc rs)
  qed
qed simp


text \<open>A small environment for concrete runs: bodies are one byte long.\<close>

definition sample_parse :: json_parser where
  "sample_parse b =
     (if b = [1] then Some (JObj [(''device_id'', JStr ''d''), (''password'', JStr ''right'')])
      else if b = [2] then Some (JObj [(''device_id'', JStr ''d''), (''password'', JStr ''wrong'')])
      else if b = [3] then Some (JObj [(''session'', JStr ''s'')])
      else if b = [4] then Some (JObj [(''user'', JStr ''u''), (''client_id'', JStr ''c''), (''denied'', JBool True)])
      else if b = [5] then Some (JObj [(''error'', JStr ''db'')])
      else None)"

definition sample_auth_env :: auth_env where
  "sample_auth_env = \<lparr>parse = sample_parse, marshal_obj = (\<lambda>kvs. concat (map (str_bytes \<circ> snd) kvs)), sha256 = (\<lambda>b. b)\<rparr>"


text \<open>Verdicts survive an outage: while the arbiter cannot be reached, an exit answers
  every check of a known token with the verdict it has, denied or allowed, at whatever age, and
  every check of an unknown token as transient; its caches do not change.\<close>

theorem outage_keeps_verdicts:
  assumes "\<forall>(now, arb, token) \<in> set cs. \<forall>rq. arb rq \<in> {BadRequest, DoFailed}"
  shows "validate_run E cs a =
    (map (\<lambda>(now, arb, token). case gm_get (ac_cache a) token of
        Some e \<Rightarrow> ((username e, clientID e, denied e), False) | None \<Rightarrow> (([], [], False), True)) cs, a)"
  using assms
proof (induction cs)
  case (Cons c cs)
  obtain now arb token where c: "c = (now, arb, token)" by (cases c)
  have "arb rq = BadRequest \<or> arb rq = DoFailed" for rq using Cons.prems by (simp add: c)
  then have "queryArbiter E arb token a = None"
    unfolding queryArbiter_def by (metis (lifting) http_result.simps(8,9))
  then have "validateSession E arb now (\<lambda>a. a) token a =
     (case gm_get (ac_cache a) token of Some e \<Rightarrow> (verdict_of e, False) | None \<Rightarrow> (([], [], False), True), a)"
    by (auto simp: validateSession_def ask_arbiter_def split: option.splits)
  then show ?case using Cons by (simp add: c)
qed simp

theorem outage_keeps_verdicts_witness:
  "validate_run sample_auth_env [(10 * hour, \<lambda>r. DoFailed, ''t''), (20 * hour, \<lambda>r. BadRequest, ''x'')]
     \<lparr>arbiterURL = [], nodeToken = [], ac_cache = [(''t'', \<lparr>username = ''u'', clientID = ''c'', denied = True, validatedAt = 0\<rparr>)],
       authCache = []\<rparr> =
   ([((''u'', ''c'', True), False), (([], [], False), True)],
    \<lparr>arbiterURL = [], nodeToken = [], ac_cache = [(''t'', \<lparr>username = ''u'', clientID = ''c'', denied = True, validatedAt = 0\<rparr>)],
       authCache = []\<rparr>)"
  by (subst outage_keeps_verdicts) (simp_all add: gm_get_def)

text \<open>An error response of the arbiter with a JSON body, whatever its status, counts as a verdict
  that allows the session, and replaces a cached denial.\<close>

lemma error_response_allows:
  "queryArbiter sample_auth_env (\<lambda>r. Response 500 [5]) token a = Some ([], [], False)"
  by (simp add: queryArbiter_def decode_verdict_def sample_auth_env_def sample_parse_def json_members_def
      fold_name_def to_lower_def)

section \<open>Cached logins\<close>

lemma login_stores:
  assumes wf: "gm_wf (authCache a)" and key: "authDeviceKey E command body \<noteq> []"
    and miss: "gm_get (authCache a) (authDeviceKey E command body) = None"
    and reply: "arb (auth_request path xs body a) = Response 200 full" "looksLikeAuthSuccess E (take (2 ^ 20) full)"
    and first: "authenticate E arb t later (\<lambda>a. a) path xs command body a = (r, a1)"
  shows "r = (take (2 ^ 20) full, 200) \<and>
    gm_get (authCache a1) (authDeviceKey E command body) = Some \<lparr>are_body = take (2 ^ 20) full, cachedAt = t\<rparr>"
proof -
  define k e where "k = authDeviceKey E command body" and "e = \<lparr>are_body = take (2 ^ 20) full, cachedAt = t\<rparr>"
  have eq: "r = (take (2 ^ 20) full, 200)" "a1 = a\<lparr>authCache := evict_logins t (gm_put k e (authCache a))\<rparr>"
    using first key miss reply unfolding authenticate_def login_def k_def [symmetric] e_def [symmetric]
    by (auto simp: Let_def e_def)
  have "gm_get (evict_logins t (gm_put k e (authCache a))) k = Some e"
    by (rule logins.fresh_kept) (use wf in \<open>simp_all add: e_def auth_ttls duration_defs\<close>)
  then show ?thesis by (simp add: eq k_def [symmetric] e_def [symmetric]) (simp add: e_def)
qed



text \<open>While the arbiter is down a device gets its last session for up to 24 hours, then a transient
  error; the exit's answer to a peer agrees with it.\<close>

lemma outage_login:
  assumes "arb (auth_request path xs body a) = DoFailed" and "later \<ge> now"
    and "key = authDeviceKey E command body" and "gm_get (authCache a) key = Some e" and "key \<noteq> []"
    and "now - cachedAt e \<ge> authCacheTTL"
  shows "fst (authenticate E arb now later (\<lambda>a. a) path xs command body a) =
    (case cachedAuth later key a of Some b \<Rightarrow> (b, 200) | None \<Rightarrow> (transient_error, 503))"
proof -
  have "\<not> time_sub now (cachedAt e) < authCacheTTL" using assms(6) by (simp add: auth_ttls go_time duration_defs)
  then show ?thesis
    using assms by (auto simp: authenticate_def login_def deferredOrTransient_def cachedAuth_def Let_def)
qed

end
