(* ===== verification/Exit_NodeProxy.thy ===== *)
theory Exit_NodeProxy
  imports Exit_Auth
begin

text \<open>
  The exit's endpoints for control nodes (\<open>src/snc-exit/node_proxy.go\<close>): the signed refresh signal, the
  proxy to the arbiter, the login cache, the update files and the probe. An incoming request is a
  record; the answer is a response with the effects the handler has. The manifest, the files, name
  resolution and outgoing requests are arguments.
\<close>

section \<open>Requests and answers\<close>

record incoming =
  in_method :: string
  in_path :: string
  in_query :: "(string \<times> string) list"
  in_header :: "(string \<times> string) list"
  in_body :: bytes
  in_remote :: string

datatype np_effect = GoTriggerRefresh | ProxyToArbiter string

datatype answer = Answer int bytes | Forwarded

definition http_error :: "string \<Rightarrow> int \<Rightarrow> answer" where
  "http_error msg st = Answer st (str_bytes (msg @ [CHR 0x0A]))"

definition not_found :: answer where "not_found = http_error ''404 page not found'' 404"

definition get_value :: "(string \<times> string) list \<Rightarrow> string \<Rightarrow> string" where
  "get_value kvs k = (case map_of kvs k of None \<Rightarrow> [] | Some v \<Rightarrow> v)"

definition HasPrefix :: "string \<Rightarrow> string \<Rightarrow> bool" where "HasPrefix s p \<longleftrightarrow> take (length p) s = p"

definition remoteIP :: "incoming \<Rightarrow> string" where
  "remoteIP r = (case SplitHostPort (in_remote r) of None \<Rightarrow> [] | Some (host, _) \<Rightarrow> host)"

record nodeProxy =
  arbiterPubkey :: "bytes option"
  np_cacheDir :: string
  np_auth :: "authClient option"
  hasTrigger :: bool

text \<open>The world of a request: clock, JSON scanner, signature check, manifest (\<open>None\<close> for an error), files.\<close>

record np_world =
  np_now :: gotime
  np_parse :: json_parser
  np_verify :: "bytes \<Rightarrow> bytes \<Rightarrow> bytes \<Rightarrow> bool"
  np_manifest :: "bytes option"
  np_file :: "string \<Rightarrow> bytes option"

section \<open>Handlers\<close>

definition go_abs :: "duration \<Rightarrow> duration" where
  "go_abs d = (if d \<ge> 0 then d else if d = int64_min then int64_max else - d)"

definition payload_ts :: "json_parser \<Rightarrow> bytes \<Rightarrow> int option" where
  "payload_ts P body = (case P body of None \<Rightarrow> None | Some j \<Rightarrow>
     (case json_members j of None \<Rightarrow> None | Some kvs \<Rightarrow> int_field ''ts'' kvs 0))"

definition handleRefresh :: "np_world \<Rightarrow> nodeProxy \<Rightarrow> incoming \<Rightarrow> answer \<times> np_effect list" where
  "handleRefresh W np r = (case arbiterPubkey np of
     None \<Rightarrow> (http_error ''{\"error\":\"refresh not configured\"}'' 503, [])
   | Some pk \<Rightarrow>
       (let body = take 1024 (in_body r); sigB64 = get_value (in_header r) ''X-Arbiter-Sig'' in
        if sigB64 = [] then (http_error ''{\"error\":\"missing signature\"}'' 401, [])
        else case b64_decode sigB64 of None \<Rightarrow> (http_error ''{\"error\":\"bad signature\"}'' 401, [])
        | Some sig \<Rightarrow>
          if length sig \<noteq> 64 then (http_error ''{\"error\":\"bad signature\"}'' 401, [])
          else if \<not> np_verify W pk body sig then (http_error ''{\"error\":\"invalid signature\"}'' 401, [])
          else case payload_ts (np_parse W) body of None \<Rightarrow> (http_error ''{\"error\":\"bad payload\"}'' 400, [])
          | Some ts \<Rightarrow>
            if ts = 0 then (http_error ''{\"error\":\"bad payload\"}'' 400, [])
            else if go_abs (time_sub (np_now W) (ts * second)) > 60 * second then (http_error ''{\"error\":\"stale request\"}'' 401, [])
            else (Answer 200 (str_bytes ''{\"ok\":true}''), if hasTrigger np then [GoTriggerRefresh] else [])))"

definition manifest_addrs :: "json_parser \<Rightarrow> bytes \<Rightarrow> string list option" where
  "manifest_addrs P data = (case P data of None \<Rightarrow> None | Some j \<Rightarrow>
     (case json_members j of None \<Rightarrow> None | Some kvs \<Rightarrow> structs_field ''nodes'' ''addr'' kvs []))"

definition addr_host :: "string \<Rightarrow> string" where
  "addr_host a = (case SplitHostPort a of None \<Rightarrow> a | Some (host, _) \<Rightarrow> host)"

definition isKnownControl :: "np_world \<Rightarrow> string \<Rightarrow> bool" where
  "isKnownControl W ip = (case np_manifest W of None \<Rightarrow> True
     | Some data \<Rightarrow> if length data = 0 then True
         else case manifest_addrs (np_parse W) data of None \<Rightarrow> True
         | Some addrs \<Rightarrow> list_ex (\<lambda>a. addr_host a = ip) addrs)"

definition arbiter_prefix :: string where "arbiter_prefix = ''/p/node/v1/arbiter''"

definition unauthorized :: answer where "unauthorized = http_error ''{\"error\":\"unauthorized\"}'' 403"

text \<open>The director of the reverse proxy strips the prefix.\<close>

definition handleArbiterProxy :: "np_world \<Rightarrow> incoming \<Rightarrow> answer \<times> np_effect list" where
  "handleArbiterProxy W r =
     (let arbiterPath = TrimPrefix arbiter_prefix (in_path r);
          bootstrap = (arbiterPath = ''/api/heartbeat'' \<or> arbiterPath = ''/api/exits'') in
      if \<not> bootstrap \<and> \<not> isKnownControl W (remoteIP r) then (unauthorized, [])
      else (Forwarded, [ProxyToArbiter (if arbiterPath = [] then ''/'' else arbiterPath)]))"

definition handleAuthCache :: "np_world \<Rightarrow> nodeProxy \<Rightarrow> incoming \<Rightarrow> answer \<times> np_effect list" where
  "handleAuthCache W np r =
     (if \<not> isKnownControl W (remoteIP r) then (unauthorized, [])
      else case np_auth np of None \<Rightarrow> (not_found, [])
      | Some a \<Rightarrow>
        (let deviceID = get_value (in_query r) ''device_id'' in
         if deviceID = [] then (http_error ''{\"error\":\"device_id required\"}'' 400, [])
         else case cachedAuth (np_now W) (''dev:'' @ deviceID) a of None \<Rightarrow> (not_found, [])
         | Some body \<Rightarrow> (Answer 200 body, [])))"

definition handleUpdate :: "np_world \<Rightarrow> nodeProxy \<Rightarrow> incoming \<Rightarrow> answer \<times> np_effect list" where
  "handleUpdate W np r =
     (if np_cacheDir np = [] then (http_error ''{\"error\":\"update cache not configured\"}'' 404, [])
      else let name = TrimPrefix ''/p/node/v1/update/'' (in_path r) in
        if name \<noteq> ''version'' \<and> name \<noteq> ''snc-control'' \<and> name \<noteq> ''snc-control.sha256'' then (not_found, [])
        else case np_file W name of None \<Rightarrow> (not_found, []) | Some data \<Rightarrow> (Answer 200 data, []))"

definition ServeHTTP :: "np_world \<Rightarrow> nodeProxy \<Rightarrow> incoming \<Rightarrow> answer \<times> np_effect list" where
  "ServeHTTP W np r =
     (if in_path r = ''/p/node/v1/refresh'' \<and> in_method r = ''POST'' then handleRefresh W np r
      else if HasPrefix (in_path r) arbiter_prefix then handleArbiterProxy W r
      else if in_path r = ''/p/node/v1/auth-cache'' \<and> in_method r = ''GET'' then handleAuthCache W np r
      else if HasPrefix (in_path r) ''/p/node/v1/update/'' \<and> in_method r = ''GET'' then handleUpdate W np r
      else (not_found, []))"

section \<open>Probe\<close>

text \<open>Outside of the node: URL parsing (scheme and host name), name resolution, address parsing, and
  the HEAD request.\<close>

record probe_world =
  parse_url :: "string \<Rightarrow> (string \<times> string) option"
  lookup_host :: "string \<Rightarrow> string list option"
  parse_ip :: "string \<Rightarrow> bytes option"
  head_request :: "string \<Rightarrow> http_result"

definition internal_ip :: "bytes \<Rightarrow> bool" where
  "internal_ip ip \<longleftrightarrow> IsLoopback ip \<or> IsPrivate ip \<or> IsLinkLocalUnicast ip \<or> IsLinkLocalMulticast ip"

definition isPrivateHost :: "probe_world \<Rightarrow> string \<Rightarrow> bool" where
  "isPrivateHost P host = (case lookup_host P host of None \<Rightarrow> False
     | Some ips \<Rightarrow> list_ex (\<lambda>s. case parse_ip P s of None \<Rightarrow> False | Some ip \<Rightarrow> internal_ip ip) ips)"

text \<open>The answer and the URLs requested.\<close>

definition serveProbe :: "np_world \<Rightarrow> probe_world \<Rightarrow> incoming \<Rightarrow> answer \<times> string list" where
  "serveProbe W P r =
     (if \<not> isKnownControl W (remoteIP r) then (unauthorized, [])
      else let rawURL = get_value (in_query r) ''url'' in
        if rawURL = [] then (http_error ''{\"error\":\"url required\"}'' 400, [])
        else case parse_url P rawURL of None \<Rightarrow> (http_error ''{\"error\":\"invalid url: https/http only\"}'' 400, [])
        | Some (scheme, host) \<Rightarrow>
          if scheme \<noteq> ''https'' \<and> scheme \<noteq> ''http'' then (http_error ''{\"error\":\"invalid url: https/http only\"}'' 400, [])
          else if isPrivateHost P host then (http_error ''{\"error\":\"private address not allowed\"}'' 400, [])
          else case head_request P rawURL of
            BadRequest \<Rightarrow> (http_error ''{\"error\":\"internal\"}'' 500, [])
          | DoFailed \<Rightarrow> (http_error ''{\"error\":\"probe failed\"}'' 503, [rawURL])
          | Response st _ \<Rightarrow>
              if st \<ge> 400 then (http_error ''{\"error\":\"probe returned error status\"}'' 503, [rawURL])
              else (Answer 200 [], [rawURL]))"

section \<open>Who may do what\<close>

lemma auth_cache_no_prefix: "\<not> HasPrefix ''/p/node/v1/auth-cache'' arbiter_prefix" "\<not> HasPrefix ''/p/node/v1/auth-cache'' ''/p/node/v1/update/''"
  by (simp_all add: HasPrefix_def arbiter_prefix_def)

lemma go_abs_bound: "\<not> go_abs (time_sub t u) > 60 * second \<Longrightarrow> \<bar>t - u\<bar> \<le> 60 * second"
  by (auto simp: go_abs_def time_sub_def duration_defs split: if_splits)

lemma handleRefresh_effects:
  assumes "handleRefresh W np r = (ans, es)" and "x \<in> set es"
  shows "x = GoTriggerRefresh \<and> (\<exists>pk sig ts. arbiterPubkey np = Some pk \<and>
    b64_decode (get_value (in_header r) ''X-Arbiter-Sig'') = Some sig \<and> np_verify W pk (take 1024 (in_body r)) sig \<and>
    payload_ts (np_parse W) (take 1024 (in_body r)) = Some ts \<and> \<bar>np_now W - ts * second\<bar> \<le> 60 * second)"
proof -
  obtain pk where pk: "arbiterPubkey np = Some pk" using assms by (cases "arbiterPubkey np") (auto simp: handleRefresh_def)
  define body sigB where "body = take 1024 (in_body r)" and "sigB = get_value (in_header r) ''X-Arbiter-Sig''"
  obtain sig where sig: "b64_decode sigB = Some sig"
    using assms by (cases "b64_decode sigB") (auto simp: handleRefresh_def pk Let_def sigB_def split: if_splits)
  obtain ts where ts: "payload_ts (np_parse W) body = Some ts"
    using assms sig by (cases "payload_ts (np_parse W) body") (auto simp: handleRefresh_def pk Let_def sigB_def body_def split: if_splits)
  have "\<not> go_abs (time_sub (np_now W) (ts * second)) > 60 * second \<and> np_verify W pk body sig \<and> x = GoTriggerRefresh"
    using assms sig ts unfolding handleRefresh_def pk option.case Let_def sigB_def [symmetric] body_def [symmetric] sig ts
    by (auto split: if_splits)
  then show ?thesis using pk sig ts go_abs_bound unfolding body_def sigB_def by blast
qed

lemma handleArbiterProxy_effects:
  "handleArbiterProxy W r = (ans, es) \<Longrightarrow> x \<in> set es \<Longrightarrow>
   \<exists>path. x = ProxyToArbiter path \<and> (isKnownControl W (remoteIP r) \<or> path = ''/api/heartbeat'' \<or> path = ''/api/exits'')"
  by (auto simp: handleArbiterProxy_def Let_def split: if_splits)

lemma read_only_handlers: "snd (handleAuthCache W np r) = []" "snd (handleUpdate W np r) = []"
  by (auto simp: handleAuthCache_def handleUpdate_def Let_def split: option.splits)

lemma handleAuthCache_200:
  "handleAuthCache W np r = (Answer 200 body, es) \<Longrightarrow> isKnownControl W (remoteIP r) \<and> (\<exists>a. np_auth np = Some a \<and>
     cachedAuth (np_now W) (''dev:'' @ get_value (in_query r) ''device_id'') a = Some body)"
  by (auto simp: handleAuthCache_def Let_def unauthorized_def not_found_def http_error_def split: option.splits if_splits)

lemma ServeHTTP_cases:
  obtains (refresh) "in_method r = ''POST''" "ServeHTTP W np r = handleRefresh W np r" "in_path r = ''/p/node/v1/refresh''"
  | (proxy) "ServeHTTP W np r = handleArbiterProxy W r" "HasPrefix (in_path r) arbiter_prefix"
  | (cache) "ServeHTTP W np r = handleAuthCache W np r"
  | (quiet) "snd (ServeHTTP W np r) = []" "in_path r = ''/p/node/v1/auth-cache'' \<longrightarrow> ServeHTTP W np r = (not_found, [])"
proof -
  consider "in_path r = ''/p/node/v1/refresh'' \<and> in_method r = ''POST''"
    | "\<not> (in_path r = ''/p/node/v1/refresh'' \<and> in_method r = ''POST'')" "HasPrefix (in_path r) arbiter_prefix"
    | "\<not> (in_path r = ''/p/node/v1/refresh'' \<and> in_method r = ''POST'')" "\<not> HasPrefix (in_path r) arbiter_prefix"
      "in_path r = ''/p/node/v1/auth-cache'' \<and> in_method r = ''GET''"
    | "\<not> (in_path r = ''/p/node/v1/refresh'' \<and> in_method r = ''POST'')" "\<not> HasPrefix (in_path r) arbiter_prefix"
      "\<not> (in_path r = ''/p/node/v1/auth-cache'' \<and> in_method r = ''GET'')"
    by blast
  then show thesis
  proof cases
    case 1
    then have "ServeHTTP W np r = handleRefresh W np r" unfolding ServeHTTP_def by (simp only: if_True simp_thms)
    then show thesis using 1 refresh by blast
  next
    case 2
    then have "ServeHTTP W np r = handleArbiterProxy W r" unfolding ServeHTTP_def by (simp only: if_True if_False simp_thms)
    then show thesis using 2 proxy by blast
  next
    case 3
    then have "ServeHTTP W np r = handleAuthCache W np r" unfolding ServeHTTP_def by (simp only: if_True if_False simp_thms)
    then show thesis using cache by blast
  next
    case 4
    then have eq: "ServeHTTP W np r = (if HasPrefix (in_path r) ''/p/node/v1/update/'' \<and> in_method r = ''GET''
        then handleUpdate W np r else (not_found, []))"
      unfolding ServeHTTP_def by (simp only: if_False simp_thms)
    moreover have "ServeHTTP W np r = (not_found, [])" if "in_path r = ''/p/node/v1/auth-cache''"
      unfolding eq that using auth_cache_no_prefix(2) by (simp only: if_False simp_thms)
    ultimately show thesis using quiet read_only_handlers(2) by (metis snd_conv)
  qed
qed


definition sample_np :: nodeProxy where
  "sample_np = \<lparr>arbiterPubkey = Some [9], np_cacheDir = [], np_auth = None, hasTrigger = True\<rparr>"

definition sample_np_world :: np_world where
  "sample_np_world = \<lparr>np_now = 100 * second, np_parse = (\<lambda>b. Some (JObj [(''ts'', JNum ''90'')])),
     np_verify = (\<lambda>pk m s. s = replicate 64 0), np_manifest = None, np_file = (\<lambda>n. None)\<rparr>"

definition sample_refresh :: incoming where
  "sample_refresh = \<lparr>in_method = ''POST'', in_path = ''/p/node/v1/refresh'', in_query = [],
     in_header = [(''X-Arbiter-Sig'', b64_encode (replicate 64 0))], in_body = [1], in_remote = ''10.0.0.1:99''\<rparr>"


text \<open>The probe requests nothing but the URL asked for, only for a known control, and never a host that
  resolves to an address it recognises as internal.\<close>

lemma probe_guarded:
  assumes "serveProbe W P r = (ans, urls)" and "u \<in> set urls"
  shows "u = get_value (in_query r) ''url'' \<and> isKnownControl W (remoteIP r) \<and>
    (\<exists>scheme host. parse_url P u = Some (scheme, host) \<and> (scheme = ''https'' \<or> scheme = ''http'') \<and>
      (\<forall>ips s ip. lookup_host P host = Some ips \<longrightarrow> s \<in> set ips \<longrightarrow> parse_ip P s = Some ip \<longrightarrow> \<not> internal_ip ip))"
proof -
  define raw where "raw = get_value (in_query r) ''url''"
  have known: "isKnownControl W (remoteIP r)" using assms by (auto simp: serveProbe_def split: if_splits)
  then obtain scheme host where url: "parse_url P raw = Some (scheme, host)"
    using assms by (cases "parse_url P raw") (auto simp: serveProbe_def Let_def raw_def split: if_splits)
  have "\<not> isPrivateHost P host \<and> (scheme = ''https'' \<or> scheme = ''http'') \<and> u = raw"
    using assms known url unfolding serveProbe_def Let_def raw_def [symmetric] url option.case prod.case
    by (auto split: if_splits http_result.splits)
  moreover have "\<not> internal_ip ip" if "\<not> isPrivateHost P host" "lookup_host P host = Some ips" "s \<in> set ips" "parse_ip P s = Some ip" for ips s ip
    using that by (auto simp: isPrivateHost_def list_ex_iff split: option.splits)
  ultimately show ?thesis using known url unfolding raw_def by blast
qed

end
