(* ===== verification/Exit_Registry.thy ===== *)
theory Exit_Registry
  imports Complex_Main Http
begin

text \<open>
  The control node's registry of exits: its state, the health of the exits and the choice of an
  exit (\<open>src/snc-control/exits.go\<close>, \<open>src/snc-control/exit_health.go\<close>). A \<open>float64\<close> is a rational
  number; rounding is not modelled. The nil health map is \<open>None\<close>: reading it finds nothing,
  writing to it panics. \<open>rand.Intn\<close> is an argument that returns a number below its bound, as its
  documentation says (\<open>intn_ok\<close>), and panics for the bound 0.
\<close>

section \<open>State\<close>

record ExitNode =
  Addr :: string
  Fingerprint :: string
  RTTms :: rat
  Load :: rat
  DataPlaneOK :: "bool option"

definition effectiveLoadFactor :: "rat \<Rightarrow> rat" where
  "effectiveLoadFactor f = (if f \<le> 0 then 1 else f)"

record exitHealth =
  alive :: bool
  consecutive :: int
  rttMs :: rat
  trafficRttMs :: rat
  trafficSamples :: int

record ExitRegistry =
  er_nodeToken :: string
  pubkey :: "bytes option"
  cacheFile :: string
  myRegion :: string
  relayEnabled :: bool
  exits :: "ExitNode list"
  exitRegions :: "(string, string) gomap"
  lastSeen :: "(string, gotime) gomap"
  health :: "(string, exitHealth) gomap option"

definition newExitRegistry :: "string \<Rightarrow> bytes option \<Rightarrow> string \<Rightarrow> ExitRegistry" where
  "newExitRegistry tok pk cf = \<lparr>er_nodeToken = tok, pubkey = pk, cacheFile = cf, myRegion = [], relayEnabled = True,
     exits = [], exitRegions = gm_empty, lastSeen = gm_empty, health = None\<rparr>"

definition RelayEnabled :: "ExitRegistry \<Rightarrow> bool" where "RelayEnabled r = relayEnabled r"
definition MyRegion :: "ExitRegistry \<Rightarrow> string" where "MyRegion r = myRegion r"
definition SetMyRegion :: "string \<Rightarrow> ExitRegistry \<Rightarrow> ExitRegistry" where "SetMyRegion cc r = r\<lparr>myRegion := cc\<rparr>"
definition Exits :: "ExitRegistry \<Rightarrow> ExitNode list" where "Exits r = exits r"

definition regionOf :: "string \<Rightarrow> ExitRegistry \<Rightarrow> string" where
  "regionOf addr r = (case gm_get (exitRegions r) addr of None \<Rightarrow> [] | Some cc \<Rightarrow> cc)"

section \<open>Health\<close>

definition healthProbeInterval :: duration where "healthProbeInterval = 10 * second"
definition deadAfterFails :: int where "deadAfterFails = 2"
definition aliveAfterSuccesses :: int where "aliveAfterSuccesses = 2"
definition trafficRTTAlpha :: rat where "trafficRTTAlpha = 15 / 100"
definition trafficRTTMinSamples :: int where "trafficRTTMinSamples = 5"
definition allDeadRestartAfter :: duration where "allDeadRestartAfter = 10 * minute"

definition health_of :: "string \<Rightarrow> ExitRegistry \<Rightarrow> exitHealth option" where
  "health_of addr r = (case health r of None \<Rightarrow> None | Some m \<Rightarrow> gm_get m addr)"

definition freshHealth :: exitHealth where
  "freshHealth = \<lparr>alive = True, consecutive = 0, rttMs = 0, trafficRttMs = 0, trafficSamples = 0\<rparr>"

definition StartHealthChecker :: "ExitRegistry \<Rightarrow> ExitRegistry" where
  "StartHealthChecker r = r\<lparr>health := Some gm_empty\<rparr>"

definition isAlive :: "string \<Rightarrow> ExitRegistry \<Rightarrow> bool" where
  "isAlive addr r = (case health_of addr r of None \<Rightarrow> True | Some h \<Rightarrow> alive h)"

definition anyAlive :: "ExitRegistry \<Rightarrow> bool" where
  "anyAlive r = (case health r of None \<Rightarrow> True | Some m \<Rightarrow> gm_len m = 0 \<or> list_ex (\<lambda>(addr, h). alive h) m)"

definition exitDialAddr :: "string \<Rightarrow> string" where
  "exitDialAddr a = (let addr = TrimPrefix ''http://'' (TrimPrefix ''https://'' a) in
     case SplitHostPort addr of None \<Rightarrow> addr @ '':443'' | Some _ \<Rightarrow> addr)"

text \<open>The state machine of one exit: the outcome of a probe (\<open>None\<close> for an error, else the round trip
  time) changes the health; the second part tells whether the exit has just died.\<close>

definition probe_result :: "rat option \<Rightarrow> exitHealth \<Rightarrow> exitHealth \<times> bool" where
  "probe_result res h = (case res of
     None \<Rightarrow>
       (let h1 = h\<lparr>consecutive := if consecutive h > 0 then -1 else consecutive h - 1\<rparr> in
        if alive h1 \<and> - consecutive h1 \<ge> deadAfterFails then (h1\<lparr>alive := False\<rparr>, True) else (h1, False))
   | Some rtt \<Rightarrow>
       (let h1 = h\<lparr>consecutive := if consecutive h < 0 then 1 else consecutive h + 1, rttMs := rtt\<rparr> in
        if \<not> alive h1 \<and> consecutive h1 \<ge> aliveAfterSuccesses then (h1\<lparr>alive := True\<rparr>, False) else (h1, False)))"

text \<open>The network as the probe sees it: the response to a GET and the milliseconds it took.\<close>

type_synonym prober = "string \<Rightarrow> http_result \<times> rat"

definition get_ok :: "http_result \<Rightarrow> bool" where
  "get_ok r = (case r of Response st _ \<Rightarrow> st = 200 | _ \<Rightarrow> False)"

definition probe_url :: "(string \<Rightarrow> string) \<Rightarrow> string \<Rightarrow> string \<Rightarrow> string" where
  "probe_url esc addr u = ''https://'' @ exitDialAddr addr @ ''/p/v1/probe?url='' @ esc u"

definition probeDataPlane :: "(string \<Rightarrow> string) \<Rightarrow> prober \<Rightarrow> string \<Rightarrow> string list \<Rightarrow> bool" where
  "probeDataPlane esc net addr urls =
     (if length urls = 0 then True
      else length (filter (\<lambda>u. get_ok (fst (net (probe_url esc addr u)))) urls) * 5 \<ge> length urls)"

text \<open>The measurements of one probe: the ping, then, with probe sites, the round trip through the exit
  and the data plane. \<open>sites\<close> is \<open>None\<close> when no site registry is set.\<close>

definition probe_measure :: "(string \<Rightarrow> string) \<Rightarrow> prober \<Rightarrow> string list option \<Rightarrow> string \<Rightarrow> rat option" where
  "probe_measure esc net sites addr =
     (let (resp, rtt) = net (''https://'' @ exitDialAddr addr @ ''/p/v1/ping'') in
      if \<not> get_ok resp then None
      else (case sites of None \<Rightarrow> Some rtt
        | Some urls \<Rightarrow>
            (let rtt1 = (case urls of [] \<Rightarrow> rtt
                   | u # _ \<Rightarrow> (let (resp1, t) = net (probe_url esc addr u) in if get_ok resp1 then t else rtt)) in
             if probeDataPlane esc net addr urls then Some rtt1 else None)))"

text \<open>Recording an outcome is one critical section. \<open>None\<close> is the panic of writing to a nil map; the
  list holds the addresses given to \<open>onDead\<close>.\<close>

definition record_probe :: "string \<Rightarrow> rat option \<Rightarrow> ExitRegistry \<Rightarrow> (ExitRegistry \<times> string list) option" where
  "record_probe addr res r = (case health r of None \<Rightarrow> None
     | Some m \<Rightarrow>
         (let h = (case gm_get m addr of None \<Rightarrow> freshHealth | Some h \<Rightarrow> h);
              (h', died) = probe_result res h
          in Some (r\<lparr>health := Some (gm_put addr h' m)\<rparr>, if died then [addr] else [])))"

definition probeOne :: "(string \<Rightarrow> string) \<Rightarrow> prober \<Rightarrow> (string \<Rightarrow> string list) option \<Rightarrow> string \<Rightarrow> ExitRegistry \<Rightarrow>
    (ExitRegistry \<times> string list) option" where
  "probeOne esc net forRegion addr r =
     record_probe addr (probe_measure esc net (map_option (\<lambda>f. f (regionOf addr r)) forRegion) addr) r"

fun record_probes :: "(string \<times> rat option) list \<Rightarrow> ExitRegistry \<Rightarrow> (ExitRegistry \<times> string list) option" where
  "record_probes [] r = Some (r, [])"
| "record_probes ((addr, res) # evs) r = (case record_probe addr res r of None \<Rightarrow> None
     | Some (r1, d1) \<Rightarrow> (case record_probes evs r1 of None \<Rightarrow> None | Some (r2, d2) \<Rightarrow> Some (r2, d1 @ d2)))"

text \<open>All exits are probed at once; the outcomes are recorded in the order \<open>order\<close> in which the probes
  end, a permutation of the exits.\<close>

definition probeAll :: "(string \<Rightarrow> string) \<Rightarrow> prober \<Rightarrow> (string \<Rightarrow> string list) option \<Rightarrow> (string list \<Rightarrow> string list) \<Rightarrow> ExitRegistry \<Rightarrow>
    (ExitRegistry \<times> string list) option" where
  "probeAll esc net forRegion order r =
     record_probes (map (\<lambda>addr. (addr, probe_measure esc net (map_option (\<lambda>f. f (regionOf addr r)) forRegion) addr))
       (order (map Addr (Exits r)))) r"

text \<open>One tick of the health loop after the probes: the time since when all exits are dead
  (\<open>zero_time\<close> for not), and whether the process exits.\<close>

definition healthLoop_tick :: "gotime \<Rightarrow> ExitRegistry \<Rightarrow> gotime \<Rightarrow> gotime \<times> bool" where
  "healthLoop_tick now r allDeadSince =
     (if length (Exits r) = 0 \<or> anyAlive r then (zero_time, False)
      else if allDeadSince = zero_time then (now, False)
      else (allDeadSince, time_sub now allDeadSince \<ge> allDeadRestartAfter))"

definition Milliseconds :: "duration \<Rightarrow> int" where
  "Milliseconds d = (if d \<ge> 0 then d div 1000000 else - ((- d) div 1000000))"

definition record_sample :: "rat \<Rightarrow> exitHealth \<Rightarrow> exitHealth" where
  "record_sample ms h = h\<lparr>trafficRttMs := if trafficSamples h = 0 then ms
       else trafficRTTAlpha * ms + (1 - trafficRTTAlpha) * trafficRttMs h,
     trafficSamples := trafficSamples h + 1\<rparr>"

definition RecordDialRTT :: "string \<Rightarrow> duration \<Rightarrow> ExitRegistry \<Rightarrow> ExitRegistry option" where
  "RecordDialRTT addr d r = (let ms = of_int (Milliseconds d) in
     case health r of
       None \<Rightarrow> None
     | Some m \<Rightarrow> (let h = (case gm_get m addr of None \<Rightarrow> freshHealth | Some h \<Rightarrow> h)
         in Some (r\<lparr>health := Some (gm_put addr (record_sample ms h) m)\<rparr>)))"

definition rttOf :: "string \<Rightarrow> ExitRegistry \<Rightarrow> rat" where
  "rttOf addr r = (case health_of addr r of None \<Rightarrow> 0
     | Some h \<Rightarrow>
         (let probe = rttMs h; traffic = (if trafficSamples h < trafficRTTMinSamples then 0 else trafficRttMs h) in
          if probe > 0 \<and> traffic > 0 then 3 / 10 * probe + 7 / 10 * traffic
          else if traffic > 0 then traffic else probe))"

text \<open>The smallest positive value, 0 when there is none.\<close>

fun min_positive :: "rat list \<Rightarrow> rat \<Rightarrow> rat" where
  "min_positive [] best = best"
| "min_positive (x # xs) best = min_positive xs (if x > 0 \<and> (best = 0 \<or> x < best) then x else best)"

definition probe_rtt :: "ExitRegistry \<Rightarrow> ExitNode \<Rightarrow> rat" where
  "probe_rtt r e = (case health_of (Addr e) r of Some h \<Rightarrow> if rttMs h > 0 then rttMs h else RTTms e | None \<Rightarrow> RTTms e)"

definition minProbeRTTOver :: "ExitNode list \<Rightarrow> ExitRegistry \<Rightarrow> bool \<Rightarrow> rat" where
  "minProbeRTTOver es r aliveOnly =
     min_positive (map (probe_rtt r) (filter (\<lambda>e. \<not> aliveOnly \<or> isAlive (Addr e) r) es)) 0"

definition MinProbeRTT :: "ExitRegistry \<Rightarrow> rat" where
  "MinProbeRTT r = (let best = minProbeRTTOver (exits r) r True in
     if best = 0 then minProbeRTTOver (exits r) r False else best)"

definition own_rtt :: "ExitRegistry \<Rightarrow> ExitNode \<Rightarrow> rat" where
  "own_rtt r e = (if rttOf (Addr e) r > 0 then rttOf (Addr e) r else RTTms e)"

definition minEffectiveRTTOver :: "ExitRegistry \<Rightarrow> ExitNode list \<Rightarrow> bool \<Rightarrow> rat" where
  "minEffectiveRTTOver r es aliveOnly =
     min_positive (map (own_rtt r) (filter (\<lambda>e. \<not> aliveOnly \<or> isAlive (Addr e) r) es)) 0"

definition MinEffectiveRTT :: "ExitRegistry \<Rightarrow> rat" where
  "MinEffectiveRTT r = (let best = minEffectiveRTTOver r (exits r) True in
     if best = 0 then minEffectiveRTTOver r (exits r) False else best)"

section \<open>Choosing an exit\<close>

datatype pick_result = NoExits | PickPanic | Picked ExitNode

definition intn_ok :: "(nat \<Rightarrow> nat) \<Rightarrow> bool" where "intn_ok rnd \<longleftrightarrow> (\<forall>n > 0. rnd n < n)"

definition pick_random :: "(nat \<Rightarrow> nat) \<Rightarrow> ExitNode list \<Rightarrow> pick_result" where
  "pick_random rnd pool = (if pool = [] then PickPanic else Picked (pool ! rnd (length pool)))"

definition usable :: "ExitRegistry \<Rightarrow> ExitNode \<Rightarrow> bool" where
  "usable r e \<longleftrightarrow> isAlive (Addr e) r \<and> (DataPlaneOK e = None \<or> DataPlaneOK e = Some True)"

definition live_exits :: "ExitRegistry \<Rightarrow> ExitNode list" where
  "live_exits r = (let live = filter (usable r) (exits r) in if length live = 0 then exits r else live)"

definition excluded :: "string \<Rightarrow> string \<Rightarrow> string \<Rightarrow> bool" where
  "excluded region clientCC cc \<longleftrightarrow> (if cc = [] then False
     else if region \<noteq> [] \<and> cc = region then True else clientCC \<noteq> [] \<and> cc = clientCC)"

definition geo_filter :: "ExitRegistry \<Rightarrow> string \<Rightarrow> ExitNode list \<Rightarrow> ExitNode list" where
  "geo_filter r clientCC live =
     (if (myRegion r \<noteq> [] \<or> clientCC \<noteq> []) \<and> gm_len (exitRegions r) > 0 then
        (let abroad = filter (\<lambda>e. \<not> excluded (myRegion r) clientCC (regionOf (Addr e) r)) live in
         if length abroad > 0 then abroad else live)
      else live)"

definition effectiveRTT :: "ExitRegistry \<Rightarrow> ExitNode \<Rightarrow> rat" where
  "effectiveRTT r e = own_rtt r e * effectiveLoadFactor (Load e)"

definition rtt_pool :: "ExitRegistry \<Rightarrow> ExitNode list \<Rightarrow> ExitNode list" where
  "rtt_pool r live = (let bestRTT = min_positive (map (effectiveRTT r) live) 0 in
     if length (exits r) < 5 then live
     else filter (\<lambda>e. effectiveRTT r e = 0 \<or> bestRTT = 0 \<or> effectiveRTT r e \<le> bestRTT * (13 / 10)) live)"

definition PickFor :: "(nat \<Rightarrow> nat) \<Rightarrow> string \<Rightarrow> ExitRegistry \<Rightarrow> pick_result" where
  "PickFor rnd clientCC r = (if length (exits r) = 0 then NoExits
     else pick_random rnd (rtt_pool r (geo_filter r clientCC (live_exits r))))"

definition Pick :: "(nat \<Rightarrow> nat) \<Rightarrow> ExitRegistry \<Rightarrow> pick_result" where "Pick rnd r = PickFor rnd [] r"

definition clientRTT :: "ExitRegistry \<Rightarrow> ExitNode \<Rightarrow> rat" where
  "clientRTT r e = (let rtt = (if rttOf (Addr e) r \<le> 0 then RTTms e else rttOf (Addr e) r);
     rtt1 = (if rtt \<le> 0 then 1 else rtt) in rtt1 * effectiveLoadFactor (Load e))"

text \<open>The walk over the cumulative weights.\<close>

fun weighted_walk :: "rat \<Rightarrow> (ExitNode \<times> rat) list \<Rightarrow> ExitNode \<Rightarrow> ExitNode" where
  "weighted_walk target [] best = best"
| "weighted_walk target ((e, w) # ws) best =
     (let t = target - w in if t \<le> 0 then e else weighted_walk t ws best)"

text \<open>\<open>float64(math.MaxUint64)\<close> is 2 to the 64.\<close>

definition client_fraction :: "(bytes \<Rightarrow> bytes) \<Rightarrow> string \<Rightarrow> rat" where
  "client_fraction sha clientIP = of_nat (be_nat (take 8 (sha (str_bytes clientIP)))) / 2 ^ 64"

definition PickForClient :: "(bytes \<Rightarrow> bytes) \<Rightarrow> string \<Rightarrow> string \<Rightarrow> ExitRegistry \<Rightarrow> pick_result" where
  "PickForClient sha clientIP clientCC r =
     (if length (exits r) = 0 then NoExits
      else let live = geo_filter r clientCC (live_exits r) in
        if length live = 1 then Picked (live ! 0)
        else let ws = map (\<lambda>e. 1 / clientRTT r e) live;
                 target = client_fraction sha clientIP * sum_list ws
             in Picked (weighted_walk target (zip live ws) (last live)))"

section \<open>Health follows the last two equal outcomes\<close>

text \<open>The specification, over the outcomes of an exit's probes with the newest first: the last
  outcome that repeated the one before it decides; an exit without one is alive.\<close>

fun settled :: "bool list \<Rightarrow> bool" where
  "settled (x # y # bs) = (if x = y then x else settled (y # bs))"
| "settled bs = True"

definition run_length :: "bool list \<Rightarrow> int" where
  "run_length bs = (case bs of [] \<Rightarrow> 0 | x # _ \<Rightarrow> (if x then 1 else - 1) * int (length (takeWhile (\<lambda>y. y = x) bs)))"

definition tracks :: "bool list \<Rightarrow> exitHealth \<Rightarrow> bool" where
  "tracks bs h \<longleftrightarrow> alive h = settled bs \<and> consecutive h = run_length bs"

lemma run_length_sign: "run_length [] = 0" "run_length (True # bs) \<ge> 1" "run_length (False # bs) \<le> - 1"
  by (simp_all add: run_length_def)

lemma run_length_Cons:
  "run_length (x # bs) = (if x then (if run_length bs < 0 then 1 else run_length bs + 1)
     else (if run_length bs > 0 then - 1 else run_length bs - 1))"
  by (cases bs) (auto simp: run_length_def)

lemma settled_Cons: "settled (x # bs) = (if run_length (x # bs) \<ge> 2 then True else if run_length (x # bs) \<le> - 2 then False else settled bs)"
  by (cases bs) (auto simp: run_length_def)

lemma probe_result_tracks:
  assumes "tracks bs h" and "probe_result res h = (h', died)"
  shows "tracks ((res \<noteq> None) # bs) h' \<and> (died \<longleftrightarrow> alive h \<and> \<not> alive h')"
proof (cases res)
  case None
  have "consecutive h' = run_length (False # bs)" and "died \<longleftrightarrow> alive h \<and> - consecutive h' \<ge> 2" and
    "alive h' \<longleftrightarrow> alive h \<and> \<not> died"
    using assms None by (auto simp: probe_result_def tracks_def run_length_Cons deadAfterFails_def Let_def split: if_splits)
  then show ?thesis
    using assms(1) None run_length_sign(3) [of bs] by (auto simp: tracks_def settled_Cons [of False])
next
  case (Some t)
  have "consecutive h' = run_length (True # bs)" and "\<not> died" and "alive h' \<longleftrightarrow> alive h \<or> consecutive h' \<ge> 2"
    using assms Some by (auto simp: probe_result_def tracks_def run_length_Cons aliveAfterSuccesses_def Let_def split: if_splits)
  then show ?thesis
    using assms(1) Some run_length_sign(2) [of bs] by (auto simp: tracks_def settled_Cons [of True])
qed

definition outcomes :: "string \<Rightarrow> (string \<times> rat option) list \<Rightarrow> bool list" where
  "outcomes addr evs = map (\<lambda>(a, res). res \<noteq> None) (filter (\<lambda>(a, res). a = addr) (rev evs))"

definition health_tracks :: "(string \<times> rat option) list \<Rightarrow> ExitRegistry \<Rightarrow> bool" where
  "health_tracks evs r \<longleftrightarrow> (\<exists>m. health r = Some m \<and>
     (\<forall>a. tracks (outcomes a evs) (case gm_get m a of None \<Rightarrow> freshHealth | Some h \<Rightarrow> h)))"

lemma outcomes_snoc: "outcomes a (evs @ [(b, res)]) = (if a = b then (res \<noteq> None) # outcomes a evs else outcomes a evs)"
  by (simp add: outcomes_def)

lemma health_tracks_alive: "health_tracks evs r \<Longrightarrow> isAlive a r = settled (outcomes a evs)"
proof -
  assume "health_tracks evs r"
  then obtain m where m: "health r = Some m"
    and tr: "tracks (outcomes a evs) (case gm_get m a of None \<Rightarrow> freshHealth | Some h \<Rightarrow> h)"
    unfolding health_tracks_def by blast
  then show ?thesis
    by (cases "gm_get m a") (simp_all add: isAlive_def health_of_def tracks_def freshHealth_def)
qed

lemma record_probe_tracks:
  assumes "health_tracks evs r"
  shows "\<exists>r' ds. record_probe b res r = Some (r', ds) \<and> health_tracks (evs @ [(b, res)]) r' \<and>
    ds = (if isAlive b r \<and> \<not> isAlive b r' then [b] else [])"
proof -
  obtain m where m: "health r = Some m"
    and tr: "\<And>a. tracks (outcomes a evs) (case gm_get m a of None \<Rightarrow> freshHealth | Some h \<Rightarrow> h)"
    using assms by (auto simp: health_tracks_def)
  let ?h = "case gm_get m b of None \<Rightarrow> freshHealth | Some h \<Rightarrow> h"
  obtain h' died where pr: "probe_result res ?h = (h', died)" by fastforce
  let ?r = "r\<lparr>health := Some (gm_put b h' m)\<rparr>"
  have run: "record_probe b res r = Some (?r, if died then [b] else [])"
    by (simp add: record_probe_def m pr)
  have "health_tracks (evs @ [(b, res)]) ?r"
    using tr probe_result_tracks [OF tr pr] by (auto simp: health_tracks_def outcomes_snoc)
  moreover have "isAlive b r = alive ?h" and "isAlive b ?r = alive h'"
    by (auto simp: isAlive_def health_of_def m freshHealth_def split: option.splits)
  ultimately show ?thesis using run probe_result_tracks [OF tr pr] by auto
qed

lemma record_probes_tracks:
  "health_tracks evs0 r \<Longrightarrow> \<exists>r' ds. record_probes evs r = Some (r', ds) \<and> health_tracks (evs0 @ evs) r'"
proof (induction evs arbitrary: evs0 r)
  case (Cons ev evs)
  obtain b res where ev: "ev = (b, res)" by (cases ev)
  obtain r1 d1 where "record_probe b res r = Some (r1, d1)" and "health_tracks (evs0 @ [(b, res)]) r1"
    using record_probe_tracks [OF Cons.prems] by blast
  then show ?case using Cons.IH [of "evs0 @ [(b, res)]" r1] by (auto simp: ev)
qed simp

lemma started_tracks [simp]: "health_tracks [] (StartHealthChecker r)"
  by (simp add: health_tracks_def StartHealthChecker_def tracks_def outcomes_def freshHealth_def run_length_def)

text \<open>Property C21: (health hysteresis) after any sequence of probe outcomes, of whichever exits, an exit
  is in rotation exactly when the last outcome that repeated the one before it was a success, or
  none did: a single failure never takes an exit out and a single success never brings it back.
  The checker never panics, and the next outcome reports an exit as dead exactly when it takes it
  out of rotation.\<close>

theorem health_hysteresis:
  "\<exists>r' ds r'' ds'. record_probes evs (StartHealthChecker r) = Some (r', ds) \<and>
     (\<forall>a. isAlive a r' = settled (outcomes a evs)) \<and>
     record_probe b res r' = Some (r'', ds') \<and>
     ds' = (if settled (outcomes b evs) \<and> \<not> settled ((res \<noteq> None) # outcomes b evs) then [b] else [])"
proof -
  obtain r' ds where run: "record_probes evs (StartHealthChecker r) = Some (r', ds)" and tr: "health_tracks evs r'"
    using record_probes_tracks [OF started_tracks, of evs r] by auto
  obtain r'' ds' where next_run: "record_probe b res r' = Some (r'', ds')" and tr': "health_tracks (evs @ [(b, res)]) r''"
    and ds': "ds' = (if isAlive b r' \<and> \<not> isAlive b r'' then [b] else [])"
    using record_probe_tracks [OF tr] by blast
  show ?thesis
    using run next_run ds' health_tracks_alive [OF tr] health_tracks_alive [OF tr', of b] by (auto simp: outcomes_snoc)
qed

section \<open>What a pick guarantees\<close>

lemma min_positive_spec:
  assumes "best \<ge> 0"
  shows "(min_positive xs best = 0 \<longleftrightarrow> best = 0 \<and> (\<forall>x \<in> set xs. x \<le> 0)) \<and>
    (min_positive xs best \<noteq> 0 \<longrightarrow> 0 < min_positive xs best \<and> min_positive xs best \<in> insert best (set xs)) \<and>
    (\<forall>x \<in> insert best (set xs). x > 0 \<longrightarrow> min_positive xs best \<le> x)"
  using assms
proof (induction xs arbitrary: best)
  case (Cons x xs)
  define b where "b = (if x > 0 \<and> (best = 0 \<or> x < best) then x else best)"
  have "b \<ge> 0" and eq: "min_positive (x # xs) best = min_positive xs b" using Cons.prems by (simp_all add: b_def)
  note ih = Cons.IH [OF this(1)]
  have "b = 0 \<longleftrightarrow> best = 0 \<and> x \<le> 0" and "b \<in> {x, best}" and "x > 0 \<longrightarrow> b > 0 \<and> b \<le> x" and "best > 0 \<longrightarrow> b > 0 \<and> b \<le> best"
    using Cons.prems by (auto simp: b_def)
  then show ?case using ih unfolding eq by (auto; force)
qed auto

lemma min_positive_best:
  "min_positive xs 0 = 0 \<longleftrightarrow> (\<forall>x \<in> set xs. x \<le> 0)"
  "min_positive xs 0 \<noteq> 0 \<Longrightarrow> 0 < min_positive xs 0 \<and> min_positive xs 0 \<in> set xs"
  "x \<in> set xs \<Longrightarrow> x > 0 \<Longrightarrow> min_positive xs 0 \<le> x"
  using min_positive_spec [of 0 xs] by auto

lemma live_exits_spec:
  assumes "exits r \<noteq> []"
  shows "live_exits r \<noteq> []" and "set (live_exits r) \<subseteq> set (exits r)"
    and "\<exists>x \<in> set (exits r). usable r x \<Longrightarrow> e \<in> set (live_exits r) \<Longrightarrow> usable r e"
  using assms by (auto simp: live_exits_def Let_def filter_empty_conv split: if_splits)

definition geo_active :: "ExitRegistry \<Rightarrow> string \<Rightarrow> bool" where
  "geo_active r cc \<longleftrightarrow> (myRegion r \<noteq> [] \<or> cc \<noteq> []) \<and> gm_len (exitRegions r) > 0"

definition abroad :: "ExitRegistry \<Rightarrow> string \<Rightarrow> ExitNode \<Rightarrow> bool" where
  "abroad r cc e \<longleftrightarrow> (let region = regionOf (Addr e) r in region = [] \<or> region \<noteq> myRegion r \<and> region \<noteq> cc)"

lemma excluded_abroad: "excluded (myRegion r) cc (regionOf (Addr e) r) \<longleftrightarrow> \<not> abroad r cc e"
  by (auto simp: excluded_def abroad_def Let_def)

lemma geo_filter_spec:
  assumes "live \<noteq> []"
  shows "geo_filter r cc live \<noteq> []" and "set (geo_filter r cc live) \<subseteq> set live"
    and "geo_active r cc \<Longrightarrow> \<exists>x \<in> set live. abroad r cc x \<Longrightarrow> e \<in> set (geo_filter r cc live) \<Longrightarrow> abroad r cc e"
  using assms by (auto simp: geo_filter_def geo_active_def excluded_abroad Let_def filter_empty_conv split: if_splits)

lemma rtt_pool_spec:
  assumes "live \<noteq> []"
  shows "rtt_pool r live \<noteq> []" and "set (rtt_pool r live) \<subseteq> set live"
    and "length (exits r) \<ge> 5 \<Longrightarrow> e \<in> set (rtt_pool r live) \<Longrightarrow> effectiveRTT r e > 0 \<Longrightarrow> x \<in> set live \<Longrightarrow> effectiveRTT r x > 0 \<Longrightarrow>
      10 * effectiveRTT r e \<le> 13 * effectiveRTT r x"
proof -
  let ?b = "min_positive (map (effectiveRTT r) live) 0"
  show "set (rtt_pool r live) \<subseteq> set live" by (auto simp: rtt_pool_def Let_def)
  show "rtt_pool r live \<noteq> []"
  proof (cases "?b = 0")
    case True
    then show ?thesis using assms by (auto simp: rtt_pool_def Let_def)
  next
    case False
    then obtain e where "e \<in> set live" "effectiveRTT r e = ?b" and "?b > 0"
      using min_positive_best(2) [of "map (effectiveRTT r) live"] by auto
    then show ?thesis using assms by (auto simp: rtt_pool_def Let_def filter_empty_conv intro!: bexI [of _ e])
  qed
  assume h: "length (exits r) \<ge> 5" "e \<in> set (rtt_pool r live)" "effectiveRTT r e > 0" "x \<in> set live" "effectiveRTT r x > 0"
  have "?b \<noteq> 0" using h(4,5) min_positive_best(1) [of "map (effectiveRTT r) live"] by fastforce
  then have "effectiveRTT r e \<le> ?b * (13 / 10)" using h(1,2,3) by (simp add: rtt_pool_def Let_def)
  moreover have "?b \<le> effectiveRTT r x" using h(4,5) by (intro min_positive_best(3)) auto
  ultimately show "10 * effectiveRTT r e \<le> 13 * effectiveRTT r x" by simp
qed

lemma pick_random_in: "intn_ok rnd \<Longrightarrow> pool \<noteq> [] \<Longrightarrow> \<exists>e \<in> set pool. pick_random rnd pool = Picked e"
  by (simp add: pick_random_def intn_ok_def)

text \<open>Choice of an exit: with a non-empty list an exit is always found, never a panic. It is
  usable (alive, data plane not reported broken) if any exit is, it is abroad (neither in the
  control's region nor in the client's country, as far as regions are known) if any of the exits left
  is, and from five exits on its load-weighted round trip time, if known, is at most 1.3 times that
  of every candidate with a known one.\<close>

theorem pick_for_sound:
  assumes "intn_ok rnd" and "exits r \<noteq> []"
  shows "\<exists>e. PickFor rnd cc r = Picked e \<and> e \<in> set (exits r) \<and>
    ((\<exists>x \<in> set (exits r). usable r x) \<longrightarrow> usable r e) \<and>
    (geo_active r cc \<and> (\<exists>x \<in> set (live_exits r). abroad r cc x) \<longrightarrow> abroad r cc e) \<and>
    (length (exits r) \<ge> 5 \<and> effectiveRTT r e > 0 \<longrightarrow>
      (\<forall>x \<in> set (geo_filter r cc (live_exits r)). effectiveRTT r x > 0 \<longrightarrow> 10 * effectiveRTT r e \<le> 13 * effectiveRTT r x))"
proof -
  note live = live_exits_spec [OF assms(2)]
  note geo = geo_filter_spec [OF live(1), of r cc]
  note pool = rtt_pool_spec [OF geo(1), of r]
  obtain e where pick: "PickFor rnd cc r = Picked e" and e: "e \<in> set (rtt_pool r (geo_filter r cc (live_exits r)))"
    using pick_random_in [OF assms(1) pool(1)] assms(2) unfolding PickFor_def by auto
  have "e \<in> set (geo_filter r cc (live_exits r))" using e pool(2) by blast
  moreover have "e \<in> set (live_exits r)" using calculation geo(2) by blast
  ultimately show ?thesis using pick live(2,3) geo(3) pool(3) [OF _ e] by blast
qed

definition sample_exit :: "string \<Rightarrow> rat \<Rightarrow> ExitNode" where
  "sample_exit a rtt = \<lparr>Addr = a, Fingerprint = [], RTTms = rtt, Load = 0, DataPlaneOK = None\<rparr>"

definition sample_registry :: ExitRegistry where
  "sample_registry = (newExitRegistry [] None [])\<lparr>myRegion := ''RU'', exits := [sample_exit ''a'' 10, sample_exit ''b'' 20],
     exitRegions := [(''a'', ''RU''), (''b'', ''NL'')]\<rparr>"

lemma sample_registry_facts:
  "exits sample_registry \<noteq> []" "set (live_exits sample_registry) = {sample_exit ''a'' 10, sample_exit ''b'' 20}"
  "geo_active sample_registry cc" "abroad sample_registry ''DE'' (sample_exit ''b'' 20)"
  "\<not> abroad sample_registry ''DE'' (sample_exit ''a'' 10)"
  by (simp_all add: sample_registry_def live_exits_def newExitRegistry_def usable_def isAlive_def health_of_def sample_exit_def
      geo_active_def gm_len_def abroad_def regionOf_def gm_get_def)

theorem pick_for_sound_witness:
  "PickFor (\<lambda>n. 0) ''DE'' sample_registry = Picked (sample_exit ''b'' 20)"
proof -
  have "intn_ok (\<lambda>n. 0)" by (simp add: intn_ok_def)
  from pick_for_sound [OF this sample_registry_facts(1), of "''DE''"]
  obtain e where "PickFor (\<lambda>n. 0) ''DE'' sample_registry = Picked e" "e \<in> set (exits sample_registry)"
    "geo_active sample_registry ''DE'' \<and> (\<exists>x \<in> set (live_exits sample_registry). abroad sample_registry ''DE'' x) \<longrightarrow>
      abroad sample_registry ''DE'' e" by blast
  then show ?thesis using sample_registry_facts by (auto simp: sample_registry_def)
qed

text \<open>The sticky choice.\<close>

lemma clientRTT_pos: "clientRTT r e > 0"
  by (auto simp: clientRTT_def effectiveLoadFactor_def Let_def)

lemma weighted_walk_spec:
  "ws \<noteq> [] \<Longrightarrow> \<forall>(e, w) \<in> set ws. w > 0 \<Longrightarrow> target \<le> sum_list (map snd ws) \<Longrightarrow>
   \<exists>i < length ws. weighted_walk target ws best = fst (ws ! i) \<and>
     (i = 0 \<or> sum_list (map snd (take i ws)) < target) \<and> target \<le> sum_list (map snd (take (Suc i) ws))"
proof (induction ws arbitrary: target)
  case (Cons ew ws)
  obtain e w where ew: "ew = (e, w)" by (cases ew)
  show ?case
  proof (cases "target - w \<le> 0")
    case True
    then show ?thesis by (intro exI [of _ 0]) (simp add: ew)
  next
    case False
    then have "ws \<noteq> []" using Cons.prems(3) by (auto simp: ew)
    moreover have "\<forall>(e, w) \<in> set ws. w > 0" "target - w \<le> sum_list (map snd ws)" using Cons.prems by (auto simp: ew)
    ultimately obtain i where i: "i < length ws" "weighted_walk (target - w) ws best = fst (ws ! i)"
      "i = 0 \<or> sum_list (map snd (take i ws)) < target - w" "target - w \<le> sum_list (map snd (take (Suc i) ws))"
      using Cons.IH by blast
    then have "sum_list (map snd (take i ws)) < target - w" using False by auto
    then show ?thesis using i False by (intro exI [of _ "Suc i"]) (auto simp: ew Let_def)
  qed
qed simp

definition weight :: "ExitRegistry \<Rightarrow> ExitNode \<Rightarrow> rat" where "weight r e = 1 / clientRTT r e"

lemma client_fraction_range: "0 \<le> client_fraction sha ip" "client_fraction sha ip < 1"
proof -
  let ?b = "take 8 (sha (str_bytes ip))"
  have "be_nat ?b < 256 ^ length ?b" by (rule be_nat_less)
  also have "(256 :: nat) ^ length ?b \<le> 256 ^ 8" by (intro power_increasing) auto
  finally have "be_nat ?b < 2 ^ 64" by simp
  then have "(of_nat (be_nat ?b) :: rat) < 2 ^ 64" by (metis of_nat_less_iff of_nat_numeral of_nat_power)
  then show "0 \<le> client_fraction sha ip" "client_fraction sha ip < 1" by (simp_all add: client_fraction_def)
qed

text \<open>Sticky weighted choice: the exit of a client is one of the candidates left by the
  health and region filters, and it is the one in whose share of the total weight the hash of the
  client's address falls: every candidate has a share in inverse proportion to its load-weighted
  round trip time, none of them empty, and the choice depends on nothing else.\<close>

theorem pick_for_client_share:
  assumes "exits r \<noteq> []" and "live = geo_filter r cc (live_exits r)"
    and "target = client_fraction sha ip * sum_list (map (weight r) live)"
  shows "\<exists>i < length live. PickForClient sha ip cc r = Picked (live ! i) \<and> weight r (live ! i) > 0 \<and>
    (i = 0 \<or> sum_list (map (weight r) (take i live)) < target) \<and>
    target \<le> sum_list (map (weight r) (take (Suc i) live))"
proof -
  have ne: "live \<noteq> []" using assms(2) geo_filter_spec(1) live_exits_spec(1) [OF assms(1)] by simp
  have pos: "weight r e > 0" for e by (simp add: weight_def clientRTT_pos)
  let ?ws = "map (weight r) live"
  have "0 \<le> sum_list ?ws" by (rule sum_list_nonneg) (auto intro: less_imp_le pos)
  then have le: "target \<le> sum_list ?ws"
    using client_fraction_range [of sha ip] unfolding assms(3) by (simp add: mult_left_le_one_le)
  show ?thesis
  proof (cases "length live = 1")
    case True
    then obtain e where "live = [e]" by (cases live) auto
    then show ?thesis using assms(1,2) le pos by (auto simp: PickForClient_def Let_def)
  next
    case False
    have eq: "PickForClient sha ip cc r = Picked (weighted_walk target (zip live ?ws) (last live))"
      using assms(1) False unfolding PickForClient_def assms(2) [symmetric] Let_def weight_def [symmetric] assms(3) by simp
    have snds: "map snd (take n (zip live ?ws)) = map (weight r) (take n live)" for n
      by (simp add: take_zip take_map)
    have "zip live ?ws \<noteq> []" using ne by (cases live) auto
    moreover have "\<forall>(e, w) \<in> set (zip live ?ws). w > 0" using pos by (auto simp: set_zip)
    moreover have "target \<le> sum_list (map snd (zip live ?ws))" using le by simp
    ultimately obtain i where "i < length (zip live ?ws)"
      "weighted_walk target (zip live ?ws) (last live) = fst (zip live ?ws ! i)"
      "i = 0 \<or> sum_list (map snd (take i (zip live ?ws))) < target"
      "target \<le> sum_list (map snd (take (Suc i) (zip live ?ws)))"
      using weighted_walk_spec by blast
    then show ?thesis unfolding snds eq using pos by (intro exI [of _ i]) simp
  qed
qed

theorem pick_for_client_share_witness:
  "\<exists>i < length (geo_filter sample_registry ''DE'' (live_exits sample_registry)).
     PickForClient (\<lambda>b. b) ''10.0.0.1'' ''DE'' sample_registry =
       Picked (geo_filter sample_registry ''DE'' (live_exits sample_registry) ! i)"
  using pick_for_client_share [OF sample_registry_facts(1) refl refl] by blast

section \<open>Differences from the comments\<close>

text \<open>A dial time recorded before the health checker is started writes to a nil map.\<close>

lemma dial_before_checker_panics: "RecordDialRTT addr d (newExitRegistry tok pk cf) = None"
  by (simp add: RecordDialRTT_def newExitRegistry_def)

text \<open>When only exits in the client's country are left, the sticky choice takes one of them.\<close>

lemma sticky_pick_domestic:
  "PickForClient sha ip ''NL'' ((newExitRegistry [] None [])\<lparr>exits := [sample_exit ''b'' 20], exitRegions := [(''b'', ''NL'')]\<rparr>) =
   Picked (sample_exit ''b'' 20)"
  by (simp add: PickForClient_def newExitRegistry_def geo_filter_def live_exits_def usable_def isAlive_def health_of_def
      sample_exit_def excluded_def regionOf_def gm_get_def gm_len_def)

text \<open>The health of an exit that has left the list still counts as an exit that is alive.\<close>

lemma departed_exit_counts_alive:
  assumes "health r = Some [(''gone'', freshHealth), (''a'', freshHealth\<lparr>alive := False\<rparr>)]" and "exits r = [sample_exit ''a'' 1]"
  shows "anyAlive r \<and> (\<forall>e \<in> set (exits r). \<not> isAlive (Addr e) r) \<and> healthLoop_tick now r t = (zero_time, False)"
  using assms by (simp add: anyAlive_def isAlive_def health_of_def gm_get_def freshHealth_def sample_exit_def healthLoop_tick_def)

text \<open>The reported routing round trip time leaves out the load factor that the choice applies.\<close>

lemma reported_rtt_without_load:
  assumes "r = (newExitRegistry [] None [])\<lparr>exits := [sample_exit ''a'' 10\<lparr>Load := 2\<rparr>]\<rparr>"
  shows "MinEffectiveRTT r = 10 \<and> effectiveRTT r (sample_exit ''a'' 10\<lparr>Load := 2\<rparr>) = 20"
  using assms by (simp add: MinEffectiveRTT_def minEffectiveRTTOver_def newExitRegistry_def isAlive_def health_of_def own_rtt_def
      rttOf_def sample_exit_def effectiveRTT_def effectiveLoadFactor_def)

text \<open>The dial time average stays between the smallest and the largest sample.\<close>

lemma record_sample_between:
  assumes "trafficSamples h > 0" and "lo \<le> trafficRttMs h" "trafficRttMs h \<le> hi" and "lo \<le> ms" "ms \<le> hi"
  shows "lo \<le> trafficRttMs (record_sample ms h) \<and> trafficRttMs (record_sample ms h) \<le> hi"
  using assms by (simp add: record_sample_def trafficRTTAlpha_def field_simps)

end
