(* ===== verification/Exit_Refresh.thy ===== *)
theory Exit_Refresh
  imports Exit_Registry
begin

text \<open>
  How the control node's registry learns about exits: the static list, the disk cache and the
  signed list fetched through an exit (\<open>src/snc-control/exits.go\<close>), the probe sites
  (\<open>src/snc-control/probe_sites.go\<close>) and the heartbeat. The conversion of the structs to and from
  JSON, the Ed25519 verification and SHA-256 are the functions of \<open>exits_codec\<close>; the HTTP client,
  the TLS handshakes (certificates by address) and the cache file are arguments. A response whose
  body cannot be read counts as a failed request.
\<close>

section \<open>Loading and saving\<close>

definition minValidExits :: nat where "minValidExits = 3"
definition staleExitAfter :: duration where "staleExitAfter = 24 * hour"

record signed_exits =
  sg_TS :: int
  sg_Type :: string
  sg_Nodes :: "ExitNode list"
  sg_Sig :: string
  sg_Regions :: "(string, string) gomap"
  sg_RelayEnabled :: "bool option"

record exits_codec =
  decode_wrapper :: "bytes \<Rightarrow> (ExitNode list \<times> (string, int) gomap) option"
  decode_nodes :: "bytes \<Rightarrow> ExitNode list option"
  encode_wrapper :: "ExitNode list \<Rightarrow> (string, int) gomap \<Rightarrow> bytes"
  decode_signed :: "bytes \<Rightarrow> signed_exits option"
  encode_payload :: "string \<Rightarrow> int \<Rightarrow> ExitNode list \<Rightarrow> bytes"
  decode_sites :: "bytes \<Rightarrow> (string, string list) gomap option"
  ed25519_verify :: "bytes \<Rightarrow> bytes \<Rightarrow> bytes \<Rightarrow> bool"
  sum256 :: "bytes \<Rightarrow> bytes"

definition LoadBootstrap :: "gotime \<Rightarrow> string list \<Rightarrow> ExitRegistry \<Rightarrow> ExitRegistry" where
  "LoadBootstrap now addrs r =
     (let nodes = map (\<lambda>a. \<lparr>Addr = a, Fingerprint = [], RTTms = 0, Load = 0, DataPlaneOK = None\<rparr>)
            (filter (\<lambda>a. a \<noteq> []) (map TrimSpace addrs)) in
      if length nodes = 0 then r
      else r\<lparr>exits := nodes, lastSeen := fold (\<lambda>n. gm_put (Addr n) now) nodes (lastSeen r)\<rparr>)"

text \<open>The map \<open>byAddr\<close>: the exits known, overridden by the new ones.\<close>

definition by_addr :: "ExitNode list \<Rightarrow> ExitNode list \<Rightarrow> (string, ExitNode) gomap" where
  "by_addr old new = fold (\<lambda>e. gm_put (Addr e) e) new (fold (\<lambda>e. gm_put (Addr e) e) old gm_empty)"

definition note_seen :: "gotime \<Rightarrow> (string, gotime) gomap \<Rightarrow> ExitNode \<Rightarrow> (string, gotime) gomap \<Rightarrow> (string, gotime) gomap" where
  "note_seen now cachedSeen e ls = (case gm_get cachedSeen (Addr e) of
     Some t \<Rightarrow> gm_put (Addr e) t ls
   | None \<Rightarrow> (case gm_get ls (Addr e) of None \<Rightarrow> gm_put (Addr e) now ls | Some _ \<Rightarrow> ls))"

definition brace :: byte where "brace = 123"

definition decode_cache :: "exits_codec \<Rightarrow> bytes \<Rightarrow> (ExitNode list \<times> (string, gotime) gomap) option" where
  "decode_cache C data =
     (if length data > 0 \<and> data ! 0 = brace
      then map_option (\<lambda>(nodes, seen). (nodes, map (\<lambda>(a, ts). (a, ts * second)) seen)) (decode_wrapper C data)
      else map_option (\<lambda>nodes. (nodes, gm_empty)) (decode_nodes C data))"

definition LoadCached :: "exits_codec \<Rightarrow> gotime \<Rightarrow> bytes option \<Rightarrow> ExitRegistry \<Rightarrow> ExitRegistry" where
  "LoadCached C now disk r =
     (if cacheFile r = [] then r
      else case disk of None \<Rightarrow> r
      | Some raw \<Rightarrow> (case decode_cache C (str_bytes (TrimSpace (bytes_str raw))) of None \<Rightarrow> r
          | Some (nodes, cachedSeen) \<Rightarrow>
              r\<lparr>exits := map snd (by_addr (exits r) nodes), lastSeen := fold (note_seen now cachedSeen) nodes (lastSeen r)\<rparr>))"

text \<open>The bytes written to the cache file; \<open>mkdir\<close> tells whether the directory can be made.\<close>

definition persist :: "exits_codec \<Rightarrow> bool \<Rightarrow> ExitNode list \<Rightarrow> (string, gotime) gomap \<Rightarrow> ExitRegistry \<Rightarrow> bytes option" where
  "persist C mkdir nodes seen r =
     (if cacheFile r = [] \<or> \<not> mkdir then None
      else Some (encode_wrapper C nodes
        (fold (\<lambda>n ls. case gm_get seen (Addr n) of None \<Rightarrow> ls | Some t \<Rightarrow> gm_put (Addr n) (time_unix t) ls) nodes gm_empty)))"

definition PickRandom :: "exits_codec \<Rightarrow> (nat \<Rightarrow> nat) \<Rightarrow> gotime \<Rightarrow> bytes option \<Rightarrow> ExitRegistry \<Rightarrow> pick_result \<times> ExitRegistry" where
  "PickRandom C rnd now disk r =
     (let r1 = (if length (exits r) = 0 then LoadCached C now disk r else r);
          live = filter (\<lambda>e. isAlive (Addr e) r1) (exits r1) in
      if length (exits r1) = 0 then (NoExits, r1)
      else (pick_random rnd (if length live = 0 then exits r1 else live), r1))"

section \<open>Refreshing from the arbiter\<close>

definition exitProxyURL :: "string \<Rightarrow> string \<Rightarrow> string" where
  "exitProxyURL exitAddr path = (let addr = TrimPrefix ''http://'' (TrimPrefix ''https://'' exitAddr);
     addr1 = (case SplitHostPort addr of None \<Rightarrow> addr @ '':443'' | Some _ \<Rightarrow> addr) in
     ''https://'' @ addr1 @ ''/p/node/v1/arbiter'' @ path)"

fun join_colon :: "string list \<Rightarrow> string" where
  "join_colon [] = []"
| "join_colon [s] = s"
| "join_colon (s # t # ss) = s @ '':'' @ join_colon (t # ss)"

definition verifyExitFingerprint :: "exits_codec \<Rightarrow> (string \<Rightarrow> bytes list option) \<Rightarrow> string \<Rightarrow> string \<Rightarrow> bool" where
  "verifyExitFingerprint C tls addr expectedFP = (case tls (exitDialAddr addr) of
     None \<Rightarrow> False
   | Some certs \<Rightarrow> (if length certs = 0 then False
       else join_colon (map (\<lambda>b. map to_upper (hex_encode [b])) (sum256 C (certs ! 0))) = map to_upper expectedFP))"

definition verified_nodes :: "exits_codec \<Rightarrow> (string \<Rightarrow> bytes list option) \<Rightarrow> ExitNode list \<Rightarrow> ExitNode list" where
  "verified_nodes C tls = filter (\<lambda>n. Fingerprint n = [] \<or> verifyExitFingerprint C tls (Addr n) (Fingerprint n))"

fun merge_loop :: "gotime \<Rightarrow> (string, ExitNode) gomap \<Rightarrow> (string, gotime) gomap \<Rightarrow> ExitNode list \<times> (string, gotime) gomap" where
  "merge_loop now [] ls = ([], ls)"
| "merge_loop now ((addr, e) # m) ls =
     (let (seen, ls1) = (case gm_get ls addr of Some t \<Rightarrow> (t, ls) | None \<Rightarrow> (now, gm_put addr now ls)) in
      if time_sub now seen > staleExitAfter then merge_loop now m (gm_del addr ls1)
      else let (es, ls2) = merge_loop now m ls1 in (e # es, ls2))"

definition merge_exits :: "gotime \<Rightarrow> ExitNode list \<Rightarrow> (string, string) gomap \<Rightarrow> ExitRegistry \<Rightarrow> ExitRegistry" where
  "merge_exits now verified regions r =
     (let (merged, ls) = merge_loop now (by_addr (exits r) verified) (fold (\<lambda>e. gm_put (Addr e) now) verified (lastSeen r)) in
      r\<lparr>exits := merged, lastSeen := ls, exitRegions := regions\<rparr>)"

datatype refresh_error = NoExitKnown | PickPanicked | RequestFailed | BadStatus int | ParseFailed | BadSignature | TooOld

definition signature_ok :: "exits_codec \<Rightarrow> bytes option \<Rightarrow> signed_exits \<Rightarrow> bool" where
  "signature_ok C key sg = (case key of None \<Rightarrow> True
     | Some pk \<Rightarrow> (case b64_decode (sg_Sig sg) of None \<Rightarrow> False
         | Some sig \<Rightarrow> ed25519_verify C pk (encode_payload C (sg_Type sg) (sg_TS sg) (sg_Nodes sg)) sig))"

text \<open>The environment of a refresh: the disk, the random number, the clock at the three times it is
  read, the HTTP client, the TLS handshakes, and what happens to the registry during the requests.\<close>

record refresh_world =
  rw_disk :: "bytes option"
  rw_rnd :: "nat \<Rightarrow> nat"
  rw_start :: gotime
  rw_checked :: gotime
  rw_now :: gotime
  rw_http :: "request \<Rightarrow> http_result"
  rw_tls :: "string \<Rightarrow> bytes list option"
  rw_mkdir :: bool
  rw_meanwhile :: "ExitRegistry \<Rightarrow> ExitRegistry"

definition apply_signed :: "exits_codec \<Rightarrow> refresh_world \<Rightarrow> signed_exits \<Rightarrow> ExitRegistry \<Rightarrow>
    refresh_error option \<times> ExitRegistry \<times> bytes option" where
  "apply_signed C W sg r =
     (if \<not> signature_ok C (pubkey r) sg then (Some BadSignature, r, None)
      else if time_sub (rw_checked W) (sg_TS sg * second) > 10 * minute then (Some TooOld, r, None)
      else let r1 = merge_exits (rw_now W) (verified_nodes C (rw_tls W) (sg_Nodes sg)) (sg_Regions sg) (rw_meanwhile W r);
               r2 = r1\<lparr>relayEnabled := (case sg_RelayEnabled sg of None \<Rightarrow> True | Some b \<Rightarrow> b)\<rparr>
           in (None, r2, persist C (rw_mkdir W) (exits r2) (lastSeen r2) r2))"

definition refresh :: "exits_codec \<Rightarrow> refresh_world \<Rightarrow> ExitRegistry \<Rightarrow> refresh_error option \<times> ExitRegistry \<times> bytes option" where
  "refresh C W r =
     (case PickRandom C (rw_rnd W) (rw_start W) (rw_disk W) r of
        (NoExits, r1) \<Rightarrow> (Some NoExitKnown, r1, None)
      | (PickPanic, r1) \<Rightarrow> (Some PickPanicked, r1, None)
      | (Picked e, r1) \<Rightarrow>
          (case rw_http W \<lparr>rq_method = ''GET'', rq_url = exitProxyURL (Addr e) ''/api/exits'',
              rq_header = [(''X-Node-Token'', er_nodeToken r1)], rq_body = []\<rparr> of
             BadRequest \<Rightarrow> (Some RequestFailed, r1, None)
           | DoFailed \<Rightarrow> (Some RequestFailed, r1, None)
           | Response st body \<Rightarrow>
               if st \<noteq> 200 then (Some (BadStatus st), r1, None)
               else (case decode_signed C (take (2 ^ 20) body) of
                   None \<Rightarrow> (Some ParseFailed, r1, None)
                 | Some sg \<Rightarrow> apply_signed C W sg r1)))"

definition ForceRefresh :: "exits_codec \<Rightarrow> refresh_world \<Rightarrow> ExitRegistry \<Rightarrow> refresh_error option \<times> ExitRegistry \<times> bytes option" where
  "ForceRefresh C W r = refresh C W r"

section \<open>Heartbeat\<close>

record heartbeat =
  hb_id :: string
  hb_token :: string
  hb_rtt_ms :: rat
  hb_routing_rtt_ms :: rat
  hb_bytes_total :: int
  hb_bw_mbps :: rat
  hb_data_plane_ok :: bool
  hb_metrics :: "rat \<times> rat \<times> rat"

text \<open>One heartbeat: the byte counter and time of the last one are its state. The result is the URL
  and the payload posted, none when no exit is known.\<close>

definition heartbeat_bw :: "int \<Rightarrow> gotime \<Rightarrow> int \<Rightarrow> gotime \<Rightarrow> rat" where
  "heartbeat_bw lastBytes lastTime sent now =
     (if lastTime = zero_time then 0
      else let elapsed = of_int (time_sub now lastTime) / 1000000000 in
        if elapsed > 0 \<and> sent > lastBytes then of_int (sent - lastBytes) * 8 / elapsed / 1000000 else 0)"

definition heartbeat_send :: "exits_codec \<Rightarrow> (nat \<Rightarrow> nat) \<Rightarrow> gotime \<Rightarrow> bytes option \<Rightarrow> gotime \<Rightarrow> int \<Rightarrow> rat \<times> rat \<times> rat \<Rightarrow> string \<Rightarrow>
    int \<times> gotime \<Rightarrow> ExitRegistry \<Rightarrow> (string \<times> heartbeat) option \<times> (int \<times> gotime) \<times> ExitRegistry" where
  "heartbeat_send C rnd start disk now sent metrics token st r =
     (case PickRandom C rnd start disk r of
        (Picked e, r1) \<Rightarrow>
          (Some (exitProxyURL (Addr e) ''/api/heartbeat'',
             \<lparr>hb_id = take (min 8 (length token)) token, hb_token = token, hb_rtt_ms = MinProbeRTT r1,
              hb_routing_rtt_ms = MinEffectiveRTT r1, hb_bytes_total = sent,
              hb_bw_mbps = heartbeat_bw (fst st) (snd st) sent now, hb_data_plane_ok = True, hb_metrics = metrics\<rparr>),
           (sent, now), r1)
      | (_, r1) \<Rightarrow> (None, st, r1))"

section \<open>Probe sites\<close>

record ProbeSiteRegistry =
  ps_nodeToken :: string
  ps_cacheFile :: string
  sites :: "(string, string list) gomap option"

definition newProbeSiteRegistry :: "string \<Rightarrow> string \<Rightarrow> ProbeSiteRegistry" where
  "newProbeSiteRegistry tok cf = \<lparr>ps_nodeToken = tok, ps_cacheFile = cf, sites = None\<rparr>"

definition ForRegion :: "string \<Rightarrow> ProbeSiteRegistry \<Rightarrow> string list" where
  "ForRegion region p = (case sites p of None \<Rightarrow> []
     | Some m \<Rightarrow> (let dflt = (case gm_get m [] of None \<Rightarrow> [] | Some us \<Rightarrow> us) in
         case gm_get m region of None \<Rightarrow> dflt | Some urls \<Rightarrow> if length urls > 0 then urls else dflt))"

definition saveCache :: "bool \<Rightarrow> bytes \<Rightarrow> ProbeSiteRegistry \<Rightarrow> bytes option" where
  "saveCache mkdir data p = (if ps_cacheFile p = [] \<or> \<not> mkdir then None else Some data)"

text \<open>Success, the sites, the cache file written, and the registry of exits, which the choice of an exit
  may have revived from disk.\<close>

definition sites_fetch :: "exits_codec \<Rightarrow> (nat \<Rightarrow> nat) \<Rightarrow> gotime \<Rightarrow> bytes option \<Rightarrow> (request \<Rightarrow> http_result) \<Rightarrow> bool \<Rightarrow>
    ExitRegistry \<Rightarrow> ProbeSiteRegistry \<Rightarrow> bool \<times> ProbeSiteRegistry \<times> bytes option \<times> ExitRegistry" where
  "sites_fetch C rnd now disk http mkdir r p =
     (case PickRandom C rnd now disk r of
        (Picked e, r1) \<Rightarrow>
          (case http \<lparr>rq_method = ''GET'', rq_url = exitProxyURL (Addr e) ''/api/probe-sites'',
              rq_header = [(''X-Node-Token'', ps_nodeToken p)], rq_body = []\<rparr> of
             Response st body \<Rightarrow>
               if st \<noteq> 200 then (False, p, None, r1)
               else let raw = take (64 * 1024) body in
                 (case decode_sites C raw of None \<Rightarrow> (False, p, None, r1)
                  | Some m \<Rightarrow> if gm_len m = 0 then (False, p, None, r1)
                      else (True, p\<lparr>sites := Some m\<rparr>, saveCache mkdir raw p, r1))
           | _ \<Rightarrow> (False, p, None, r1))
      | (_, r1) \<Rightarrow> (False, p, None, r1))"

definition loadCache :: "exits_codec \<Rightarrow> bytes option \<Rightarrow> ProbeSiteRegistry \<Rightarrow> ProbeSiteRegistry" where
  "loadCache C disk p = (if ps_cacheFile p = [] then p
     else case disk of None \<Rightarrow> p
     | Some data \<Rightarrow> (case decode_sites C data of None \<Rightarrow> p
         | Some m \<Rightarrow> if gm_len m = 0 then p else p\<lparr>sites := Some m\<rparr>))"

definition sites_Start :: "exits_codec \<Rightarrow> (nat \<Rightarrow> nat) \<Rightarrow> gotime \<Rightarrow> bytes option \<Rightarrow> (request \<Rightarrow> http_result) \<Rightarrow> bool \<Rightarrow> bytes option \<Rightarrow>
    ExitRegistry \<Rightarrow> ProbeSiteRegistry \<Rightarrow> ProbeSiteRegistry" where
  "sites_Start C rnd now disk http mkdir cache r p =
     (case sites_fetch C rnd now disk http mkdir r p of (ok, p1, _, _) \<Rightarrow> if ok then p1 else loadCache C cache p1)"

section \<open>What a refresh does to the list\<close>

text \<open>The map by address: distinct addresses, every exit under its own, the last one named winning.\<close>

definition keyed_ok :: "(string, ExitNode) gomap \<Rightarrow> bool" where
  "keyed_ok m \<longleftrightarrow> gm_wf m \<and> (\<forall>a e. gm_get m a = Some e \<longrightarrow> Addr e = a)"

lemma put_all_ok: "keyed_ok m \<Longrightarrow> keyed_ok (fold (\<lambda>e. gm_put (Addr e) e) es m)"
  by (rule fold_keeps [of _ keyed_ok]) (auto simp: keyed_ok_def)

lemma put_all_get:
  "gm_get (fold (\<lambda>e. gm_put (Addr e) e) es m) a = (case find (\<lambda>e. Addr e = a) (rev es) of Some e \<Rightarrow> Some e | None \<Rightarrow> gm_get m a)"
  by (induction es rule: rev_induct) auto

lemma by_addr_ok: "keyed_ok (by_addr old new)"
  unfolding by_addr_def by (intro put_all_ok) (simp add: keyed_ok_def)

lemma by_addr_get: "gm_get (by_addr old new) a = find (\<lambda>e. Addr e = a) (rev (old @ new))"
proof -
  have "by_addr old new = fold (\<lambda>e. gm_put (Addr e) e) (old @ new) gm_empty" by (simp add: by_addr_def)
  then show ?thesis by (simp add: put_all_get del: rev_append fold_append split: option.splits)
qed

lemma find_append: "find P (xs @ ys) = (case find P xs of None \<Rightarrow> find P ys | Some x \<Rightarrow> Some x)"
  by (induction xs) auto

lemma find_addr_exists: "e \<in> set es \<Longrightarrow> \<exists>e'. find (\<lambda>x. Addr x = Addr e) es = Some e'"
  by (metis (mono_tags, lifting) find_None_iff not_None_eq)

definition stale_seen :: "gotime \<Rightarrow> (string, gotime) gomap \<Rightarrow> string \<Rightarrow> bool" where
  "stale_seen now ls a \<longleftrightarrow> (case gm_get ls a of None \<Rightarrow> False | Some t \<Rightarrow> now - t > staleExitAfter)"

lemma stale_iff: "time_sub now t > staleExitAfter \<longleftrightarrow> now - t > staleExitAfter"
  by (simp add: staleExitAfter_def go_time duration_defs)

lemma merge_loop_exits:
  "gm_wf m \<Longrightarrow> fst (merge_loop now m ls) = map snd (filter (\<lambda>(a, e). \<not> stale_seen now ls a) m)"
proof (induction m arbitrary: ls)
  case (Cons p m)
  obtain a e where p: "p = (a, e)" by (cases p)
  have wf: "gm_wf m" and notin: "a \<notin> fst ` set m" using Cons.prems by (auto simp: gm_wf_def p)
  have other: "filter (\<lambda>(b, e). \<not> stale_seen now ls' b) m = filter (\<lambda>(b, e). \<not> stale_seen now ls b) m"
    if "\<And>b. b \<noteq> a \<Longrightarrow> gm_get ls' b = gm_get ls b" for ls'
  proof (rule filter_cong [OF refl])
    fix x
    assume "x \<in> set m"
    then have "fst x \<noteq> a" using notin by auto
    then show "(case x of (b, e) \<Rightarrow> \<not> stale_seen now ls' b) = (case x of (b, e) \<Rightarrow> \<not> stale_seen now ls b)"
      using that [of "fst x"] by (simp add: stale_seen_def case_prod_unfold)
  qed
  show ?case
  proof (cases "gm_get ls a")
    case None
    have "\<not> time_sub now now > staleExitAfter" by (simp add: staleExitAfter_def duration_defs)
    then show ?thesis using Cons.IH [OF wf] None other [of "gm_put a now ls"]
      by (simp add: p stale_seen_def [of now ls a] case_prod_unfold)
  next
    case (Some t)
    then show ?thesis using Cons.IH [OF wf] other [of "gm_del a ls"]
      by (simp add: p stale_seen_def [of now ls a] stale_iff case_prod_unfold)
  qed
qed simp

lemma seen_fold: "gm_get (fold (\<lambda>e. gm_put (Addr e) now) es ls) a = (if a \<in> Addr ` set es then Some now else gm_get ls a)"
  by (induction es arbitrary: ls) auto

lemma merge_exits_list:
  "exits (merge_exits now new regions r) = map snd (filter (\<lambda>(a, e). a \<in> Addr ` set new \<or> \<not> stale_seen now (lastSeen r) a)
     (by_addr (exits r) new))"
proof -
  let ?ls = "fold (\<lambda>e. gm_put (Addr e) now) new (lastSeen r)"
  have st: "stale_seen now ?ls a \<longleftrightarrow> a \<notin> Addr ` set new \<and> stale_seen now (lastSeen r) a" for a
    by (auto simp: stale_seen_def seen_fold staleExitAfter_def duration_defs split: option.splits)
  have "exits (merge_exits now new regions r) = fst (merge_loop now (by_addr (exits r) new) ?ls)"
    by (simp add: merge_exits_def case_prod_unfold Let_def)
  then show ?thesis using merge_loop_exits by_addr_ok by (simp add: keyed_ok_def st)
qed

lemma merge_exits_mem:
  "e \<in> set (exits (merge_exits now new regions r)) \<longleftrightarrow>
   find (\<lambda>x. Addr x = Addr e) (rev (exits r @ new)) = Some e \<and> (Addr e \<in> Addr ` set new \<or> \<not> stale_seen now (lastSeen r) (Addr e))"
proof -
  let ?m = "by_addr (exits r) new"
  have "(a, x) \<in> set ?m \<longleftrightarrow> Addr x = a \<and> find (\<lambda>y. Addr y = a) (rev (exits r @ new)) = Some x" for a x
    using by_addr_ok [of "exits r" new] gm_get_in_set [of ?m a x] by_addr_get [of "exits r" new a]
    by (auto simp: keyed_ok_def)
  then show ?thesis unfolding merge_exits_list by (force simp: image_iff)
qed

lemma merge_exits_distinct: "distinct (map Addr (exits (merge_exits now new regions r)))"
proof -
  let ?m = "by_addr (exits r) new"
  have wf: "distinct (map fst ?m)" and key: "\<And>a e. (a, e) \<in> set ?m \<Longrightarrow> Addr e = a"
    using by_addr_ok [of "exits r" new] gm_get_in_set [of ?m] by (auto simp: keyed_ok_def gm_wf_def)
  have "map Addr (map snd (filter P ?m)) = map fst (filter P ?m)" for P
    using key by (auto intro: map_cong)
  then show ?thesis using wf unfolding merge_exits_list by (simp add: distinct_map_filter del: map_map)
qed

text \<open>Merging: after a merge every address is listed once; the exits are those of the new
  list, with the new data, and those known before whose last appearance in a signed list is at most
  24 hours ago or unknown; nothing else is added and nothing else is dropped.\<close>

theorem refresh_merge:
  assumes "r' = merge_exits now new regions r"
  shows "distinct (map Addr (exits r')) \<and> set (exits r') \<subseteq> set (exits r) \<union> set new \<and>
    Addr ` set (exits r') = Addr ` set new \<union>
      {a \<in> Addr ` set (exits r). case gm_get (lastSeen r) a of None \<Rightarrow> True | Some t \<Rightarrow> now - t \<le> 24 * hour} \<and>
    (\<forall>e \<in> set (exits r'). Addr e \<in> Addr ` set new \<longrightarrow> e \<in> set new)"
proof (intro conjI)
  let ?all = "exits r @ new"
  have fnd: "x \<in> set ?all \<and> Addr x = a" if "find (\<lambda>y. Addr y = a) (rev ?all) = Some x" for a x
    using find_SomeD [OF that] by auto
  have mem: "e \<in> set ?all \<and> (Addr e \<in> Addr ` set new \<or> \<not> stale_seen now (lastSeen r) (Addr e))"
    if "e \<in> set (exits r')" for e
    using that fnd [of "Addr e" e] unfolding assms merge_exits_mem by blast
  show "distinct (map Addr (exits r'))" using merge_exits_distinct assms by simp
  show "set (exits r') \<subseteq> set (exits r) \<union> set new"
    using mem by auto
  have key: "a \<in> Addr ` set (exits r') \<longleftrightarrow> a \<in> Addr ` set ?all \<and> (a \<in> Addr ` set new \<or> \<not> stale_seen now (lastSeen r) a)" for a
  proof
    assume "a \<in> Addr ` set (exits r')"
    then obtain e where "e \<in> set (exits r')" and "a = Addr e" by blast
    then show "a \<in> Addr ` set ?all \<and> (a \<in> Addr ` set new \<or> \<not> stale_seen now (lastSeen r) a)"
      using mem [of e] by simp
  next
    assume h: "a \<in> Addr ` set ?all \<and> (a \<in> Addr ` set new \<or> \<not> stale_seen now (lastSeen r) a)"
    then obtain e where "e \<in> set (rev ?all)" "a = Addr e" by auto
    then obtain e' where e': "find (\<lambda>x. Addr x = a) (rev ?all) = Some e'" using find_addr_exists by blast
    have "Addr e' = a" using fnd [OF e'] by simp
    then have "e' \<in> set (exits r')" using e' h unfolding assms merge_exits_mem by simp
    then show "a \<in> Addr ` set (exits r')" using \<open>Addr e' = a\<close> by blast
  qed
  have fresh: "(case gm_get (lastSeen r) a of None \<Rightarrow> True | Some t \<Rightarrow> now - t \<le> 24 * hour) \<longleftrightarrow> \<not> stale_seen now (lastSeen r) a" for a
    by (cases "gm_get (lastSeen r) a") (auto simp: stale_seen_def staleExitAfter_def)
  show "Addr ` set (exits r') = Addr ` set new \<union>
      {a \<in> Addr ` set (exits r). case gm_get (lastSeen r) a of None \<Rightarrow> True | Some t \<Rightarrow> now - t \<le> 24 * hour}"
    unfolding fresh by (rule set_eqI) (auto simp only: key set_append image_Un Un_iff mem_Collect_eq)
  show "\<forall>e \<in> set (exits r'). Addr e \<in> Addr ` set new \<longrightarrow> e \<in> set new"
  proof (intro ballI impI)
    fix e
    assume "e \<in> set (exits r')" and new: "Addr e \<in> Addr ` set new"
    then have "find (\<lambda>x. Addr x = Addr e) (rev new @ rev (exits r)) = Some e"
      unfolding assms merge_exits_mem by simp
    moreover obtain n where "n \<in> set (rev new)" "Addr e = Addr n" using new by auto
    moreover obtain e' where "find (\<lambda>x. Addr x = Addr e) (rev new) = Some e'"
      using find_addr_exists [OF \<open>n \<in> set (rev new)\<close>] \<open>Addr e = Addr n\<close> by auto
    ultimately have "find (\<lambda>x. Addr x = Addr e) (rev new) = Some e" by (simp add: find_append)
    then show "e \<in> set new" using find_SomeD [of _ "rev new" e] by simp
  qed
qed

definition sample_new :: "ExitNode list" where "sample_new = [sample_exit ''b'' 5, sample_exit ''c'' 7]"

theorem refresh_merge_witness:
  "Addr ` set (exits (merge_exits (30 * hour) sample_new gm_empty (sample_registry\<lparr>lastSeen := [(''a'', 0)]\<rparr>))) = {''b'', ''c''}"
proof -
  let ?r = "sample_registry\<lparr>lastSeen := [(''a'', 0)]\<rparr>"
  have old: "Addr ` set (exits ?r) = {''a'', ''b''}" and new: "Addr ` set sample_new = {''b'', ''c''}"
    by (simp_all add: sample_registry_def newExitRegistry_def sample_exit_def sample_new_def)
  have "Addr ` set (exits (merge_exits (30 * hour) sample_new gm_empty ?r)) = Addr ` set sample_new \<union>
      {a \<in> Addr ` set (exits ?r). case gm_get (lastSeen ?r) a of None \<Rightarrow> True | Some t \<Rightarrow> 30 * hour - t \<le> 24 * hour}"
    using refresh_merge [OF refl, of "30 * hour" sample_new gm_empty ?r] by blast
  then show ?thesis unfolding old new by (auto simp: gm_get_def duration_defs)
qed


definition sample_signed :: signed_exits where
  "sample_signed = \<lparr>sg_TS = 100, sg_Type = ''exits'', sg_Nodes = sample_new, sg_Sig = b64_encode [9, 7], sg_Regions = gm_empty,
     sg_RelayEnabled = None\<rparr>"

definition sample_codec :: exits_codec where
  "sample_codec = \<lparr>decode_wrapper = (\<lambda>b. None), decode_nodes = (\<lambda>b. None), encode_wrapper = (\<lambda>ns ls. []),
     decode_signed = (\<lambda>b. if b = [1] then Some sample_signed else None), encode_payload = (\<lambda>ty ts ns. [7]),
     decode_sites = (\<lambda>b. None), ed25519_verify = (\<lambda>pk msg sig. sig = pk @ msg), sum256 = (\<lambda>b. b)\<rparr>"

definition sample_world :: refresh_world where
  "sample_world = \<lparr>rw_disk = None, rw_rnd = (\<lambda>n. 0), rw_start = 110 * second, rw_checked = 110 * second, rw_now = 110 * second,
     rw_http = (\<lambda>rq. Response 200 [1]), rw_tls = (\<lambda>a. None), rw_mkdir = True, rw_meanwhile = (\<lambda>r. r)\<rparr>"


text \<open>What a refresh writes, the next start reads back, with the times of last appearance in whole
  seconds, when the JSON text begins with a brace and decodes to what was encoded.\<close>

definition cache_codec_ok :: "exits_codec \<Rightarrow> bool" where
  "cache_codec_ok C \<longleftrightarrow> (\<forall>ns ls. let data = str_bytes (TrimSpace (bytes_str (encode_wrapper C ns ls))) in
     length data > 0 \<and> data ! 0 = brace \<and> decode_wrapper C data = Some (ns, ls))"

definition unix_times :: "ExitNode list \<Rightarrow> (string, gotime) gomap \<Rightarrow> (string, int) gomap" where
  "unix_times ns seen =
     fold (\<lambda>n ls. case gm_get seen (Addr n) of None \<Rightarrow> ls | Some t \<Rightarrow> gm_put (Addr n) (time_unix t) ls) ns gm_empty"

lemma persisted_time_fold:
  "gm_get (fold (\<lambda>n ls. case gm_get seen (Addr n) of None \<Rightarrow> ls | Some t \<Rightarrow> gm_put (Addr n) (time_unix t) ls) ns m) a =
   (if a \<in> Addr ` set ns \<and> gm_get seen a \<noteq> None then map_option time_unix (gm_get seen a) else gm_get m a)"
  by (induction ns arbitrary: m) (auto split: option.splits)

lemma unix_times_get:
  "gm_get (unix_times ns seen) a = (if a \<in> Addr ` set ns then map_option time_unix (gm_get seen a) else None)"
  by (auto simp: unix_times_def persisted_time_fold)

lemma gm_get_map: "gm_get (map (\<lambda>(a, t). (a, f t)) m) k = map_option f (gm_get m k)"
  by (simp add: gm_get_def map_of_map)

lemma note_seen_fold:
  "gm_get (fold (note_seen now seen) ns ls) a =
     (if a \<in> Addr ` set ns then (case gm_get seen a of Some t \<Rightarrow> Some t
        | None \<Rightarrow> (case gm_get ls a of None \<Rightarrow> Some now | Some t \<Rightarrow> Some t)) else gm_get ls a)"
  by (induction ns arbitrary: ls) (auto simp: note_seen_def split: option.splits)

lemma by_addr_all:
  assumes "distinct (map Addr ns)"
  shows "set (map snd (by_addr [] ns)) = set ns"
proof -
  have mem: "(a, e) \<in> set (by_addr [] ns) \<longleftrightarrow> Addr e = a \<and> e \<in> set ns" for a e
  proof -
    have "find (\<lambda>y. Addr y = a) (rev ns) = Some e \<longleftrightarrow> Addr e = a \<and> e \<in> set ns"
    proof
      assume "find (\<lambda>y. Addr y = a) (rev ns) = Some e"
      from find_SomeD [OF this] show "Addr e = a \<and> e \<in> set ns" by simp
    next
      assume h: "Addr e = a \<and> e \<in> set ns"
      then obtain e' where e': "find (\<lambda>y. Addr y = a) (rev ns) = Some e'" using find_addr_exists [of e "rev ns"] by auto
      then have "Addr e' = Addr e" "e' \<in> set ns" using find_SomeD [OF e'] h by auto
      then have "e' = e" using assms h by (auto simp: distinct_map inj_on_def)
      then show "find (\<lambda>y. Addr y = a) (rev ns) = Some e" using e' by simp
    qed
    then show ?thesis using by_addr_ok [of "[]" ns] gm_get_in_set [of "by_addr [] ns" a e] by_addr_get [of "[]" ns a]
      by (simp add: keyed_ok_def)
  qed
  show ?thesis
  proof (rule set_eqI, rule iffI)
    fix e
    assume "e \<in> set ns"
    then have "(Addr e, e) \<in> set (by_addr [] ns)" using mem by simp
    then show "e \<in> set (map snd (by_addr [] ns))" by (metis list.set_map image_eqI snd_conv)
  qed (use mem in auto)
qed

lemma restart_restores:
  assumes "cache_codec_ok C" and "distinct (map Addr ns)" and "persist C mkdir ns seen r = Some data"
    and "r' = LoadCached C now (Some data) (newExitRegistry tok pk cf)" and "cf \<noteq> []"
  shows "set (exits r') = set ns \<and> (\<forall>n \<in> set ns. gm_get (lastSeen r') (Addr n) =
    (case gm_get seen (Addr n) of Some t \<Rightarrow> Some (time_unix t * second) | None \<Rightarrow> Some now))"
proof -
  have data: "data = encode_wrapper C ns (unix_times ns seen)"
    using assms(3) by (auto simp: persist_def unix_times_def split: if_splits)
  have dec: "decode_cache C (str_bytes (TrimSpace (bytes_str data))) = Some (ns, map (\<lambda>(a, ts). (a, ts * second)) (unix_times ns seen))"
    using assms(1) unfolding cache_codec_ok_def Let_def data decode_cache_def by simp
  have r': "exits r' = map snd (by_addr [] ns)"
    "lastSeen r' = fold (note_seen now (map (\<lambda>(a, ts). (a, ts * second)) (unix_times ns seen))) ns gm_empty"
    using assms(5) unfolding assms(4) LoadCached_def by (simp_all add: dec newExitRegistry_def)
  show ?thesis using by_addr_all [OF assms(2)]
    by (auto simp: r' note_seen_fold gm_get_map unix_times_get split: option.splits)
qed

end
