(* ===== verification/Key_String.thy ===== *)
theory Key_String
  imports Aead
begin

text \<open>
  Activation keys (\<open>src/snc/core/key.go\<close>): the encrypted key-string, its two versions and the arbiter's
  signature. The cipher is the parameter \<open>C\<close> (XChaCha20-Poly1305 and BLAKE2b), Ed25519 and the JSON form
  of the structs are the functions of \<open>key_env\<close>; what the round trip relies on is \<open>key_env_ok\<close>: a
  signature verifies under the key it was made with, signatures have 64 bytes and public keys 32, and
  JSON text of ASCII strings decodes to what was encoded.
\<close>

section \<open>Keys\<close>

definition appSecret :: bytes where "appSecret = str_bytes ''SNCat-secret-key-phase1-devonly'' @ [0]"

definition keyMagicV1 :: "32 word" where "keyMagicV1 = 0x534E4301"
definition keyMagicV2 :: "32 word" where "keyMagicV2 = 0x534E4302"
definition nonceSize :: nat where "nonceSize = 24"
definition macSize :: nat where "macSize = 16"

record KeyData =
  Username :: string
  Password :: string
  Servers :: "string list"
  ControlNodes :: "string list"
  ArbiterPubkey :: string
  kd_NodeID :: string
  APIKey :: string
  ClientID :: string
  KeyID :: string
  AuthSig :: string
  kd_Sig :: string
  IsAdmin :: bool

text \<open>The signed fields, in the order of the canonical struct.\<close>

record keyCanonicalPayload =
  c_Username :: string
  c_Password :: string
  c_Servers :: "string list"
  c_ControlNodes :: "string list"
  c_ArbiterPubkey :: string
  c_NodeID :: string
  c_APIKey :: string
  c_ClientID :: string
  c_KeyID :: string

record key_env =
  marshal_key :: "KeyData \<Rightarrow> bytes"
  unmarshal_key :: "bytes \<Rightarrow> KeyData option"
  marshal_canonical :: "keyCanonicalPayload \<Rightarrow> bytes"
  ed_sign :: "bytes \<Rightarrow> bytes \<Rightarrow> bytes"
  ed_verify :: "bytes \<Rightarrow> bytes \<Rightarrow> bytes \<Rightarrow> bool"

definition Nodes :: "KeyData \<Rightarrow> string list" where
  "Nodes kd = (if length (ControlNodes kd) > 0 then ControlNodes kd else Servers kd)"

definition IsLegacy :: "KeyData \<Rightarrow> bool" where "IsLegacy kd \<longleftrightarrow> length (ControlNodes kd) = 0"

definition deriveKey :: "crypto \<Rightarrow> byte \<Rightarrow> bytes" where "deriveKey C salt = blake2b_256 C (appSecret @ [salt])"

section \<open>Parsing\<close>

datatype key_error = Base64Error | TooShort | BadMagic "32 word" | AeadInit | DecryptFailed | JsonError | MissingUsername
  | MissingPubkey | MissingSignature | InvalidPubkey | InvalidSigEncoding | VerificationFailed

definition keyCanonical :: "key_env \<Rightarrow> KeyData \<Rightarrow> bytes" where
  "keyCanonical E kd = marshal_canonical E \<lparr>c_Username = Username kd, c_Password = Password kd, c_Servers = Servers kd,
     c_ControlNodes = ControlNodes kd, c_ArbiterPubkey = ArbiterPubkey kd, c_NodeID = kd_NodeID kd, c_APIKey = APIKey kd,
     c_ClientID = ClientID kd, c_KeyID = KeyID kd\<rparr>"

definition verifyKeySignature :: "key_env \<Rightarrow> KeyData \<Rightarrow> key_error option" where
  "verifyKeySignature E kd =
     (if ArbiterPubkey kd = [] then Some MissingPubkey
      else if kd_Sig kd = [] then Some MissingSignature
      else case hex_decode (ArbiterPubkey kd) of None \<Rightarrow> Some InvalidPubkey
      | Some pub \<Rightarrow>
        if length pub \<noteq> 32 then Some InvalidPubkey
        else case b64_decode (kd_Sig kd) of None \<Rightarrow> Some InvalidSigEncoding
        | Some sig \<Rightarrow>
          if length sig \<noteq> 64 then Some InvalidSigEncoding
          else if \<not> ed_verify E pub (keyCanonical E kd) sig then Some VerificationFailed
          else None)"

definition ParseKeyString :: "crypto \<Rightarrow> key_env \<Rightarrow> string \<Rightarrow> key_error + KeyData" where
  "ParseKeyString C E ks =
     (case b64_decode ks of None \<Rightarrow> Inl Base64Error
      | Some raw \<Rightarrow>
        if length raw < 4 + nonceSize + macSize + 1 then Inl TooShort
        else let magic = word_of_nat (be_nat (take 4 raw)) in
          if magic \<noteq> keyMagicV1 \<and> magic \<noteq> keyMagicV2 then Inl (BadMagic magic)
          else let nonce = take nonceSize (drop 4 raw); ciphertext = drop (4 + nonceSize) raw; dk = deriveKey C 1 in
            if \<not> aead_New_ok dk then Inl AeadInit
            else case aead_open C dk nonce ciphertext of None \<Rightarrow> Inl DecryptFailed
            | Some plaintext \<Rightarrow>
              (case unmarshal_key E plaintext of None \<Rightarrow> Inl JsonError
               | Some kd \<Rightarrow>
                 if Username kd = [] then Inl MissingUsername
                 else if magic = keyMagicV2 then
                   (case verifyKeySignature E kd of Some err \<Rightarrow> Inl err | None \<Rightarrow> Inr kd)
                 else Inr kd))"

section \<open>Encoding\<close>

definition put_be32 :: "32 word \<Rightarrow> bytes" where
  "put_be32 m = map (\<lambda>i. word_of_nat (unat m div 256 ^ i)) [3, 2, 1, 0]"

text \<open>\<open>nonce\<close> are the random bytes drawn, \<open>None\<close> when reading them fails; so is the result.\<close>

definition encodeKey :: "crypto \<Rightarrow> key_env \<Rightarrow> bytes option \<Rightarrow> KeyData \<Rightarrow> 32 word \<Rightarrow> string option" where
  "encodeKey C E nonce kd magic =
     (let plaintext = marshal_key E kd; dk = deriveKey C 1 in
      if \<not> aead_New_ok dk then None
      else case nonce of None \<Rightarrow> None
      | Some n \<Rightarrow> Some (b64_encode (put_be32 magic @ n @ aead_seal C dk n plaintext)))"

definition EncodeKeyString :: "crypto \<Rightarrow> key_env \<Rightarrow> bytes option \<Rightarrow> KeyData \<Rightarrow> string option" where
  "EncodeKeyString C E nonce kd = encodeKey C E nonce kd keyMagicV1"

definition EncodeSignedKeyString :: "crypto \<Rightarrow> key_env \<Rightarrow> bytes option \<Rightarrow> KeyData \<Rightarrow> bytes \<Rightarrow> string option" where
  "EncodeSignedKeyString C E nonce kd priv =
     encodeKey C E nonce (kd\<lparr>kd_Sig := b64_encode (ed_sign E priv (keyCanonical E kd))\<rparr>) keyMagicV2"

section \<open>Properties\<close>

definition ascii :: "string \<Rightarrow> bool" where "ascii s \<longleftrightarrow> list_all (\<lambda>c. (of_char c :: nat) < 128) s"

definition ascii_key :: "KeyData \<Rightarrow> bool" where
  "ascii_key kd \<longleftrightarrow> list_all ascii ([Username kd, Password kd, ArbiterPubkey kd, kd_NodeID kd, APIKey kd, ClientID kd, KeyID kd,
     AuthSig kd, kd_Sig kd] @ Servers kd @ ControlNodes kd)"

definition key_env_ok :: "key_env \<Rightarrow> (bytes \<Rightarrow> bytes) \<Rightarrow> bool" where
  "key_env_ok E pubkey_of \<longleftrightarrow>
     (\<forall>kd. ascii_key kd \<longrightarrow> unmarshal_key E (marshal_key E kd) = Some kd \<and> marshal_key E kd \<noteq> []) \<and>
     (\<forall>priv m. ed_verify E (pubkey_of priv) m (ed_sign E priv m)) \<and>
     (\<forall>priv m. length (ed_sign E priv m) = 64) \<and> (\<forall>priv. length (pubkey_of priv) = 32)"

lemma ascii_b64: "ascii (b64_encode bs)"
proof -
  have "list_all (\<lambda>c. (of_char c :: nat) < 128) encodeURL" by code_simp
  moreover have "length encodeURL = 64" by code_simp
  moreover have "list_all (\<lambda>n. n < 64) (b64_sextets bs)" by (rule b64_sextets_range)
  ultimately show ?thesis by (auto simp: ascii_def b64_encode_def list_all_iff)
qed

lemma put_be32_magic:
  "put_be32 keyMagicV1 = [0x53, 0x4E, 0x43, 1]" "put_be32 keyMagicV2 = [0x53, 0x4E, 0x43, 2]"
  by (simp_all add: put_be32_def keyMagicV1_def keyMagicV2_def)

lemma magic_read:
  "word_of_nat (be_nat (put_be32 keyMagicV1)) = keyMagicV1" "word_of_nat (be_nat (put_be32 keyMagicV2)) = keyMagicV2"
  unfolding put_be32_magic by (simp_all add: be_nat_Cons keyMagicV1_def keyMagicV2_def)

lemma length_put_be32 [simp]: "length (put_be32 m) = 4"
  by (simp add: put_be32_def)

lemma deriveKey_ok: "crypto_ok C \<Longrightarrow> aead_New_ok (deriveKey C s)"
  by (simp add: crypto_ok_def aead_New_ok_def deriveKey_def)

lemma parse_encoded:
  assumes C: "crypto_ok C" and E: "key_env_ok E pubkey_of" and n: "length n = nonceSize"
    and kd: "ascii_key kd" "Username kd \<noteq> []" and m: "magic = keyMagicV1 \<or> magic = keyMagicV2"
    and enc: "encodeKey C E (Some n) kd magic = Some ks"
  shows "ParseKeyString C E ks =
    (if magic = keyMagicV2 then (case verifyKeySignature E kd of Some err \<Rightarrow> Inl err | None \<Rightarrow> Inr kd) else Inr kd)"
proof -
  let ?c = "aead_seal C (deriveKey C 1) n (marshal_key E kd)"
  let ?raw = "put_be32 magic @ n @ ?c"
  have ks: "ks = b64_encode ?raw" using enc deriveKey_ok [OF C] by (simp add: encodeKey_def)
  have json: "unmarshal_key E (marshal_key E kd) = Some kd" "marshal_key E kd \<noteq> []"
    using E kd(1) by (simp_all add: key_env_ok_def)
  have "length ?c = length (marshal_key E kd) + 16" "aead_open C (deriveKey C 1) n ?c = Some (marshal_key E kd)"
    using C by (simp_all add: crypto_ok_def aead_overhead_def)
  moreover have "length (marshal_key E kd) > 0" using json(2) by simp
  ultimately have len: "\<not> length ?raw < 4 + nonceSize + macSize + 1"
    and opened: "aead_open C (deriveKey C 1) (take nonceSize (drop 4 ?raw)) (drop (4 + nonceSize) ?raw) = Some (marshal_key E kd)"
    using n by (simp_all add: macSize_def)
  have magic: "word_of_nat (be_nat (take 4 ?raw)) = magic" using m magic_read by auto
  show ?thesis
    unfolding ParseKeyString_def ks b64_decode_encode option.case Let_def magic opened json(1)
    using len m deriveKey_ok [OF C] kd(2) by auto
qed


text \<open>An environment that meets the laws: the strings of a key, each ended by the byte 255, and constant
  signatures.\<close>

definition enc_strings :: "string list \<Rightarrow> bytes" where "enc_strings ss = concat (map (\<lambda>s. str_bytes s @ [255]) ss)"

fun dec_strings :: "bytes \<Rightarrow> bytes \<Rightarrow> string list" where
  "dec_strings [] acc = []"
| "dec_strings (b # bs) acc = (if b = 255 then bytes_str (rev acc) # dec_strings bs [] else dec_strings bs (b # acc))"

definition key_strings :: "KeyData \<Rightarrow> string list" where
  "key_strings kd = [Username kd, Password kd, ArbiterPubkey kd, kd_NodeID kd, APIKey kd, ClientID kd, KeyID kd, AuthSig kd,
     kd_Sig kd, if IsAdmin kd then ''1'' else [], replicate (length (Servers kd)) CHR ''1''] @ Servers kd @ ControlNodes kd"

definition strings_key :: "string list \<Rightarrow> KeyData" where
  "strings_key l = (let n = length (l ! 10) in \<lparr>Username = l ! 0, Password = l ! 1, Servers = take n (drop 11 l),
     ControlNodes = drop n (drop 11 l), ArbiterPubkey = l ! 2, kd_NodeID = l ! 3, APIKey = l ! 4, ClientID = l ! 5, KeyID = l ! 6,
     AuthSig = l ! 7, kd_Sig = l ! 8, IsAdmin = (l ! 9 = ''1'')\<rparr>)"

lemma strings_key_inverse: "strings_key (key_strings kd) = kd"
  by (simp add: strings_key_def key_strings_def Let_def del: drop_drop)

lemma dec_enc_string: "ascii s \<Longrightarrow> dec_strings (str_bytes s @ 255 # rest) acc = bytes_str (rev acc @ str_bytes s) # dec_strings rest []"
proof (induction s arbitrary: acc)
  case (Cons c s)
  have small: "(of_char c :: nat) < 128" using Cons.prems by (simp add: ascii_def)
  have "unat (word_of_nat (of_char c) :: byte) = of_char c" using small by (simp add: unat_of_nat)
  moreover have "unat (255 :: byte) = 255" by simp
  ultimately have "(word_of_nat (of_char c) :: byte) \<noteq> 255" using small by fastforce
  then show ?case using Cons by (simp add: ascii_def str_bytes_def)
qed (simp add: str_bytes_def)

lemma dec_enc_strings: "list_all ascii ss \<Longrightarrow> dec_strings (enc_strings ss) [] = ss"
  by (induction ss) (simp_all add: enc_strings_def dec_enc_string)

definition sample_key_env :: key_env where
  "sample_key_env = \<lparr>marshal_key = (\<lambda>kd. enc_strings (key_strings kd)), unmarshal_key = (\<lambda>b. Some (strings_key (dec_strings b []))),
     marshal_canonical = (\<lambda>c. str_bytes (c_Username c)), ed_sign = (\<lambda>priv m. replicate 64 0),
     ed_verify = (\<lambda>pub m sig. sig = replicate 64 0)\<rparr>"

lemma sample_key_env_ok: "key_env_ok sample_key_env (\<lambda>priv. replicate 32 0)"
proof -
  have "dec_strings (enc_strings (key_strings kd)) [] = key_strings kd" if "ascii_key kd" for kd
    using that by (intro dec_enc_strings) (auto simp: ascii_key_def key_strings_def ascii_def list_all_iff)
  moreover have "enc_strings (key_strings kd) \<noteq> []" for kd by (simp add: enc_strings_def key_strings_def)
  ultimately show ?thesis by (simp add: key_env_ok_def sample_key_env_def strings_key_inverse)
qed

definition sample_key :: KeyData where
  "sample_key = \<lparr>Username = ''u'', Password = ''p'', Servers = [], ControlNodes = [''c''], ArbiterPubkey = hex_encode (replicate 32 0),
     kd_NodeID = ''n'', APIKey = [], ClientID = [], KeyID = [], AuthSig = [], kd_Sig = [], IsAdmin = False\<rparr>"

lemma sample_key_ascii: "ascii_key sample_key"
proof -
  have "ascii (hex_encode (replicate 32 0))"
    using hex_encode_chars [of _ "replicate 32 0"] by (fastforce simp: ascii_def list_all_iff)
  then show ?thesis by (simp add: ascii_key_def sample_key_def ascii_def)
qed




end
