(* ===== verification/Tunnel_Watchdog.thy ===== *)
theory Tunnel_Watchdog
  imports Prelude
begin

text \<open>
  The client's tunnel watchdog (\<open>src/snc/core/watchdog.go\<close>) and the state file it shares with the watchdog
  process (\<open>src/snc/core/watchdog_state.go\<close>). A connection that has never sent or received has the zero
  time. The scan of \<open>IsStuck\<close> goes through the connections in the order of the map and may return before
  the end; the theorem shows that its verdict does not depend on that order.
\<close>

section \<open>Traffic monitor\<close>

record connActivity =
  firstSentAt :: gotime
  lastSentAt :: gotime
  lastGoodRecvAt :: gotime

record TunnelTrafficMonitor =
  conns :: "(string, connActivity) gomap"
  lastAnyRecvAt :: gotime
  totalBytesSent :: int
  totalBytesRecv :: int

definition TunnelMonitor :: TunnelTrafficMonitor where
  "TunnelMonitor = \<lparr>conns = gm_empty, lastAnyRecvAt = zero_time, totalBytesSent = 0, totalBytesRecv = 0\<rparr>"

definition RecordAnyResponse :: "gotime \<Rightarrow> TunnelTrafficMonitor \<Rightarrow> TunnelTrafficMonitor" where
  "RecordAnyResponse now m = m\<lparr>lastAnyRecvAt := now\<rparr>"

definition TotalBytes :: "TunnelTrafficMonitor \<Rightarrow> int \<times> int" where
  "TotalBytes m = (totalBytesSent m, totalBytesRecv m)"

definition entryLocked :: "string \<Rightarrow> TunnelTrafficMonitor \<Rightarrow> connActivity" where
  "entryLocked connID m = (case gm_get (conns m) connID of Some c \<Rightarrow> c
     | None \<Rightarrow> \<lparr>firstSentAt = zero_time, lastSentAt = zero_time, lastGoodRecvAt = zero_time\<rparr>)"

definition RecordTunnelSent :: "gotime \<Rightarrow> string \<Rightarrow> int \<Rightarrow> TunnelTrafficMonitor \<Rightarrow> TunnelTrafficMonitor" where
  "RecordTunnelSent now connID n m =
     (if n = 0 \<or> connID = [] then m
      else let c = entryLocked connID m;
               c1 = c\<lparr>firstSentAt := if firstSentAt c = zero_time then now else firstSentAt c, lastSentAt := now\<rparr>
           in m\<lparr>totalBytesSent := wrap64 (totalBytesSent m + n), conns := gm_put connID c1 (conns m)\<rparr>)"

definition RecordTunnelRecv :: "gotime \<Rightarrow> string \<Rightarrow> int \<Rightarrow> TunnelTrafficMonitor \<Rightarrow> TunnelTrafficMonitor" where
  "RecordTunnelRecv now connID n m =
     (if n = 0 \<or> connID = [] then m
      else m\<lparr>totalBytesRecv := wrap64 (totalBytesRecv m + n),
             conns := gm_put connID ((entryLocked connID m)\<lparr>lastGoodRecvAt := now\<rparr>) (conns m)\<rparr>)"

definition Forget :: "string \<Rightarrow> TunnelTrafficMonitor \<Rightarrow> TunnelTrafficMonitor" where
  "Forget connID m = (if connID = [] then m else m\<lparr>conns := gm_del connID (conns m)\<rparr>)"

definition monitor_Reset :: "TunnelTrafficMonitor \<Rightarrow> TunnelTrafficMonitor" where
  "monitor_Reset m = m\<lparr>conns := gm_empty\<rparr>"

definition tunnelStuckTimeout :: duration where "tunnelStuckTimeout = 10 * second"
definition connActivityTTL :: duration where "connActivityTTL = 2 * minute"

text \<open>The loop over the connections: its verdict and the connections left. A connection in its grace
  period or with a recent reply ends the loop at once.\<close>

fun stuck_scan :: "gotime \<Rightarrow> (string, connActivity) gomap \<Rightarrow> bool \<Rightarrow> bool \<times> (string, connActivity) gomap" where
  "stuck_scan now [] sawRecentSend = (sawRecentSend, [])"
| "stuck_scan now ((connID, c) # m) sawRecentSend =
     (if time_sub now (lastSentAt c) > connActivityTTL then stuck_scan now m sawRecentSend
      else if time_sub now (lastSentAt c) > tunnelStuckTimeout then
        (let (r, m') = stuck_scan now m sawRecentSend in (r, (connID, c) # m'))
      else if lastGoodRecvAt c = zero_time then
        (if time_sub now (firstSentAt c) \<le> tunnelStuckTimeout then (False, (connID, c) # m)
         else let (r, m') = stuck_scan now m True in (r, (connID, c) # m'))
      else if time_sub now (lastGoodRecvAt c) \<le> tunnelStuckTimeout then (False, (connID, c) # m)
      else let (r, m') = stuck_scan now m True in (r, (connID, c) # m'))"

definition IsStuck :: "gotime \<Rightarrow> TunnelTrafficMonitor \<Rightarrow> bool \<times> TunnelTrafficMonitor" where
  "IsStuck now m =
     (if lastAnyRecvAt m \<noteq> zero_time \<and> time_sub now (lastAnyRecvAt m) \<le> tunnelStuckTimeout then (False, m)
      else let (r, cs) = stuck_scan now (conns m) False in (r, m\<lparr>conns := cs\<rparr>))"

section \<open>When the tunnel counts as stuck\<close>

definition recent_send :: "gotime \<Rightarrow> connActivity \<Rightarrow> bool" where
  "recent_send now c \<longleftrightarrow> now - lastSentAt c \<le> 10 * second"

definition one_sided :: "gotime \<Rightarrow> connActivity \<Rightarrow> bool" where
  "one_sided now c \<longleftrightarrow> (if lastGoodRecvAt c = zero_time then now - firstSentAt c > 10 * second
     else now - lastGoodRecvAt c > 10 * second)"

lemma watchdog_times:
  "time_sub now t > connActivityTTL \<longleftrightarrow> now - t > 120 * second"
  "time_sub now t > tunnelStuckTimeout \<longleftrightarrow> now - t > 10 * second"
  "time_sub now t \<le> tunnelStuckTimeout \<longleftrightarrow> now - t \<le> 10 * second"
  by (simp_all add: connActivityTTL_def tunnelStuckTimeout_def go_time duration_defs)

lemma stuck_scan_verdict:
  "fst (stuck_scan now m saw) \<longleftrightarrow>
     (saw \<or> (\<exists>(k, c) \<in> set m. recent_send now c)) \<and> (\<forall>(k, c) \<in> set m. recent_send now c \<longrightarrow> one_sided now c)"
proof (induction m arbitrary: saw)
  case (Cons p m)
  obtain k c where p: "p = (k, c)" by (cases p)
  have sec: "10 * second < 120 * second" by (simp add: duration_defs)
  consider (idle) "\<not> recent_send now c" | (alive) "recent_send now c" "\<not> one_sided now c" | (silent) "recent_send now c" "one_sided now c"
    by blast
  then show ?case
  proof cases
    case idle
    then have "fst (stuck_scan now (p # m) saw) = fst (stuck_scan now m saw)"
      by (auto simp: p recent_send_def watchdog_times case_prod_unfold Let_def)
    then show ?thesis using Cons.IH idle by (simp add: p)
  next
    case alive
    then have "fst (stuck_scan now (p # m) saw) = False"
      using sec by (auto simp: p recent_send_def one_sided_def watchdog_times not_less split: if_splits)
    then show ?thesis using alive by (simp add: p)
  next
    case silent
    then have "fst (stuck_scan now (p # m) saw) = fst (stuck_scan now m True)"
      using sec by (auto simp: p recent_send_def one_sided_def watchdog_times not_less case_prod_unfold Let_def split: if_splits)
    then show ?thesis using Cons.IH silent by (simp add: p)
  qed
qed simp

lemma stuck_scan_keeps:
  "(k, c) \<in> set m \<Longrightarrow> now - lastSentAt c \<le> 120 * second \<Longrightarrow> (k, c) \<in> set (snd (stuck_scan now m saw))"
proof (induction m arbitrary: saw)
  case (Cons p m)
  obtain k' c' where p: "p = (k', c')" by (cases p)
  show ?case using Cons by (auto simp: p watchdog_times case_prod_unfold Let_def)
qed simp

lemma stuck_scan_subset: "set (snd (stuck_scan now m saw)) \<subseteq> set m"
  by (induction now m saw rule: stuck_scan.induct) (auto simp: case_prod_unfold Let_def)

text \<open>Watchdog verdict: the tunnel counts as stuck exactly when no control node has answered in the
  last ten seconds, some connection has sent in that time, and every connection that has is
  one-sided: its last reply, or its first send if it never had a reply, is more than ten seconds ago.
  The verdict does not depend on the order of the scan. A check forgets no connection that has sent
  within two minutes and changes none.\<close>

theorem watchdog_verdict:
  assumes "IsStuck now m = (stuck, m')"
  shows "(stuck \<longleftrightarrow> \<not> (lastAnyRecvAt m \<noteq> zero_time \<and> now - lastAnyRecvAt m \<le> 10 * second) \<and>
      (\<exists>(k, c) \<in> set (conns m). recent_send now c) \<and> (\<forall>(k, c) \<in> set (conns m). recent_send now c \<longrightarrow> one_sided now c)) \<and>
    set (conns m') \<subseteq> set (conns m) \<and>
    (\<forall>(k, c) \<in> set (conns m). now - lastSentAt c \<le> 2 * minute \<longrightarrow> (k, c) \<in> set (conns m'))"
proof (cases "lastAnyRecvAt m \<noteq> zero_time \<and> now - lastAnyRecvAt m \<le> 10 * second")
  case True
  then have "stuck = False" "m' = m" using assms by (simp_all add: IsStuck_def watchdog_times)
  then show ?thesis using True by auto
next
  case False
  have eq: "stuck = fst (stuck_scan now (conns m) False)" "conns m' = snd (stuck_scan now (conns m) False)"
    using assms False by (auto simp: IsStuck_def watchdog_times case_prod_unfold Let_def split: if_splits)
  have min: "2 * minute = 120 * second" by (simp add: duration_defs)
  show ?thesis
    using False stuck_scan_verdict [of now "conns m" False] stuck_scan_subset [of now "conns m" False]
      stuck_scan_keeps [of _ _ "conns m" now False]
    unfolding eq min by auto
qed

definition sample_monitor :: TunnelTrafficMonitor where
  "sample_monitor = RecordTunnelSent (20 * second) ''b'' 9 (RecordTunnelSent 0 ''a'' 5 TunnelMonitor)"

theorem watchdog_verdict_witness:
  "\<exists>m'. IsStuck (31 * second) (RecordTunnelSent (30 * second) ''b'' 1 sample_monitor) = (True, m')"
proof -
  let ?m = "RecordTunnelSent (30 * second) ''b'' 1 sample_monitor"
  obtain stuck m' where run: "IsStuck (31 * second) ?m = (stuck, m')" by fastforce
  have m: "conns ?m = [(''a'', \<lparr>firstSentAt = 0, lastSentAt = 0, lastGoodRecvAt = zero_time\<rparr>),
      (''b'', \<lparr>firstSentAt = 20 * second, lastSentAt = 30 * second, lastGoodRecvAt = zero_time\<rparr>)]" "lastAnyRecvAt ?m = zero_time"
    by (simp_all add: sample_monitor_def RecordTunnelSent_def TunnelMonitor_def entryLocked_def gm_put_def gm_get_def gm_empty_def
        Let_def zero_time_def duration_defs)
  have "stuck" using watchdog_verdict [OF run] unfolding m
    by (simp add: recent_send_def one_sided_def duration_defs zero_time_def)
  then show ?thesis using run by simp
qed

text \<open>An idle connection does not keep the tunnel from counting as stuck.\<close>

lemma idle_connection_no_veto:
  "fst (stuck_scan (100 * second) [(''idle'', \<lparr>firstSentAt = 0, lastSentAt = 80 * second, lastGoodRecvAt = 85 * second\<rparr>),
     (''silent'', \<lparr>firstSentAt = 0, lastSentAt = 99 * second, lastGoodRecvAt = zero_time\<rparr>)] False)"
  unfolding stuck_scan_verdict by (simp add: recent_send_def one_sided_def duration_defs zero_time_def)

section \<open>State file\<close>

record WatchdogState =
  Connected :: bool
  OrigGW :: string
  MainPID :: int
  LastAlive :: int
  LastWake :: int
  TunnelHealthy :: bool

definition zero_state :: WatchdogState where
  "zero_state = \<lparr>Connected = False, OrigGW = [], MainPID = 0, LastAlive = 0, LastWake = 0, TunnelHealthy = False\<rparr>"

text \<open>The JSON form: encoding may fail; decoding fills in what it can, so it returns a state in any
  case. \<open>None\<close> is a file that cannot be read.\<close>

record state_codec =
  encode_state :: "WatchdogState \<Rightarrow> bytes option"
  decode_state :: "bytes \<Rightarrow> WatchdogState"

definition WriteWatchdogState :: "state_codec \<Rightarrow> bool \<Rightarrow> WatchdogState \<Rightarrow> bytes option \<Rightarrow> bytes option" where
  "WriteWatchdogState J mkdir s disk = (case encode_state J s of None \<Rightarrow> disk
     | Some data \<Rightarrow> if \<not> mkdir then disk else Some data)"

definition ReadWatchdogState :: "state_codec \<Rightarrow> bytes option \<Rightarrow> WatchdogState" where
  "ReadWatchdogState J disk = (case disk of None \<Rightarrow> zero_state | Some data \<Rightarrow> decode_state J data)"

definition update_state :: "state_codec \<Rightarrow> (WatchdogState \<Rightarrow> WatchdogState) \<Rightarrow> bytes option \<Rightarrow> bytes option" where
  "update_state J f disk = (let data = (case disk of None \<Rightarrow> [] | Some d \<Rightarrow> d) in
     case encode_state J (f (decode_state J data)) of None \<Rightarrow> disk | Some b \<Rightarrow> Some b)"

definition TouchAlive :: "state_codec \<Rightarrow> gotime \<Rightarrow> bytes option \<Rightarrow> bytes option" where
  "TouchAlive J now = update_state J (\<lambda>s. s\<lparr>LastAlive := time_unix now\<rparr>)"

definition TouchLastWake :: "state_codec \<Rightarrow> gotime \<Rightarrow> bytes option \<Rightarrow> bytes option" where
  "TouchLastWake J now = update_state J (\<lambda>s. s\<lparr>LastWake := time_unix now\<rparr>)"

definition SetTunnelHealthy :: "state_codec \<Rightarrow> bool \<Rightarrow> bytes option \<Rightarrow> bytes option" where
  "SetTunnelHealthy J healthy = update_state J (\<lambda>s. s\<lparr>TunnelHealthy := healthy\<rparr>)"

text \<open>When states survive the round trip, each of the three updates changes its own field only, also on
  a missing file.\<close>

definition state_codec_ok :: "state_codec \<Rightarrow> bool" where
  "state_codec_ok J \<longleftrightarrow> (\<forall>s b. encode_state J s = Some b \<longrightarrow> decode_state J b = s) \<and> (\<forall>s. encode_state J s \<noteq> None) \<and>
     decode_state J [] = zero_state"

lemma update_state_read:
  assumes "state_codec_ok J"
  shows "ReadWatchdogState J (update_state J f disk) = f (ReadWatchdogState J disk)"
proof -
  let ?s = "f (ReadWatchdogState J disk)"
  have "decode_state J (case disk of None \<Rightarrow> [] | Some d \<Rightarrow> d) = ReadWatchdogState J disk"
    using assms by (simp add: state_codec_ok_def ReadWatchdogState_def split: option.splits)
  moreover obtain b where "encode_state J ?s = Some b"
    using assms unfolding state_codec_ok_def by (metis not_None_eq)
  moreover have "decode_state J b = ?s" using calculation(2) assms by (auto simp: state_codec_ok_def)
  ultimately show ?thesis by (simp add: update_state_def ReadWatchdogState_def [of J "Some b"])
qed

end
