(* ===== verification/Dns_Cache.thy ===== *)
theory Dns_Cache
  imports Go_Lib
begin

text \<open>
  The client's DNS cache (\<open>src/snc/core/dns_cache.go\<close>): addresses to names and names to IPv4 addresses, learnt
  from DNS responses. The message parser is code of \<open>golang.org/x/net\<close>: a response is the list of what
  the parser's calls return. \<open>ip_string\<close> is \<open>net.IP.String\<close> on the 16 bytes of an IPv6 address.
\<close>

section \<open>Operations\<close>

record dnsCacheEntry =
  de_fqdn :: string
  de_expires :: gotime

record hostCacheEntry =
  he_ipv4 :: string
  he_expires :: gotime

record dnsCache =
  dc_m :: "(string, dnsCacheEntry) gomap"
  dc_byHost :: "(string, hostCacheEntry) gomap"

definition GlobalDNSCache :: dnsCache where "GlobalDNSCache = \<lparr>dc_m = gm_empty, dc_byHost = gm_empty\<rparr>"

definition ToLower :: "string \<Rightarrow> string" where "ToLower = map to_lower"

definition cap_ttl :: "duration \<Rightarrow> duration" where
  "cap_ttl ttl = (let t = (if ttl < 5 * minute then 5 * minute else ttl) in if t > 24 * hour then 24 * hour else t)"

definition dns_Set :: "gotime \<Rightarrow> string \<Rightarrow> string \<Rightarrow> duration \<Rightarrow> dnsCache \<Rightarrow> dnsCache" where
  "dns_Set now ip fqdn ttl c = c\<lparr>dc_m := gm_put ip \<lparr>de_fqdn = ToLower fqdn, de_expires = now + cap_ttl ttl\<rparr> (dc_m c)\<rparr>"

definition dns_Get :: "gotime \<Rightarrow> string \<Rightarrow> dnsCache \<Rightarrow> string" where
  "dns_Get now ip c = (case gm_get (dc_m c) ip of None \<Rightarrow> [] | Some e \<Rightarrow> if now > de_expires e then [] else de_fqdn e)"

definition setHost :: "gotime \<Rightarrow> string \<Rightarrow> string \<Rightarrow> duration \<Rightarrow> dnsCache \<Rightarrow> dnsCache" where
  "setHost now fqdn ipv4 ttl c =
     c\<lparr>dc_byHost := gm_put (ToLower fqdn) \<lparr>he_ipv4 = ipv4, he_expires = now + cap_ttl ttl\<rparr> (dc_byHost c)\<rparr>"

definition GetIPv4ForHost :: "gotime \<Rightarrow> string \<Rightarrow> dnsCache \<Rightarrow> string" where
  "GetIPv4ForHost now fqdn c = (case gm_get (dc_byHost c) (ToLower fqdn) of None \<Rightarrow> []
     | Some e \<Rightarrow> if now > he_expires e then [] else he_ipv4 e)"

definition sweep_ips :: "gotime \<Rightarrow> (string, dnsCacheEntry) gomap \<Rightarrow> (string, dnsCacheEntry) gomap" where
  "sweep_ips now m = gm_sweep (\<lambda>k e. now > de_expires e) m"

definition sweep_hosts :: "gotime \<Rightarrow> (string, hostCacheEntry) gomap \<Rightarrow> (string, hostCacheEntry) gomap" where
  "sweep_hosts now m = gm_sweep (\<lambda>k e. now > he_expires e) m"

definition dns_cleanup :: "gotime \<Rightarrow> dnsCache \<Rightarrow> dnsCache" where
  "dns_cleanup now c = c\<lparr>dc_m := sweep_ips now (dc_m c), dc_byHost := sweep_hosts now (dc_byHost c)\<rparr>"

text \<open>What the parser finds: no valid start, or questions that cannot be skipped, or the answers one
  after the other. The clock is read once for a whole message. An answer is an A or AAAA record with name, TTL and address, another record, or
  a record whose body cannot be parsed.\<close>

datatype dns_answer = AAnswer string "32 word" bytes | AAAAAnswer string "32 word" bytes | OtherAnswer | BadBody

type_synonym dns_parse = "dns_answer list option"

definition ip4_string :: "bytes \<Rightarrow> string" where
  "ip4_string b = (case map (dec_nat \<circ> unat) b of
     [w, x, y, z] \<Rightarrow> w @ ''.'' @ x @ ''.'' @ y @ ''.'' @ z | _ \<Rightarrow> [])"

fun learn_answers :: "(bytes \<Rightarrow> string) \<Rightarrow> gotime \<Rightarrow> dns_answer list \<Rightarrow> dnsCache \<Rightarrow> dnsCache" where
  "learn_answers ip_string now [] c = c"
| "learn_answers ip_string now (AAnswer fqdn ttl a # as) c =
     learn_answers ip_string now as
       (setHost now fqdn (ip4_string a) (uint ttl * second) (dns_Set now (ip4_string a) fqdn (uint ttl * second) c))"
| "learn_answers ip_string now (AAAAAnswer fqdn ttl a # as) c =
     learn_answers ip_string now as (dns_Set now (ip_string a) fqdn (uint ttl * second) c)"
| "learn_answers ip_string now (OtherAnswer # as) c = learn_answers ip_string now as c"
| "learn_answers ip_string now (BadBody # as) c = c"

definition ParseAndLearn :: "(bytes \<Rightarrow> string) \<Rightarrow> gotime \<Rightarrow> dns_parse \<Rightarrow> dnsCache \<Rightarrow> dnsCache" where
  "ParseAndLearn ip_string now msg c = (case msg of None \<Rightarrow> c | Some as \<Rightarrow> learn_answers ip_string now as c)"

section \<open>The cache over time\<close>

lemma cap_ttl_bounds: "5 * minute \<le> cap_ttl ttl \<and> cap_ttl ttl \<le> 24 * hour"
  by (simp add: cap_ttl_def Let_def duration_defs)

interpretation dns_ips: idle_sweep sweep_ips de_expires 0
  by unfold_locales (auto simp: sweep_ips_def gm_get_sweep split: option.splits)

interpretation dns_hosts: idle_sweep sweep_hosts he_expires 0
  by unfold_locales (auto simp: sweep_hosts_def gm_get_sweep split: option.splits)

datatype dns_op = OpSet gotime string string duration | OpSetHost gotime string string duration | OpCleanup gotime

fun dns_step :: "dns_op \<Rightarrow> dnsCache \<Rightarrow> dnsCache" where
  "dns_step (OpSet now ip fqdn ttl) c = dns_Set now ip fqdn ttl c"
| "dns_step (OpSetHost now fqdn ip ttl) c = setHost now fqdn ip ttl c"
| "dns_step (OpCleanup now) c = dns_cleanup now c"

fun op_time :: "dns_op \<Rightarrow> gotime" where
  "op_time (OpSet now _ _ _) = now"
| "op_time (OpSetHost now _ _ _) = now"
| "op_time (OpCleanup now) = now"

text \<open>The specification: the newest entry for the address decides, if it has not run out. The history has
  the newest operation first.\<close>

fun spec_Get :: "gotime \<Rightarrow> string \<Rightarrow> dns_op list \<Rightarrow> string" where
  "spec_Get now ip [] = []"
| "spec_Get now ip (OpSet t ip' fqdn ttl # h) =
     (if ip' = ip then (if now > t + cap_ttl ttl then [] else ToLower fqdn) else spec_Get now ip h)"
| "spec_Get now ip (_ # h) = spec_Get now ip h"

fun spec_Host :: "gotime \<Rightarrow> string \<Rightarrow> dns_op list \<Rightarrow> string" where
  "spec_Host now host [] = []"
| "spec_Host now host (OpSetHost t fqdn ip ttl # h) =
     (if ToLower fqdn = ToLower host then (if now > t + cap_ttl ttl then [] else ip) else spec_Host now host h)"
| "spec_Host now host (_ # h) = spec_Host now host h"

definition dns_wf :: "dnsCache \<Rightarrow> bool" where "dns_wf c \<longleftrightarrow> gm_wf (dc_m c) \<and> gm_wf (dc_byHost c)"

lemma dns_step_wf: "dns_wf c \<Longrightarrow> dns_wf (dns_step x c)"
  by (cases x) (auto simp: dns_wf_def dns_Set_def setHost_def dns_cleanup_def intro: dns_ips.sweep_wf dns_hosts.sweep_wf)

lemma cleanup_invisible:
  assumes "dns_wf c" and "t \<le> now"
  shows "dns_Get now ip (dns_cleanup t c) = dns_Get now ip c" "GetIPv4ForHost now h (dns_cleanup t c) = GetIPv4ForHost now h c"
  using assms dns_ips.sweep_get [of "dc_m c" t ip] dns_hosts.sweep_get [of "dc_byHost c" t "ToLower h"]
  by (auto simp: dns_wf_def dns_Get_def GetIPv4ForHost_def dns_cleanup_def split: option.splits)

lemma dns_history:
  "\<forall>x \<in> set h. op_time x \<le> now \<Longrightarrow>
   dns_wf (foldr dns_step h GlobalDNSCache) \<and> dns_Get now ip (foldr dns_step h GlobalDNSCache) = spec_Get now ip h \<and>
   GetIPv4ForHost now host (foldr dns_step h GlobalDNSCache) = spec_Host now host h"
proof (induction h)
  case Nil
  then show ?case by (simp add: GlobalDNSCache_def dns_wf_def dns_Get_def GetIPv4ForHost_def)
next
  case (Cons x h)
  let ?c = "foldr dns_step h GlobalDNSCache"
  have ih: "dns_wf ?c" "dns_Get now ip ?c = spec_Get now ip h" "GetIPv4ForHost now host ?c = spec_Host now host h"
    using Cons by simp_all
  have wf: "dns_wf (dns_step x ?c)" using ih(1) dns_step_wf by blast
  show ?case
  proof (cases x)
    case (OpSet t a f ttl)
    then show ?thesis using wf ih by (auto simp: dns_Set_def dns_Get_def GetIPv4ForHost_def)
  next
    case (OpSetHost t f a ttl)
    then show ?thesis using wf ih by (auto simp: setHost_def dns_Get_def GetIPv4ForHost_def)
  next
    case (OpCleanup t)
    then show ?thesis using wf ih cleanup_invisible [OF ih(1), of t now] Cons.prems by simp
  qed
qed



text \<open>Learning from a response is a sequence of these operations.\<close>

lemma learn_answers_steps:
  "\<exists>ops. (\<forall>x \<in> set ops. op_time x = now) \<and> learn_answers ips now as c = foldr dns_step ops c"
proof (induction ips now as c rule: learn_answers.induct)
  case (2 ips now fqdn ttl a as c)
  then obtain ops where "\<forall>x \<in> set ops. op_time x = now" and
    "learn_answers ips now (AAnswer fqdn ttl a # as) c =
      foldr dns_step ops (setHost now fqdn (ip4_string a) (uint ttl * second) (dns_Set now (ip4_string a) fqdn (uint ttl * second) c))"
    by auto
  then show ?case
    by (intro exI [of _ "ops @ [OpSetHost now fqdn (ip4_string a) (uint ttl * second), OpSet now (ip4_string a) fqdn (uint ttl * second)]"]) auto
next
  case (3 ips now fqdn ttl a as c)
  then obtain ops where "\<forall>x \<in> set ops. op_time x = now" and
    "learn_answers ips now (AAAAAnswer fqdn ttl a # as) c = foldr dns_step ops (dns_Set now (ips a) fqdn (uint ttl * second) c)"
    by auto
  then show ?case by (intro exI [of _ "ops @ [OpSet now (ips a) fqdn (uint ttl * second)]"]) auto
qed (auto intro: exI [of _ "[]"])

end
