(* ===== verification/Url.thy ===== *)
theory Url
  imports Exit_NodeProxy
begin

text \<open>
  The parts of \<open>net/url\<close> and \<open>net/http\<close> by which a request of one node becomes an incoming request of another:
  query escaping and its inverse, and the split of a URL into host, path and query. Only what
  the sources build is covered: \<open>https\<close> URLs with a plain path and at most one query parameter.
\<close>

section \<open>Query escaping\<close>

definition unreserved :: "char \<Rightarrow> bool" where
  "unreserved c = (let n = of_char c :: nat in 97 \<le> n \<and> n \<le> 122 \<or> 65 \<le> n \<and> n \<le> 90 \<or> 48 \<le> n \<and> n \<le> 57 \<or>
     c \<in> {CHR ''-'', CHR ''_'', CHR ''.'', CHR ''~''})"

definition upperhex :: string where "upperhex = map char_of ([48..<58] @ [65..<71])"

definition escape_char :: "char \<Rightarrow> string" where
  "escape_char c = (if unreserved c then [c] else if c = CHR '' '' then ''+''
     else let n = of_char c :: nat in [CHR ''%'', upperhex ! (n div 16), upperhex ! (n mod 16)])"

definition QueryEscape :: "string \<Rightarrow> string" where "QueryEscape s = concat (map escape_char s)"

fun QueryUnescape :: "string \<Rightarrow> string option" where
  "QueryUnescape [] = Some []"
| "QueryUnescape (c # s) =
     (if c = CHR ''%'' then
        (case s of x # y # t \<Rightarrow>
           (case (fromHexChar x, fromHexChar y, QueryUnescape t) of
              (Some a, Some b, Some r) \<Rightarrow> Some (char_of (unat a * 16 + unat b) # r) | _ \<Rightarrow> None)
         | _ \<Rightarrow> None)
      else map_option ((#) (if c = CHR ''+'' then CHR '' '' else c)) (QueryUnescape s))"

lemma upperhex_code: "n < 16 \<Longrightarrow> upperhex ! n = char_of (if n < 10 then n + 48 else n + (55 :: nat))"
  using nth_upt_append2 [of n 58 48 71 65 char_of, folded upperhex_def] by (auto simp: add.commute)

lemma fromHexChar_upper: "n < 16 \<Longrightarrow> \<exists>v. fromHexChar (upperhex ! n) = Some v \<and> unat v = n"
  by (auto simp: upperhex_code fromHexChar_def of_char_of Let_def unat_of_nat)

lemma char_nibbles: "(of_char c :: nat) div 16 < 16" "(of_char c :: nat) mod 16 < 16"
  by (rule less_mult_imp_div_less, simp) simp

lemma unescape_char:
  "QueryUnescape (escape_char c @ s) = map_option ((#) c) (QueryUnescape s)"
proof (cases "unreserved c \<or> c = CHR '' ''")
  case True
  moreover have "\<not> unreserved CHR ''%''" "\<not> unreserved CHR ''+''" by (simp_all add: unreserved_def Let_def)
  ultimately show ?thesis by (auto simp: escape_char_def)
next
  case False
  let ?n = "of_char c :: nat"
  obtain a b where "fromHexChar (upperhex ! (?n div 16)) = Some a" "unat a = ?n div 16"
    "fromHexChar (upperhex ! (?n mod 16)) = Some b" "unat b = ?n mod 16"
    using fromHexChar_upper [OF char_nibbles(1)] fromHexChar_upper [OF char_nibbles(2)] by blast
  moreover have "char_of (?n div 16 * 16 + ?n mod 16) = c" by (simp only: div_mult_mod_eq char_of_char)
  ultimately show ?thesis using False by (simp add: escape_char_def Let_def split: option.splits)
qed

lemma query_roundtrip [simp]: "QueryUnescape (QueryEscape s) = Some s"
  by (induction s) (simp_all add: QueryEscape_def unescape_char)

section \<open>From request to request\<close>

text \<open>A query of at most one parameter; a parameter that cannot be unescaped is dropped.\<close>

definition ParseQuery :: "string \<Rightarrow> (string \<times> string) list" where
  "ParseQuery q = (case index_of CHR ''='' q of None \<Rightarrow> []
     | Some i \<Rightarrow> (case (QueryUnescape (take i q), QueryUnescape (drop (i + 1) q)) of (Some k, Some v) \<Rightarrow> [(k, v)] | _ \<Rightarrow> []))"

definition url_path_query :: "string \<Rightarrow> string \<times> string" where
  "url_path_query u = (let rest = dropWhile (\<lambda>c. c \<noteq> CHR ''/'') (TrimPrefix ''https://'' u) in
     case index_of CHR ''?'' rest of None \<Rightarrow> (rest, []) | Some i \<Rightarrow> (take i rest, drop (i + 1) rest))"

definition incoming_of :: "string \<Rightarrow> request \<Rightarrow> incoming" where
  "incoming_of remote rq = (let (path, query) = url_path_query (rq_url rq) in
     \<lparr>in_method = rq_method rq, in_path = path, in_query = ParseQuery query, in_header = rq_header rq,
      in_body = rq_body rq, in_remote = remote\<rparr>)"

text \<open>The exit at the other end of a request that reaches it.\<close>

definition exit_serves :: "np_world \<Rightarrow> nodeProxy \<Rightarrow> string \<Rightarrow> request \<Rightarrow> http_result" where
  "exit_serves W np remote rq = (case fst (ServeHTTP W np (incoming_of remote rq)) of
     Answer st body \<Rightarrow> Response st body | Forwarded \<Rightarrow> DoFailed)"

end
