(* ===== verification/Control_Caches.thy ===== *)
theory Control_Caches
  imports Exit_Refresh Url
begin

text \<open>
  The login responses a control node keeps (\<open>src/snc-control/auth_cache.go\<close>), and what its caches have in
  common: a call picks a random exit of the registry and sends it a request; the random source, the
  clock, the exits cache file and the network are in \<open>call_env\<close>.
\<close>

record call_env =
  ce_codec :: exits_codec
  ce_rnd :: "nat \<Rightarrow> nat"
  ce_now :: gotime
  ce_disk :: "bytes option"
  ce_http :: "request \<Rightarrow> http_result"

definition ce_pick :: "call_env \<Rightarrow> ExitRegistry \<Rightarrow> pick_result \<times> ExitRegistry" where
  "ce_pick V r = PickRandom (ce_codec V) (ce_rnd V) (ce_now V) (ce_disk V) r"

definition node_get :: "string \<Rightarrow> string \<Rightarrow> request" where
  "node_get url token = \<lparr>rq_method = ''GET'', rq_url = url, rq_header = [(''X-Node-Token'', token)], rq_body = []\<rparr>"

lemma PickRandom_no_panic: "fst (PickRandom C rnd now disk r) \<noteq> PickPanic"
  by (simp add: PickRandom_def pick_random_def Let_def)

text \<open>With a sound random source the exit picked is one of the registry.\<close>

lemma ce_pick_known:
  assumes "intn_ok (ce_rnd V)" and "exits r \<noteq> []"
  shows "\<exists>e \<in> set (exits r). ce_pick V r = (Picked e, r)"
proof -
  let ?live = "filter (\<lambda>e. isAlive (Addr e) r) (exits r)"
  have "pool ! ce_rnd V (length pool) \<in> set pool" if "pool \<noteq> []" for pool :: "ExitNode list"
    using that assms(1) by (simp add: intn_ok_def)
  from this [of "if length ?live = 0 then exits r else ?live"] show ?thesis
    using assms(2) by (auto simp: ce_pick_def PickRandom_def pick_random_def Let_def split: if_splits)
qed

definition sample_call_env :: call_env where
  "sample_call_env = \<lparr>ce_codec = sample_codec, ce_rnd = (\<lambda>n. 0), ce_now = 0, ce_disk = None, ce_http = (\<lambda>rq. Response 200 [1])\<rparr>"

lemma sample_pick: "ce_pick sample_call_env sample_registry = (Picked (sample_exit ''a'' 10), sample_registry)"
  by (simp add: ce_pick_def sample_call_env_def PickRandom_def pick_random_def sample_registry_def newExitRegistry_def
      isAlive_def health_of_def Let_def)

section \<open>Login responses\<close>

definition ctl_authCacheTTL :: duration where "ctl_authCacheTTL = 24 * hour"

record authCacheEntry =
  ce_body :: bytes
  ce_cachedAt :: gotime

record ctlAuthCache =
  ca_nodeToken :: string
  ca_entries :: "(string, authCacheEntry) gomap"

definition newAuthCache :: "string \<Rightarrow> ctlAuthCache" where
  "newAuthCache token = \<lparr>ca_nodeToken = token, ca_entries = gm_empty\<rparr>"

definition exitAuthCacheURL :: "string \<Rightarrow> string \<Rightarrow> string" where
  "exitAuthCacheURL exitAddr deviceID = (let addr = TrimPrefix ''http://'' (TrimPrefix ''https://'' exitAddr);
     addr1 = (case SplitHostPort addr of None \<Rightarrow> addr @ '':443'' | Some _ \<Rightarrow> addr) in
     ''https://'' @ addr1 @ ''/p/node/v1/auth-cache?'' @ ''device_id='' @ QueryEscape deviceID)"

text \<open>\<open>None\<close> is an error.\<close>

definition queryExit :: "call_env \<Rightarrow> string \<Rightarrow> ctlAuthCache \<Rightarrow> ExitRegistry \<Rightarrow> bytes option \<times> ExitRegistry" where
  "queryExit V deviceID c r = (case ce_pick V r of
     (Picked e, r1) \<Rightarrow>
       ((case ce_http V (node_get (exitAuthCacheURL (Addr e) deviceID) (ca_nodeToken c)) of
           Response st body \<Rightarrow> if st \<noteq> 200 then None else Some (take (2 ^ 16) body)
         | _ \<Rightarrow> None), r1)
   | (_, r1) \<Rightarrow> (None, r1))"

definition evict_bodies :: "gotime \<Rightarrow> (string, authCacheEntry) gomap \<Rightarrow> (string, authCacheEntry) gomap" where
  "evict_bodies now m = gm_sweep (\<lambda>k v. ce_cachedAt v < now - ctl_authCacheTTL) m"

text \<open>\<open>meanwhile\<close> is what other requests do while the exit is asked.\<close>

definition auth_lookup :: "call_env \<Rightarrow> (ctlAuthCache \<Rightarrow> ctlAuthCache) \<Rightarrow> string \<Rightarrow> ctlAuthCache \<Rightarrow> ExitRegistry \<Rightarrow>
    bytes option \<times> ctlAuthCache \<times> ExitRegistry" where
  "auth_lookup V meanwhile deviceID c r =
     (if deviceID = [] then (None, c, r)
      else
        let miss = (let (res, r1) = queryExit V deviceID c r; c1 = meanwhile c in
              case res of
                None \<Rightarrow> (map_option ce_body (gm_get (ca_entries c1) deviceID), c1, r1)
              | Some body \<Rightarrow>
                  (Some body, c1\<lparr>ca_entries := evict_bodies (ce_now V)
                     (gm_put deviceID \<lparr>ce_body = body, ce_cachedAt = ce_now V\<rparr> (ca_entries c1))\<rparr>, r1))
        in case gm_get (ca_entries c) deviceID of
             Some e \<Rightarrow> if time_sub (ce_now V) (ce_cachedAt e) < ctl_authCacheTTL then (Some (ce_body e), c, r) else miss
           | None \<Rightarrow> miss)"

interpretation bodies: idle_sweep evict_bodies ce_cachedAt ctl_authCacheTTL
  by unfold_locales (auto simp: evict_bodies_def gm_get_sweep split: option.splits)

text \<open>A response that was fetched is served for 24 hours without asking again.\<close>

lemma lookup_fetched:
  assumes "gm_wf (ca_entries c)" and "deviceID \<noteq> []" and "queryExit V deviceID c r = (Some body, r1)"
    and "case gm_get (ca_entries c) deviceID of None \<Rightarrow> True | Some e \<Rightarrow> \<not> time_sub (ce_now V) (ce_cachedAt e) < ctl_authCacheTTL"
  shows "\<exists>c1. auth_lookup V (\<lambda>c. c) deviceID c r = (Some body, c1, r1) \<and> gm_wf (ca_entries c1) \<and>
    gm_get (ca_entries c1) deviceID = Some \<lparr>ce_body = body, ce_cachedAt = ce_now V\<rparr>"
proof -
  let ?m = "gm_put deviceID \<lparr>ce_body = body, ce_cachedAt = ce_now V\<rparr> (ca_entries c)"
  have "gm_get (evict_bodies (ce_now V) ?m) deviceID = Some \<lparr>ce_body = body, ce_cachedAt = ce_now V\<rparr>"
    by (rule bodies.fresh_kept) (use assms(1) in \<open>simp_all add: ctl_authCacheTTL_def duration_defs\<close>)
  moreover have "gm_wf (evict_bodies (ce_now V) ?m)" using assms(1) by (simp add: bodies.sweep_wf)
  ultimately show ?thesis using assms by (auto simp: auth_lookup_def Let_def split: option.splits)
qed

lemma lookup_local:
  assumes "gm_get (ca_entries c) deviceID = Some e" and "deviceID \<noteq> []" and "ce_cachedAt e \<le> ce_now V" and "ce_now V - ce_cachedAt e < 24 * hour"
  shows "auth_lookup V meanwhile deviceID c r = (Some (ce_body e), c, r)"
proof -
  have "time_sub (ce_now V) (ce_cachedAt e) < ctl_authCacheTTL"
    using assms by (simp add: ctl_authCacheTTL_def go_time duration_defs)
  then show ?thesis using assms by (simp add: auth_lookup_def Let_def)
qed

text \<open>When no exit answers, an entry of any age is served.\<close>

lemma lookup_outage:
  assumes "deviceID \<noteq> []" and "fst (queryExit V deviceID c r) = None"
  shows "fst (auth_lookup V (\<lambda>c. c) deviceID c r) = map_option ce_body (gm_get (ca_entries c) deviceID) \<and>
    fst (snd (auth_lookup V (\<lambda>c. c) deviceID c r)) = c"
  using assms by (auto simp: auth_lookup_def Let_def split: option.splits prod.splits)

text \<open>An exit that is reached with this request answers from its own login cache.\<close>

lemma auth_cache_url:
  assumes "CHR ''/'' \<notin> set (TrimPrefix ''http://'' (TrimPrefix ''https://'' addr))"
  shows "incoming_of remote (node_get (exitAuthCacheURL addr dev) token) =
    \<lparr>in_method = ''GET'', in_path = ''/p/node/v1/auth-cache'', in_query = [(''device_id'', dev)],
     in_header = [(''X-Node-Token'', token)], in_body = [], in_remote = remote\<rparr>"
proof -
  define h where "h = TrimPrefix ''http://'' (TrimPrefix ''https://'' addr)"
  define h1 where "h1 = (case SplitHostPort h of None \<Rightarrow> h @ '':443'' | Some _ \<Rightarrow> h)"
  have url: "exitAuthCacheURL addr dev = ''https://'' @ h1 @ ''/p/node/v1/auth-cache?device_id='' @ QueryEscape dev"
    unfolding exitAuthCacheURL_def Let_def h_def [symmetric] h1_def [symmetric] by simp
  have "c \<noteq> CHR ''/''" if "c \<in> set h1" for c
    using that assms unfolding h_def [symmetric] by (auto simp: h1_def split: option.splits)
  then have "dropWhile (\<lambda>c. c \<noteq> CHR ''/'') (h1 @ s) = dropWhile (\<lambda>c. c \<noteq> CHR ''/'') s" for s
    by (simp add: dropWhile_append)
  then have "url_path_query (exitAuthCacheURL addr dev) = (''/p/node/v1/auth-cache'', ''device_id='' @ QueryEscape dev)"
    by (simp add: url url_path_query_def TrimPrefix_def index_of_def Let_def)
  moreover have "ParseQuery (''device_id='' @ QueryEscape dev) = [(''device_id'', dev)]"
    by (simp add: ParseQuery_def index_of_def Let_def)
  ultimately show ?thesis by (simp add: incoming_of_def node_get_def)
qed

lemma exit_answers_device:
  assumes "CHR ''/'' \<notin> set (TrimPrefix ''http://'' (TrimPrefix ''https://'' addr))" and "dev \<noteq> []"
    and "SplitHostPort remote = Some (host, port)" and "isKnownControl W host" and "np_auth np = Some a"
    and "cachedAuth (np_now W) (''dev:'' @ dev) a = Some body"
  shows "exit_serves W np remote (node_get (exitAuthCacheURL addr dev) token) = Response 200 body"
  using assms
  by (simp add: exit_serves_def auth_cache_url ServeHTTP_def handleAuthCache_def remoteIP_def HasPrefix_def arbiter_prefix_def
      get_value_def)

end
