(* ===== verification/Client_Cache.thy ===== *)
theory Client_Cache
  imports Control_Caches
begin

text \<open>
  The client binaries a control node keeps for distribution (\<open>src/snc-control/client_cache.go\<close>): a manifest and the binaries
  are fetched from the arbiter through random exits and stored in one directory per distributable. The
  file system is the map from names below the cache directory to flat files and directories; what the
  system calls do is in \<open>fs_env\<close>.
\<close>

record slug_files =
  f_bin :: "bytes option"
  f_tmp :: "bytes option"
  f_sha256 :: "bytes option"
  f_version :: "bytes option"
  f_sig :: "bytes option"

datatype slug_path = FlatFile | SlugDir slug_files

type_synonym cache_dir = "(string, slug_path) gomap"

text \<open>Whether removing, making a directory, opening, copying (with what a failed copy leaves) and renaming work, and the
  content of a file after writing to it.\<close>

record fs_env =
  fs_remove :: bool
  fs_mkdir :: bool
  fs_open :: bool
  fs_copy :: "bytes \<Rightarrow> bytes option"
  fs_partial :: "bytes \<Rightarrow> bytes"
  fs_rename :: bool
  fs_write :: "bytes \<Rightarrow> bytes option \<Rightarrow> bytes option"

definition no_files :: slug_files where
  "no_files = \<lparr>f_bin = None, f_tmp = None, f_sha256 = None, f_version = None, f_sig = None\<rparr>"

definition files_of :: "slug_path option \<Rightarrow> slug_files" where
  "files_of p = (case p of Some (SlugDir fs) \<Rightarrow> fs | _ \<Rightarrow> no_files)"

definition legacyNames :: "string list" where
  "legacyNames = [''client'', ''client.sha256'', ''version'', ''client-android'', ''client-android-version'', ''client-android.sha256'',
     ''macos'', ''macos-version'', ''macos.sha256'']"

definition cleanupLegacyCache :: "(string \<Rightarrow> bool) \<Rightarrow> cache_dir \<Rightarrow> cache_dir" where
  "cleanupLegacyCache removable d = fold (\<lambda>name d. case gm_get d name of
     Some FlatFile \<Rightarrow> if removable name then gm_del name d else d | _ \<Rightarrow> d) legacyNames d"

record manifestEntry =
  me_Available :: bool
  me_Version :: string
  me_Hash :: string
  me_Sig :: string

record clientCache =
  cl_nodeToken :: string
  cl_cacheDir :: string

definition getManifest :: "(bytes \<Rightarrow> (string, manifestEntry) gomap option) \<Rightarrow> call_env \<Rightarrow> string \<Rightarrow> clientCache \<Rightarrow>
    (string, manifestEntry) gomap option" where
  "getManifest decode V exitAddr c =
     (case ce_http V (node_get (exitProxyURL exitAddr ''/api/update/manifest'') (cl_nodeToken c)) of
        Response st body \<Rightarrow> if st \<noteq> 200 then None else decode (take (2 ^ 20) body)
      | _ \<Rightarrow> None)"

definition downloadBinary :: "(bytes \<Rightarrow> bytes) \<Rightarrow> call_env \<Rightarrow> fs_env \<Rightarrow> string \<Rightarrow> string \<Rightarrow> string \<Rightarrow> clientCache \<Rightarrow> slug_files \<Rightarrow>
    bool \<times> slug_files" where
  "downloadBinary sha V F exitAddr path expectedHash c fs =
     (case ce_http V (node_get (exitProxyURL exitAddr path) (cl_nodeToken c)) of
        Response st body \<Rightarrow>
          if st \<noteq> 200 \<or> \<not> fs_open F then (False, fs)
          else (case fs_copy F body of
              None \<Rightarrow> (False, fs\<lparr>f_tmp := Some (fs_partial F body)\<rparr>)
            | Some b \<Rightarrow> (hex_encode (sha b) = expectedHash, fs\<lparr>f_tmp := Some b\<rparr>))
      | _ \<Rightarrow> (False, fs))"

definition newline :: bytes where "newline = [10]"

text \<open>The files after a verified download: rename, then checksum, version and signature.\<close>

definition install :: "fs_env \<Rightarrow> string \<Rightarrow> string \<Rightarrow> string \<Rightarrow> slug_files \<Rightarrow> slug_files" where
  "install F remoteVersion expectedHash sig fs =
     (if \<not> fs_rename F then fs\<lparr>f_tmp := None\<rparr>
      else fs\<lparr>f_bin := f_tmp fs, f_tmp := None,
        f_sha256 := fs_write F (str_bytes expectedHash @ newline) (f_sha256 fs),
        f_version := fs_write F (str_bytes remoteVersion @ newline) (f_version fs),
        f_sig := (if sig \<noteq> [] then fs_write F (str_bytes sig @ newline) (f_sig fs) else None)\<rparr>)"

definition cached_version :: "slug_files \<Rightarrow> string" where
  "cached_version fs = (case f_version fs of None \<Rightarrow> [] | Some b \<Rightarrow> bytes_str b)"

text \<open>The part after the choice of an exit: make room for the directory, download, install.\<close>

definition fetch_via :: "(bytes \<Rightarrow> bytes) \<Rightarrow> call_env \<Rightarrow> fs_env \<Rightarrow> clientCache \<Rightarrow> string \<Rightarrow> manifestEntry \<Rightarrow> string \<Rightarrow> cache_dir \<Rightarrow> cache_dir" where
  "fetch_via sha V F c slug m exitAddr d =
     (if gm_get d slug = Some FlatFile \<and> \<not> fs_remove F then d
      else let d1 = (if gm_get d slug = Some FlatFile then gm_del slug d else d) in
        if \<not> fs_mkdir F then d1
        else let (ok, fs1) = downloadBinary sha V F exitAddr (''/api/update/dist/'' @ slug @ ''/bin'') (me_Hash m) c (files_of (gm_get d1 slug))
             in gm_put slug (SlugDir (if ok then install F (TrimSpace (me_Version m)) (me_Hash m) (me_Sig m) fs1 else fs1\<lparr>f_tmp := None\<rparr>)) d1)"

definition fetchOne :: "(bytes \<Rightarrow> bytes) \<Rightarrow> call_env \<Rightarrow> fs_env \<Rightarrow> clientCache \<Rightarrow> string \<Rightarrow> manifestEntry \<Rightarrow>
    cache_dir \<times> ExitRegistry \<Rightarrow> cache_dir \<times> ExitRegistry" where
  "fetchOne sha V F c slug m st = (let (d, r) = st; remoteVersion = TrimSpace (me_Version m) in
     if remoteVersion = [] then (d, r)
     else if TrimSpace (cached_version (files_of (gm_get d slug))) = remoteVersion then (d, r)
     else case ce_pick V r of
       (Picked e, r1) \<Rightarrow> (fetch_via sha V F c slug m (Addr e) d, r1)
     | (_, r1) \<Rightarrow> (d, r1))"

text \<open>Each download has its own time and file system.\<close>

definition fetch_entry :: "(bytes \<Rightarrow> bytes) \<Rightarrow> (string \<Rightarrow> call_env \<times> fs_env) \<Rightarrow> clientCache \<Rightarrow> string \<times> manifestEntry \<Rightarrow>
    cache_dir \<times> ExitRegistry \<Rightarrow> cache_dir \<times> ExitRegistry" where
  "fetch_entry sha each c x st = (if \<not> me_Available (snd x) then st
     else fetchOne sha (fst (each (fst x))) (snd (each (fst x))) c (fst x) (snd x) st)"

definition fetchAll :: "(bytes \<Rightarrow> bytes) \<Rightarrow> (bytes \<Rightarrow> (string, manifestEntry) gomap option) \<Rightarrow> call_env \<Rightarrow> (string \<Rightarrow> call_env \<times> fs_env) \<Rightarrow>
    clientCache \<Rightarrow> cache_dir \<Rightarrow> ExitRegistry \<Rightarrow> cache_dir \<times> ExitRegistry" where
  "fetchAll sha decode V each c d r = (case ce_pick V r of
     (Picked e, r1) \<Rightarrow>
       (case getManifest decode V (Addr e) c of None \<Rightarrow> (d, r1)
        | Some m \<Rightarrow> fold (fetch_entry sha each c) m (d, r1))
   | (_, r1) \<Rightarrow> (d, r1))"

section \<open>Integrity\<close>

definition write_ok :: "fs_env \<Rightarrow> bool" where "write_ok F \<longleftrightarrow> (\<forall>b old. fs_write F b old = Some b)"

text \<open>What is served for a name: binary, checksum, version and signature.\<close>

definition served :: "cache_dir \<Rightarrow> string \<Rightarrow> bytes option \<times> bytes option \<times> bytes option \<times> bytes option" where
  "served d slug = (let fs = files_of (gm_get d slug) in (f_bin fs, f_sha256 fs, f_version fs, f_sig fs))"

definition release_of :: "(bytes \<Rightarrow> bytes) \<Rightarrow> manifestEntry \<Rightarrow> bytes option \<times> bytes option \<times> bytes option \<times> bytes option \<Rightarrow> bool" where
  "release_of sha m x \<longleftrightarrow> (\<exists>b. hex_encode (sha b) = me_Hash m \<and>
     x = (Some b, Some (str_bytes (me_Hash m) @ newline), Some (str_bytes (TrimSpace (me_Version m)) @ newline),
          if me_Sig m \<noteq> [] then Some (str_bytes (me_Sig m) @ newline) else None))"

lemma install_served:
  assumes "write_ok F" and "downloadBinary sha V F a p (me_Hash m) c fs = (ok, fs1)"
    and "x = (if ok then install F (TrimSpace (me_Version m)) (me_Hash m) (me_Sig m) fs1 else fs1\<lparr>f_tmp := None\<rparr>)"
  shows "release_of sha m (f_bin x, f_sha256 x, f_version x, f_sig x) \<or>
    (f_bin x, f_sha256 x, f_version x, f_sig x) = (f_bin fs, f_sha256 fs, f_version fs, f_sig fs)"
  using assms by (auto simp: downloadBinary_def install_def write_ok_def release_of_def
      split: http_result.splits if_splits option.splits)

lemma served_other: "s \<noteq> slug \<Longrightarrow> served (gm_put slug v d) s = served d s" "s \<noteq> slug \<Longrightarrow> served (gm_del slug d) s = served d s"
  by (simp_all add: served_def)

lemma served_removed: "gm_get d slug = Some FlatFile \<Longrightarrow> served (gm_del slug d) slug = served d slug"
  by (simp add: served_def files_of_def)

lemma fetch_via_served:
  assumes "write_ok F"
  shows "(served (fetch_via sha V F c slug m a d) slug = served d slug \<or> release_of sha m (served (fetch_via sha V F c slug m a d) slug)) \<and>
    (\<forall>s. s \<noteq> slug \<longrightarrow> served (fetch_via sha V F c slug m a d) s = served d s)"
proof -
  define d1 where "d1 = (if gm_get d slug = Some FlatFile then gm_del slug d else d)"
  have d1: "served d1 s = served d s" for s
    by (cases "s = slug") (simp_all add: d1_def served_removed served_other)
  obtain ok fs1 where dl: "downloadBinary sha V F a (''/api/update/dist/'' @ slug @ ''/bin'') (me_Hash m) c (files_of (gm_get d1 slug)) = (ok, fs1)"
    by fastforce
  define x where "x = (if ok then install F (TrimSpace (me_Version m)) (me_Hash m) (me_Sig m) fs1 else fs1\<lparr>f_tmp := None\<rparr>)"
  have put: "served (gm_put slug (SlugDir x) d1) slug = served d slug \<or> release_of sha m (served (gm_put slug (SlugDir x) d1) slug)"
    using install_served [OF assms dl x_def] d1 [of slug, symmetric] by (auto simp: served_def files_of_def [of "Some (SlugDir _)"] Let_def)
  have "fetch_via sha V F c slug m a d \<in> {d, d1, gm_put slug (SlugDir x) d1}"
    unfolding fetch_via_def d1_def [symmetric] Let_def dl prod.case x_def [symmetric] by simp
  then show ?thesis using put d1 served_other(1) by auto
qed

lemma fetchOne_served:
  assumes "write_ok F" and "fetchOne sha V F c slug m (d, r) = (d', r')"
  shows "(served d' slug = served d slug \<or> release_of sha m (served d' slug)) \<and> (\<forall>s. s \<noteq> slug \<longrightarrow> served d' s = served d s)"
proof -
  have "d' = d \<or> (\<exists>a. d' = fetch_via sha V F c slug m a d)"
    using assms(2) by (auto simp: fetchOne_def Let_def split: if_splits prod.splits pick_result.splits)
  then show ?thesis using fetch_via_served [OF assms(1)] by blast
qed

text \<open>Through the loop: a name that is not in the rest of the manifest stays as it is.\<close>

lemma fetch_loop:
  assumes "\<forall>s. write_ok (snd (each s))" and "distinct (map fst m)"
    and "fold (fetch_entry sha each c) m (d, r) = (d', r')"
  shows "served d' s = served d s \<or> (\<exists>entry. (s, entry) \<in> set m \<and> me_Available entry \<and> release_of sha entry (served d' s))"
  using assms(2,3)
proof (induction m arbitrary: d r)
  case (Cons x m)
  obtain slug entry where x: "x = (slug, entry)" by fastforce
  obtain d1 r1 where st: "fetch_entry sha each c x (d, r) = (d1, r1)" by fastforce
  have rest: "served d' s = served d1 s \<or> (\<exists>e. (s, e) \<in> set m \<and> me_Available e \<and> release_of sha e (served d' s))"
    using Cons.prems st by (intro Cons.IH) (simp_all add: x)
  have "served d1 s = served d s \<or> s = slug \<and> me_Available entry \<and> release_of sha entry (served d1 s)"
    using st fetchOne_served [of "snd (each slug)" sha "fst (each slug)" c slug entry d r d1 r1] assms(1)
    by (auto simp: fetch_entry_def x split: if_splits)
  then show ?case using rest by (auto simp: x)
qed simp

text \<open>The checksum file belongs to the binary.\<close>

definition coherent :: "(bytes \<Rightarrow> bytes) \<Rightarrow> cache_dir \<Rightarrow> bool" where
  "coherent sha d \<longleftrightarrow> (\<forall>slug b s rest. served d slug = (Some b, s, rest) \<longrightarrow> s = Some (str_bytes (hex_encode (sha b)) @ newline))"


definition sample_fs :: fs_env where
  "sample_fs = \<lparr>fs_remove = True, fs_mkdir = True, fs_open = True, fs_copy = Some, fs_partial = (\<lambda>b. []), fs_rename = True,
     fs_write = (\<lambda>b old. Some b)\<rparr>"

definition sample_manifest :: "bytes \<Rightarrow> (string, manifestEntry) gomap option" where
  "sample_manifest b = Some [(''macos'', \<lparr>me_Available = True, me_Version = ''1'', me_Hash = ''01'', me_Sig = []\<rparr>)]"


lemma bytes_str_append: "bytes_str (a @ b) = bytes_str a @ bytes_str b"
  by (simp add: bytes_str_def)

text \<open>The results of the writes are ignored: when only the checksum cannot be written, the old one is
  served with the new binary, and as the version was written the next cycles do not repair it.\<close>

lemma failed_write_persists:
  assumes "fs_rename F" and "f_tmp fs = Some b" and "fs_write F (str_bytes h @ newline) old = old"
    and "fs_write F (str_bytes (TrimSpace v) @ newline) (f_version fs) = Some (str_bytes (TrimSpace v) @ newline)" and "f_sha256 fs = old"
  shows "f_bin (install F (TrimSpace v) h sig fs) = Some b \<and> f_sha256 (install F (TrimSpace v) h sig fs) = old \<and>
    cached_version (install F (TrimSpace v) h sig fs) = TrimSpace v @ bytes_str newline"
  using assms by (simp add: install_def cached_version_def bytes_str_append)

section \<open>Serving\<close>

definition HasSuffix :: "string \<Rightarrow> string \<Rightarrow> bool" where
  "HasSuffix s t \<longleftrightarrow> length t \<le> length s \<and> drop (length s - length t) s = t"

definition TrimSuffix :: "string \<Rightarrow> string \<Rightarrow> string" where
  "TrimSuffix s t = (if HasSuffix s t then take (length s - length t) s else s)"

text \<open>Name, file and content type.\<close>

definition parseClientUpdatePath :: "string \<Rightarrow> (string \<times> string \<times> string) option" where
  "parseClientUpdatePath path =
     (if \<not> HasPrefix path ''/client-'' then None
      else let rest = drop (length ''/client-'') path;
             (slug, fileName, contentType) =
               (if HasSuffix rest ''-version'' then (TrimSuffix rest ''-version'', ''version'', ''text/plain; charset=utf-8'')
                else if HasSuffix rest ''.sha256'' then (TrimSuffix rest ''.sha256'', ''sha256'', ''text/plain; charset=utf-8'')
                else if HasSuffix rest ''.sig'' then (TrimSuffix rest ''.sig'', ''sig'', ''text/plain; charset=utf-8'')
                else (rest, ''bin'', ''application/octet-stream''))
           in if slug = [] then None else Some (slug, fileName, contentType))"

definition update_handler :: "(string \<Rightarrow> string \<Rightarrow> bytes option) \<Rightarrow> string \<Rightarrow> string \<Rightarrow> answer" where
  "update_handler readFile method path =
     (if method \<noteq> ''GET'' \<and> method \<noteq> ''HEAD'' then http_error ''method not allowed'' 405
      else case parseClientUpdatePath path of None \<Rightarrow> not_found
        | Some (slug, fileName, ct) \<Rightarrow> (case readFile slug fileName of None \<Rightarrow> not_found | Some data \<Rightarrow> Answer 200 data))"

definition dir_read :: "cache_dir \<Rightarrow> string \<Rightarrow> string \<Rightarrow> bytes option" where
  "dir_read d slug fileName = (let fs = files_of (gm_get d slug) in
     if fileName = ''bin'' then f_bin fs else if fileName = ''sha256'' then f_sha256 fs
     else if fileName = ''version'' then f_version fs else if fileName = ''sig'' then f_sig fs else None)"

text \<open>Each file of a release is reachable under its path, if the name itself does not look like one of
  the other files.\<close>

lemma HasSuffix_append [simp]: "HasSuffix (s @ t) t"
  by (simp add: HasSuffix_def)

lemma TrimSuffix_append [simp]: "TrimSuffix (s @ t) t = s"
  by (simp add: TrimSuffix_def)

lemma suffix_sha256: "\<not> HasSuffix (s @ ''.sha256'') ''-version''"
  by (auto simp: HasSuffix_def drop_append)

lemma download_paths:
  assumes "slug \<noteq> []" and "\<not> HasSuffix slug ''-version''" and "\<not> HasSuffix slug ''.sha256''" and "\<not> HasSuffix slug ''.sig''"
  shows "parseClientUpdatePath (''/client-'' @ slug) = Some (slug, ''bin'', ''application/octet-stream'')"
    and "parseClientUpdatePath (''/client-'' @ slug @ ''-version'') = Some (slug, ''version'', ''text/plain; charset=utf-8'')"
    and "parseClientUpdatePath (''/client-'' @ slug @ ''.sha256'') = Some (slug, ''sha256'', ''text/plain; charset=utf-8'')"
  using assms suffix_sha256 [of slug] by (simp_all add: parseClientUpdatePath_def HasPrefix_def)

text \<open>A name of two dots reaches the directory above the cache.\<close>

lemma parent_directory_path: "parseClientUpdatePath ''/client-..-version'' = Some (''..'', ''version'', ''text/plain; charset=utf-8'')"
  by (simp add: parseClientUpdatePath_def HasPrefix_def HasSuffix_def TrimSuffix_def)

section \<open>The node's own update\<close>

text \<open>\<open>src/snc-control/updater.go\<close>: version, checksum and binary come from the same random exit. Versions are
  compared as byte strings.\<close>

record controlUpdater =
  cu_version :: string
  cu_binary :: "bytes option"

fun str_le :: "string \<Rightarrow> string \<Rightarrow> bool" where
  "str_le [] t = True"
| "str_le (a # s) [] = False"
| "str_le (a # s) (b # t) = (if a = b then str_le s t else (of_char a :: nat) < of_char b)"

definition exitBaseURL :: "string \<Rightarrow> string" where
  "exitBaseURL a = (let addr = TrimPrefix ''http://'' (TrimPrefix ''https://'' a) in
     ''https://'' @ (if CHR '':'' \<in> set addr then addr else addr @ '':443''))"

definition plain_get :: "string \<Rightarrow> request" where
  "plain_get url = \<lparr>rq_method = ''GET'', rq_url = url, rq_header = [], rq_body = []\<rparr>"

definition getString :: "call_env \<Rightarrow> string \<Rightarrow> string option" where
  "getString V url = (case ce_http V (plain_get url) of
     Response st body \<Rightarrow> if st \<noteq> 200 then None else Some (bytes_str (take 1024 body)) | _ \<Rightarrow> None)"

definition first_field :: "string \<Rightarrow> string" where
  "first_field s = takeWhile (\<lambda>c. \<not> is_space c) (dropWhile is_space s)"

definition updater_download :: "(bytes \<Rightarrow> bytes) \<Rightarrow> call_env \<Rightarrow> fs_env \<Rightarrow> string \<Rightarrow> string \<Rightarrow> bytes option" where
  "updater_download sha V F url expectedHash = (case ce_http V (plain_get url) of
     Response st body \<Rightarrow>
       if st \<noteq> 200 \<or> \<not> fs_open F then None
       else (case fs_copy F body of None \<Rightarrow> None | Some b \<Rightarrow> if hex_encode (sha b) = expectedHash then Some b else None)
   | _ \<Rightarrow> None)"

text \<open>The updater after the check, and whether the process exits to be restarted.\<close>

definition checkAndApply :: "(bytes \<Rightarrow> bytes) \<Rightarrow> call_env \<Rightarrow> fs_env \<Rightarrow> controlUpdater \<Rightarrow> ExitRegistry \<Rightarrow> bool \<times> controlUpdater \<times> ExitRegistry" where
  "checkAndApply sha V F u r = (case ce_pick V r of
     (Picked e, r1) \<Rightarrow> (let base = exitBaseURL (Addr e) in
       case getString V (base @ ''/p/node/v1/update/version'') of None \<Rightarrow> (False, u, r1)
       | Some raw \<Rightarrow> (let remoteVersion = TrimSpace raw in
           if remoteVersion = [] \<or> str_le remoteVersion (cu_version u) then (False, u, r1)
           else case getString V (base @ ''/p/node/v1/update/snc-control.sha256'') of None \<Rightarrow> (False, u, r1)
           | Some hashStr \<Rightarrow>
               if first_field hashStr = [] then (False, u, r1)
               else case updater_download sha V F (base @ ''/p/node/v1/update/snc-control'') (map to_lower (first_field hashStr)) of
                 None \<Rightarrow> (False, u, r1)
               | Some b \<Rightarrow> if fs_rename F then (True, u\<lparr>cu_binary := Some b\<rparr>, r1) else (False, u, r1)))
   | (_, r1) \<Rightarrow> (False, u, r1))"

text \<open>The process restarts exactly when the binary was replaced, which needs a greater version, and the
  file is then complete: its checksum is the one the exit gave.\<close>

lemma update_complete:
  assumes "checkAndApply sha V F u r = (restart, u', r')"
  shows "if restart then \<exists>base b h v. getString V (base @ ''/p/node/v1/update/version'') = Some v \<and> \<not> str_le (TrimSpace v) (cu_version u) \<and>
      getString V (base @ ''/p/node/v1/update/snc-control.sha256'') = Some h \<and>
      cu_binary u' = Some b \<and> hex_encode (sha b) = map to_lower (first_field h)
    else u' = u"
proof (cases restart)
  case True
  obtain res r1 where pick: "ce_pick V r = (res, r1)" by fastforce
  with True assms obtain e where e: "res = Picked e" by (cases res) (auto simp: checkAndApply_def)
  define base where "base = exitBaseURL (Addr e)"
  note run = assms [unfolded checkAndApply_def pick e prod.case pick_result.case Let_def base_def [symmetric]]
  obtain v where v: "getString V (base @ ''/p/node/v1/update/version'') = Some v"
    using run True by (cases "getString V (base @ ''/p/node/v1/update/version'')") auto
  note run = run [unfolded v option.case]
  obtain h where h: "getString V (base @ ''/p/node/v1/update/snc-control.sha256'') = Some h"
    using run True by (cases "getString V (base @ ''/p/node/v1/update/snc-control.sha256'')") (auto split: if_splits)
  note run = run [unfolded h option.case]
  obtain b where b: "updater_download sha V F (base @ ''/p/node/v1/update/snc-control'') (map to_lower (first_field h)) = Some b"
    using run True by (cases "updater_download sha V F (base @ ''/p/node/v1/update/snc-control'') (map to_lower (first_field h))") (auto split: if_splits)
  note run = run [unfolded b option.case]
  have "\<not> str_le (TrimSpace v) (cu_version u)" "cu_binary u' = Some b" using run True by (auto split: if_splits)
  moreover have "hex_encode (sha b) = map to_lower (first_field h)"
    using b by (auto simp: updater_download_def split: http_result.splits option.splits if_splits)
  ultimately have "\<exists>base b h v. getString V (base @ ''/p/node/v1/update/version'') = Some v \<and> \<not> str_le (TrimSpace v) (cu_version u) \<and>
      getString V (base @ ''/p/node/v1/update/snc-control.sha256'') = Some h \<and>
      cu_binary u' = Some b \<and> hex_encode (sha b) = map to_lower (first_field h)" using v h by blast
  then show ?thesis using True by simp
next
  case False
  then show ?thesis using assms unfolding checkAndApply_def Let_def
    by (auto split: prod.splits pick_result.splits option.splits if_splits)
qed

end
