(* ===== verification/Go_Slice.thy ===== *)
theory Go_Slice
  imports Go_Lib "HOL-Library.Monad_Syntax"
begin

text \<open>
  Index and slice expressions of byte slices, with \<open>None\<close> for the panic when they are out of range, and
  big-endian numbers (\<open>encoding/binary\<close>) read and written at a position.
\<close>

definition byte_at :: "bytes \<Rightarrow> nat \<Rightarrow> byte option" where
  "byte_at b i = (if i < length b then Some (b ! i) else None)"

definition slice_at :: "bytes \<Rightarrow> nat \<Rightarrow> nat \<Rightarrow> bytes option" where
  "slice_at b i j = (if i \<le> j \<and> j \<le> length b then Some (take (j - i) (drop i b)) else None)"

definition u16_at :: "bytes \<Rightarrow> nat \<Rightarrow> nat option" where
  "u16_at b i = map_option be_nat (slice_at b i (i + 2))"

lemma byte_at_Some [simp]: "i < length b \<Longrightarrow> byte_at b i = Some (b ! i)"
  by (simp add: byte_at_def)

lemma slice_at_Some [simp]: "i \<le> j \<Longrightarrow> j \<le> length b \<Longrightarrow> slice_at b i j = Some (take (j - i) (drop i b))"
  by (simp add: slice_at_def)

lemma u16_at_Some: "i + 2 \<le> length b \<Longrightarrow> u16_at b i = Some (be_nat (take 2 (drop i b)))"
  by (simp add: u16_at_def)

definition enc_u16 :: "nat \<Rightarrow> bytes" where "enc_u16 n = [word_of_nat (n div 256), word_of_nat (n mod 256)]"

lemma enc_u16_read: "n < 65536 \<Longrightarrow> be_nat (enc_u16 n) = n"
  by (simp add: enc_u16_def be_nat_Cons unat_of_nat take_bit_nat_def)

lemma length_enc_u16 [simp]: "length (enc_u16 n) = 2"
  by (simp add: enc_u16_def)

lemma u16_at_append: "n < 65536 \<Longrightarrow> u16_at (a @ enc_u16 n @ b) (length a) = Some n"
  by (simp add: u16_at_def enc_u16_read)

lemma length_str_bytes [simp]: "length (str_bytes s) = length s"
  by (simp add: str_bytes_def)

lemma byte_at_append: "byte_at (a @ b # c) (length a) = Some b"
  by (simp add: byte_at_def)

definition u32_at :: "bytes \<Rightarrow> nat \<Rightarrow> nat option" where
  "u32_at b i = map_option be_nat (slice_at b i (i + 4))"

definition enc_u32 :: "nat \<Rightarrow> bytes" where
  "enc_u32 n = [word_of_nat (n div 2 ^ 24), word_of_nat (n div 2 ^ 16), word_of_nat (n div 2 ^ 8), word_of_nat n]"

lemma length_enc_u32 [simp]: "length (enc_u32 n) = 4"
  by (simp add: enc_u32_def)

lemma enc_u32_read: "n < 2 ^ 32 \<Longrightarrow> be_nat (enc_u32 n) = n"
proof -
  assume n: "n < 2 ^ 32"
  define a b c where "a = n div 256" and "b = a div 256" and "c = b div 256"
  have eqs: "n div 2 ^ 8 = a" "n div 2 ^ 16 = b" "n div 2 ^ 24 = c"
    by (simp_all add: a_def b_def c_def flip: div_mult2_eq)
  have "c < 256" using n by (simp add: a_def b_def c_def less_mult_imp_div_less flip: div_mult2_eq)
  moreover have "n = a * 256 + n mod 256" "a = b * 256 + a mod 256" "b = c * 256 + b mod 256"
    by (simp_all add: a_def b_def c_def)
  moreover have "be_nat (enc_u32 n) = c mod 256 * 256 ^ 3 + b mod 256 * 256 ^ 2 + a mod 256 * 256 + n mod 256"
    unfolding enc_u32_def eqs by (simp add: be_nat_Cons unat_of_nat take_bit_nat_def)
  ultimately show ?thesis by simp
qed

lemma u32_at_append: "n < 2 ^ 32 \<Longrightarrow> u32_at (a @ enc_u32 n @ b) (length a) = Some n"
  by (simp add: u32_at_def enc_u32_read)

lemma u32_at_Some: "i + 4 \<le> length b \<Longrightarrow> u32_at b i = Some (be_nat (take 4 (drop i b)))"
  by (simp add: u32_at_def)

lemma slice_at_append: "slice_at (a @ b @ c) (length a) (length a + length b) = Some b"
  by (simp add: slice_at_def)

lemma slice_at_end: "slice_at (a @ b) (length a) (length (a @ b)) = Some b"
  by (simp add: slice_at_def)

end
