(* ===== verification/Tls_Hello.thy ===== *)
theory Tls_Hello
  imports Go_Slice
begin

text \<open>
  What the control node reads from the first bytes of a connection (\<open>extractChannel\<close>, \<open>extractSNI\<close> of
  \<open>src/snc-control/handler.go\<close>): the marker in the session ID and the server name of a TLS ClientHello. An index or a slice
  expression out of range, at which the program panics, is \<open>None\<close>. All positions are below 512 plus some
  multiples of 65536, so \<open>int\<close> does not overflow and they are natural numbers.
\<close>

section \<open>Parsers\<close>

definition chMagic :: byte where "chMagic = 0xA7"

text \<open>Both parsers start in the same way: record header, handshake header, then the body \<open>ch\<close>.\<close>

definition with_hello :: "'a \<Rightarrow> bytes \<Rightarrow> (bytes \<Rightarrow> 'a option) \<Rightarrow> 'a option" where
  "with_hello none data k =
     (if length data < 5 then Some none else do {
        t \<leftarrow> byte_at data 0;
        if t \<noteq> 0x16 then Some none else do {
          hs \<leftarrow> slice_at data 5 (length data);
          if length hs < 4 then Some none else do {
            h \<leftarrow> byte_at hs 0;
            if h \<noteq> 1 then Some none else do {
              ch \<leftarrow> slice_at hs 4 (length hs);
              k ch }}}})"

definition hello_channel :: "bytes \<Rightarrow> (byte \<times> bool) option" where
  "hello_channel ch =
     (if 34 \<ge> length ch then Some (0, False) else do {
        l \<leftarrow> byte_at ch 34;
        let sidLen = unat l; pos = 35 in
        if sidLen < 2 \<or> pos + sidLen > length ch then Some (0, False) else do {
          m \<leftarrow> byte_at ch pos;
          if m \<noteq> chMagic then Some (0, False) else do {
            c \<leftarrow> byte_at ch (pos + 1);
            Some (c, True) }}})"

definition extractChannel :: "bytes \<Rightarrow> (byte \<times> bool) option" where
  "extractChannel data = with_hello (0, False) data hello_channel"

text \<open>The loop over the extensions; \<open>e\<close> is the end of the list as announced.\<close>

definition sni_name :: "bytes \<Rightarrow> nat \<Rightarrow> nat \<Rightarrow> string option" where
  "sni_name ch pos extDataLen =
     (if extDataLen < 5 \<or> pos + extDataLen > length ch then Some [] else do {
        nameLen \<leftarrow> u16_at ch (pos + 3);
        if pos + 5 + nameLen > length ch then Some [] else do {
          name \<leftarrow> slice_at ch (pos + 5) (pos + 5 + nameLen);
          Some (bytes_str name) }})"

function sni_exts :: "bytes \<Rightarrow> nat \<Rightarrow> nat \<Rightarrow> string option" where
  "sni_exts ch e pos =
     (if pos + 4 \<le> e \<and> pos + 4 \<le> length ch then do {
        extType \<leftarrow> u16_at ch pos;
        extDataLen \<leftarrow> u16_at ch (pos + 2);
        if extType = 0 then sni_name ch (pos + 4) extDataLen
        else sni_exts ch e (pos + 4 + extDataLen) }
      else Some [])"
  by pat_completeness auto
termination by (relation "measure (\<lambda>(ch, e, pos). e - pos)") auto

declare sni_exts.simps [simp del]

definition hello_sni :: "bytes \<Rightarrow> string option" where
  "hello_sni ch =
     (if 34 \<ge> length ch then Some [] else do {
        l \<leftarrow> byte_at ch 34;
        let pos = 35 + unat l in
        if pos + 2 > length ch then Some [] else do {
          csLen \<leftarrow> u16_at ch pos;
          let pos = pos + 2 + csLen in
          if pos \<ge> length ch then Some [] else do {
            cm \<leftarrow> byte_at ch pos;
            let pos = pos + 1 + unat cm in
            if pos + 2 > length ch then Some [] else do {
              extLen \<leftarrow> u16_at ch pos;
              sni_exts ch (pos + 2 + extLen) (pos + 2) }}}})"

definition extractSNI :: "bytes \<Rightarrow> string option" where
  "extractSNI data = with_hello [] data hello_sni"

section \<open>No access out of range\<close>

lemma with_hello_eq:
  "with_hello none data k =
     (if length data < 9 \<or> data ! 0 \<noteq> 0x16 \<or> data ! 5 \<noteq> 1 then Some none else k (drop 9 data))"
proof (cases "length data < 5")
  case False
  have "slice_at data 5 (length data) = Some (drop 5 data)" using False by simp
  moreover have "slice_at (drop 5 data) 4 (length (drop 5 data)) = Some (drop 9 data)" if "9 \<le> length data"
    using that by simp
  moreover have "byte_at (drop 5 data) 0 = Some (data ! 5)" if "9 \<le> length data"
    using that by (simp add: byte_at_def)
  ultimately show ?thesis using False by (auto simp: with_hello_def byte_at_def not_less)
qed (simp add: with_hello_def)

lemma with_hello_total:
  assumes "\<And>ch. \<exists>r. k ch = Some r \<and> P ch r"
  shows "\<exists>r. with_hello none data k = Some r \<and> (r = none \<or> (\<exists>ch pre. data = pre @ ch \<and> P ch r))"
proof -
  have "\<exists>ch pre. data = pre @ ch \<and> P ch r" if "P (drop 9 data) r" for r
    using that by (metis append_take_drop_id)
  then show ?thesis using assms [of "drop 9 data"] by (auto simp: with_hello_eq)
qed

text \<open>A name that is found is a part of the bytes.\<close>

definition part_of :: "bytes \<Rightarrow> string \<Rightarrow> bool" where
  "part_of b s \<longleftrightarrow> (\<exists>xs ys. b = xs @ str_bytes s @ ys)"

lemma part_of_Nil [simp]: "part_of b []"
  unfolding part_of_def by (rule exI [of _ "[]"]) (simp add: str_bytes_def)

lemma part_of_slice: "part_of b (bytes_str (take n (drop i b)))"
  unfolding part_of_def
  by (rule exI [of _ "take i b"], rule exI [of _ "drop n (drop i b)"])
    (metis append_assoc append_take_drop_id str_bytes_inverse)

lemma part_of_append: "part_of ch s \<Longrightarrow> part_of (pre @ ch) s"
  unfolding part_of_def by (metis append_assoc)

lemma sni_name_total: "\<exists>s. sni_name ch pos n = Some s \<and> part_of ch s"
proof (cases "n < 5 \<or> pos + n > length ch")
  case False
  then obtain l where l: "u16_at ch (pos + 3) = Some l" using u16_at_Some [of "pos + 3" ch] by auto
  show ?thesis
  proof (cases "pos + 5 + l > length ch")
    case False
    then have "slice_at ch (pos + 5) (pos + 5 + l) = Some (take l (drop (pos + 5) ch))"
      using slice_at_Some [of "pos + 5" "pos + 5 + l" ch] by simp
    then show ?thesis using l \<open>\<not> (n < 5 \<or> pos + n > length ch)\<close> False part_of_slice [of ch l "pos + 5"]
      by (simp add: sni_name_def)
  qed (use l in \<open>simp add: sni_name_def\<close>)
qed (simp add: sni_name_def)

lemma sni_exts_total: "\<exists>s. sni_exts ch e pos = Some s \<and> part_of ch s"
proof (induction ch e pos rule: sni_exts.induct)
  case (1 ch e pos)
  show ?case
  proof (cases "pos + 4 \<le> e \<and> pos + 4 \<le> length ch")
    case True
    then obtain t n where "u16_at ch pos = Some t" "u16_at ch (pos + 2) = Some n"
      using u16_at_Some [of pos ch] u16_at_Some [of "pos + 2" ch] by auto
    then show ?thesis
      using 1 [OF True, of t n] True sni_name_total [of ch "pos + 4" n] by (simp add: sni_exts.simps [of ch e pos])
  next
    case False
    then have "sni_exts ch e pos = Some []" by (auto simp: sni_exts.simps [of ch e pos])
    then show ?thesis by simp
  qed
qed

lemma hello_sni_total: "\<exists>s. hello_sni ch = Some s \<and> part_of ch s"
  by (auto simp: hello_sni_def Let_def u16_at_Some sni_exts_total)

lemma hello_channel_total: "\<exists>r. hello_channel ch = Some r"
  by (auto simp: hello_channel_def Let_def)

text \<open>Peeking is safe: whatever bytes a client sends first, the two parsers return: no index
  or slice is out of range and the loop over the extensions ends. A server name that is found is a
  part of these bytes.\<close>

theorem hello_parsers_total:
  "\<exists>channel sni. extractChannel data = Some channel \<and> extractSNI data = Some sni \<and> part_of data sni"
proof -
  obtain c where "extractChannel data = Some c"
    unfolding extractChannel_def using with_hello_total [of hello_channel "\<lambda>_ _. True" "(0, False)" data] hello_channel_total by blast
  moreover obtain s where "with_hello [] data hello_sni = Some s" "s = [] \<or> (\<exists>ch pre. data = pre @ ch \<and> part_of ch s)"
    using with_hello_total [of hello_sni part_of "[]" data, OF hello_sni_total] by blast
  moreover from this(2) have "part_of data s" using part_of_append by auto
  ultimately show ?thesis unfolding extractSNI_def by blast
qed

section \<open>Reading what clients write\<close>

text \<open>The bytes of a ClientHello as far as they are looked at: \<open>vr\<close> is version and random, \<open>before\<close> the extensions
  before the server name, \<open>rest\<close> whatever of the record follows it in the peek buffer.\<close>

definition enc_ext :: "nat \<times> bytes \<Rightarrow> bytes" where
  "enc_ext x = enc_u16 (fst x) @ enc_u16 (length (snd x)) @ snd x"

definition sni_ext :: "string \<Rightarrow> bytes" where
  "sni_ext host = enc_ext (0, enc_u16 (length host + 3) @ [0] @ enc_u16 (length host) @ str_bytes host)"

definition hello_start :: "bytes \<Rightarrow> bytes \<Rightarrow> bytes \<Rightarrow> bytes" where
  "hello_start rec_hdr hs_len vr = [0x16] @ rec_hdr @ [1] @ hs_len @ vr"

definition hello_lists :: "bytes \<Rightarrow> bytes \<Rightarrow> bytes \<Rightarrow> bytes" where
  "hello_lists sid cs cm = [word_of_nat (length sid)] @ sid @ enc_u16 (length cs) @ cs @ [word_of_nat (length cm)] @ cm"

lemma sni_exts_finds:
  assumes "\<forall>x \<in> set before. 0 < fst x \<and> fst x < 65536 \<and> length (snd x) < 65536" and "length host + 5 < 65536"
    and "length a + length (concat (map enc_ext before)) + 4 \<le> e"
  shows "sni_exts (a @ concat (map enc_ext before) @ sni_ext host @ rest) e (length a) = Some host"
  using assms
proof (induction before arbitrary: a)
  case Nil
  let ?d = "enc_u16 (length host + 3) @ [0] @ enc_u16 (length host) @ str_bytes host"
  let ?ch = "a @ sni_ext host @ rest"
  have ch: "?ch = a @ enc_u16 0 @ (enc_u16 (length ?d) @ ?d @ rest)" by (simp add: sni_ext_def enc_ext_def)
  have t: "u16_at ?ch (length a) = Some 0" unfolding ch by (rule u16_at_append) simp
  have "?ch = (a @ enc_u16 0) @ enc_u16 (length ?d) @ (?d @ rest)" by (simp add: sni_ext_def enc_ext_def)
  from u16_at_append [of "length ?d" "a @ enc_u16 0" "?d @ rest", folded this]
  have n: "u16_at ?ch (length a + 2) = Some (length ?d)" using Nil by simp
  define p where "p = a @ enc_u16 0 @ enc_u16 (length ?d) @ enc_u16 (length host + 3) @ [0]"
  define C q where "C = ?ch" and "q = length a + 4"
  have C: "C = p @ enc_u16 (length host) @ str_bytes host @ rest" by (simp add: C_def p_def sni_ext_def enc_ext_def)
  have lp: "q + 3 = length p" "q + 5 = length p + 2" by (simp_all add: p_def q_def)
  have lC: "q + length ?d \<le> length C" "q + 5 + length host \<le> length C" by (simp_all add: C_def q_def sni_ext_def enc_ext_def)
  have l: "u16_at C (q + 3) = Some (length host)"
    unfolding C lp using Nil by (intro u16_at_append) simp
  have "slice_at C (q + 5) (q + 5 + length host) = Some (str_bytes host)"
    unfolding C lp by (simp add: slice_at_def)
  then have "sni_name C q (length ?d) = Some host"
    unfolding sni_name_def l using lC by simp
  moreover have "sni_exts C e (length a) = sni_name C q (length ?d)"
    using t n Nil lC unfolding C_def [symmetric] q_def [symmetric] by (subst sni_exts.simps) (simp add: q_def)
  ultimately show ?case by (simp add: C_def)
next
  case (Cons x before)
  let ?r = "concat (map enc_ext before) @ sni_ext host @ rest"
  let ?ch = "a @ enc_ext x @ ?r"
  have x: "0 < fst x" "fst x < 65536" "length (snd x) < 65536" using Cons.prems by auto
  have t: "u16_at ?ch (length a) = Some (fst x)"
    using u16_at_append [of "fst x" a "enc_u16 (length (snd x)) @ snd x @ ?r"] x by (simp add: enc_ext_def)
  have n: "u16_at ?ch (length a + 2) = Some (length (snd x))"
    using u16_at_append [of "length (snd x)" "a @ enc_u16 (fst x)" "snd x @ ?r"] x by (simp add: enc_ext_def)
  have len: "length (enc_ext x) = 4 + length (snd x)" by (simp add: enc_ext_def)
  have "sni_exts ?ch e (length (a @ enc_ext x)) = Some host"
    using Cons.IH [of "a @ enc_ext x"] Cons.prems by simp
  then have "sni_exts ?ch e (length a) = Some host"
    using t n x Cons.prems by (simp add: sni_exts.simps [of ?ch e "length a"] len add.assoc)
  then show ?case by simp
qed

text \<open>The session ID, cipher suites and compression methods are skipped.\<close>

lemma hello_sni_skips:
  assumes "length vr = 34" and "length sid < 256" and "length cs < 65536" and "length cm < 256" and "extLen < 65536"
  shows "hello_sni (vr @ hello_lists sid cs cm @ enc_u16 extLen @ exts) =
    sni_exts (vr @ hello_lists sid cs cm @ enc_u16 extLen @ exts) (length (vr @ hello_lists sid cs cm @ enc_u16 extLen) + extLen)
      (length (vr @ hello_lists sid cs cm @ enc_u16 extLen))"
proof -
  define C where "C = vr @ hello_lists sid cs cm @ enc_u16 extLen @ exts"
  define s c where "s = 35 + length sid" and "c = s + 2 + length cs"
  have l: "byte_at C 34 = Some (word_of_nat (length sid))"
    using byte_at_append [of vr "word_of_nat (length sid)"] assms(1) by (simp add: C_def hello_lists_def)
  have cs: "u16_at C s = Some (length cs)"
    using u16_at_append [OF assms(3), of "vr @ word_of_nat (length sid) # sid" "cs @ word_of_nat (length cm) # cm @ enc_u16 extLen @ exts"] assms(1)
    by (simp add: C_def s_def hello_lists_def)
  have cm: "byte_at C c = Some (word_of_nat (length cm))"
    using byte_at_append [of "vr @ word_of_nat (length sid) # sid @ enc_u16 (length cs) @ cs" "word_of_nat (length cm)" "cm @ enc_u16 extLen @ exts"] assms(1)
    by (simp add: C_def s_def c_def hello_lists_def add.assoc)
  define x where "x = c + 1 + length cm"
  have x: "x = length (vr @ hello_lists sid cs cm)" using assms(1) by (simp add: x_def c_def s_def hello_lists_def)
  have ex: "u16_at C x = Some extLen"
    using u16_at_append [OF assms(5), of "vr @ hello_lists sid cs cm" exts] by (simp add: C_def x)
  have len: "x + 2 \<le> length C" by (simp add: C_def x)
  then have lens: "34 < length C" "s + 2 \<le> length C" "c < length C" by (auto simp: x_def c_def s_def)
  have u: "unat (word_of_nat (length sid) :: byte) = length sid" "unat (word_of_nat (length cm) :: byte) = length cm"
    using assms by (simp_all add: unat_of_nat)
  have "hello_sni C = sni_exts C (x + 2 + extLen) (x + 2)"
    unfolding hello_sni_def l bind.simps Let_def u s_def [symmetric] cs c_def [symmetric] cm x_def [symmetric] ex
    using lens len by simp
  then show ?thesis by (simp add: C_def x)
qed

lemma hello_channel_reads:
  assumes "length vr = 34" and "length sid < 256"
  shows "hello_channel (vr @ hello_lists sid cs cm @ exts) =
    Some (if 2 \<le> length sid \<and> sid ! 0 = chMagic then (sid ! 1, True) else (0, False))"
proof -
  define C where "C = vr @ hello_lists sid cs cm @ exts"
  have l: "byte_at C 34 = Some (word_of_nat (length sid))"
    using byte_at_append [of vr "word_of_nat (length sid)"] assms(1) by (simp add: C_def hello_lists_def)
  have u: "unat (word_of_nat (length sid) :: byte) = length sid" using assms by (simp add: unat_of_nat)
  have len: "35 + length sid \<le> length C" using assms by (simp add: C_def hello_lists_def)
  have at: "byte_at C (35 + i) = Some (sid ! i)" if "i < length sid" for i
    using that len assms(1) by (simp add: byte_at_def C_def hello_lists_def nth_append)
  have b: "byte_at C 35 = Some (sid ! 0)" "byte_at C (35 + 1) = Some (sid ! 1)" if "2 \<le> length sid"
    using that at [of 0] at [of 1] by force+
  show ?thesis
  proof (cases "length sid < 2")
    case False
    then show ?thesis unfolding C_def [symmetric] hello_channel_def l bind.simps Let_def u
      using len b by (simp add: byte_at_def [of C 34])
  next
    case True
    then show ?thesis unfolding C_def [symmetric] hello_channel_def l bind.simps Let_def u by simp
  qed
qed

lemma with_hello_start:
  "length rec_hdr = 4 \<Longrightarrow> length hs_len = 3 \<Longrightarrow> length vr = 34 \<Longrightarrow> with_hello none (hello_start rec_hdr hs_len vr @ xs) k = k (vr @ xs)"
  by (simp add: with_hello_eq hello_start_def nth_append nth_Cons')

text \<open>From a ClientHello as TLS lays it out, the server name is read
  back, wherever its extension stands in the list and even if the peek buffer ends right after it.
  The channel of a client is read from its session ID exactly when that starts with the marker.\<close>

lemma hello_parsed:
  assumes "length rec_hdr = 4" and "length hs_len = 3" and "length vr = 34"
    and "length sid < 256" and "length cs < 65536" and "length cm < 256" and "extLen < 65536"
    and "\<forall>x \<in> set before. 0 < fst x \<and> fst x < 65536 \<and> length (snd x) < 65536" and "length host + 5 < 65536"
    and "length (concat (map enc_ext before)) + 4 \<le> extLen"
    and "data = hello_start rec_hdr hs_len vr @ hello_lists sid cs cm @ enc_u16 extLen @
      concat (map enc_ext before) @ sni_ext host @ rest"
  shows "extractSNI data = Some host \<and>
    extractChannel data = Some (if 2 \<le> length sid \<and> sid ! 0 = chMagic then (sid ! 1, True) else (0, False))"
proof -
  let ?exts = "concat (map enc_ext before) @ sni_ext host @ rest"
  show ?thesis unfolding extractSNI_def extractChannel_def assms(11) with_hello_start [OF assms(1-3)]
    using hello_sni_skips [OF assms(3-7), of ?exts] hello_channel_reads [OF assms(3,4), of cs cm "enc_u16 extLen @ ?exts"]
      sni_exts_finds [OF assms(8,9), of "vr @ hello_lists sid cs cm @ enc_u16 extLen"] assms(10) by simp
qed

text \<open>A server name behind an extension that does not fit into the peek buffer is not found.\<close>

lemma sni_beyond_peek:
  assumes "0 < t" and "t < 65536" and "n < 65536" and "length d \<le> n"
  shows "sni_exts (a @ enc_u16 t @ enc_u16 n @ d) e (length a) = Some []"
proof -
  define C where "C = a @ enc_u16 t @ enc_u16 n @ d"
  have r: "u16_at C (length a) = Some t" "u16_at C (length a + 2) = Some n"
    using u16_at_append [OF assms(2), of a "enc_u16 n @ d"] u16_at_append [OF assms(3), of "a @ enc_u16 t" d] by (simp_all add: C_def)
  have "sni_exts C e (length a + 4 + n) = Some []" using assms(4) by (subst sni_exts.simps) (simp add: C_def)
  then have "sni_exts C e (length a) = Some []" using r assms(1) by (subst sni_exts.simps) simp
  then show ?thesis by (simp add: C_def)
qed

end
