(* ===== verification/Net_Addr.thy ===== *)
theory Net_Addr
  imports Go_Lib
begin

text \<open>
  Address ranges of the \<open>net\<close> package. Parsing of addresses and ranges (\<open>net.ParseIP\<close>, \<open>net.ParseCIDR\<close>) is an argument of
  the definitions that use it; a range is the pair of network number and mask, of equal length.
\<close>

type_synonym IPNet = "bytes \<times> bytes"

definition IPNet_Contains :: "IPNet \<Rightarrow> bytes \<Rightarrow> bool" where
  "IPNet_Contains n ip = (let x = (case To4 ip of None \<Rightarrow> ip | Some x \<Rightarrow> x) in
     length x = length (fst n) \<and> list_all (\<lambda>i. fst n ! i AND snd n ! i = x ! i AND snd n ! i) [0..<length x])"

record net_env =
  ParseCIDR :: "string \<Rightarrow> IPNet option"
  ParseIP :: "string \<Rightarrow> bytes option"

end
