(* ===== verification/Cidr_Cache.thy ===== *)
theory Cidr_Cache
  imports Control_Caches Net_Addr
begin

text \<open>
  Which country an address belongs to (\<open>src/snc-control/cidr_cache.go\<close>): address ranges per country, fetched from the arbiter
  through an exit. Parsing of addresses and ranges (\<open>net.ParseIP\<close>, \<open>net.ParseCIDR\<close>) and JSON decoding are arguments.
\<close>

type_synonym cidrNet = "IPNet list"

record cidr_env = net_env +
  decode_countries :: "bytes \<Rightarrow> (string, bytes) gomap option"
  decode_cidrs :: "bytes \<Rightarrow> string list option"

fun parseCIDRNet :: "'a net_env_scheme \<Rightarrow> string list \<Rightarrow> cidrNet" where
  "parseCIDRNet E [] = []"
| "parseCIDRNet E (c # cs) = (case ParseCIDR E c of None \<Rightarrow> parseCIDRNet E cs | Some n \<Rightarrow> n # parseCIDRNet E cs)"

definition cidr_contains :: "cidrNet \<Rightarrow> bytes \<Rightarrow> bool" where
  "cidr_contains nets ip = list_ex (\<lambda>n. IPNet_Contains n ip) nets"

record cidrCache =
  cc_nodeToken :: string
  cc_sets :: "(string, cidrNet) gomap"
  cc_payloads :: "(string, bytes) gomap"

definition newCIDRCache :: "string \<Rightarrow> cidrCache" where
  "newCIDRCache token = \<lparr>cc_nodeToken = token, cc_sets = gm_empty, cc_payloads = gm_empty\<rparr>"

fun lookup_payload :: "bytes \<Rightarrow> (string, bytes) gomap \<Rightarrow> (string, cidrNet) gomap \<Rightarrow> bytes option" where
  "lookup_payload ip payloads [] = None"
| "lookup_payload ip payloads ((country, s) # sets) =
     (if cidr_contains s ip then
        (case gm_get payloads country of Some raw \<Rightarrow> Some raw | None \<Rightarrow> lookup_payload ip payloads sets)
      else lookup_payload ip payloads sets)"

definition cidr_Lookup :: "cidr_env \<Rightarrow> string \<Rightarrow> cidrCache \<Rightarrow> bytes option" where
  "cidr_Lookup E ipStr c = (case ParseIP E ipStr of None \<Rightarrow> None | Some ip \<Rightarrow> lookup_payload ip (cc_payloads c) (cc_sets c))"

definition lookupCC :: "bytes \<Rightarrow> cidrCache \<Rightarrow> string" where
  "lookupCC ip c = (case find (\<lambda>(cc, s). cidr_contains s ip) (cc_sets c) of None \<Rightarrow> [] | Some (cc, _) \<Rightarrow> cc)"

definition collect_country :: "cidr_env \<Rightarrow> string \<times> bytes \<Rightarrow> (string, cidrNet) gomap \<times> (string, bytes) gomap \<Rightarrow>
    (string, cidrNet) gomap \<times> (string, bytes) gomap" where
  "collect_country E x acc = (case decode_cidrs E (snd x) of None \<Rightarrow> acc
     | Some cidrs \<Rightarrow> (gm_put (fst x) (parseCIDRNet E cidrs) (fst acc), gm_put (fst x) (snd x) (snd acc)))"

definition cidr_refresh :: "cidr_env \<Rightarrow> call_env \<Rightarrow> cidrCache \<Rightarrow> ExitRegistry \<Rightarrow> cidrCache \<times> ExitRegistry" where
  "cidr_refresh E V c r = (case ce_pick V r of
     (Picked e, r1) \<Rightarrow>
       ((case ce_http V (node_get (exitProxyURL (Addr e) ''/api/cidr/all'') (cc_nodeToken c)) of
           Response st body \<Rightarrow>
             if st \<noteq> 200 then c
             else (case decode_countries E (take (50 * 2 ^ 20) body) of None \<Rightarrow> c
               | Some countries \<Rightarrow>
                   if gm_len countries = 0 then c
                   else let (sets, payloads) = fold (collect_country E) countries (gm_empty, gm_empty) in
                     c\<lparr>cc_sets := sets, cc_payloads := payloads\<rparr>)
         | _ \<Rightarrow> c), r1)
   | (_, r1) \<Rightarrow> (c, r1))"

section \<open>Lookups after a refresh\<close>

text \<open>The countries of a response that can be decoded, and whether one of them has the address.\<close>

definition country_has :: "cidr_env \<Rightarrow> bytes \<Rightarrow> bytes \<Rightarrow> bool" where
  "country_has E ip raw \<longleftrightarrow> (\<exists>cidrs c n. decode_cidrs E raw = Some cidrs \<and> c \<in> set cidrs \<and> ParseCIDR E c = Some n \<and> IPNet_Contains n ip)"

lemma parseCIDRNet_contains:
  "cidr_contains (parseCIDRNet E cs) ip \<longleftrightarrow> (\<exists>c n. c \<in> set cs \<and> ParseCIDR E c = Some n \<and> IPNet_Contains n ip)"
  by (induction cs) (auto simp: cidr_contains_def split: option.splits)

text \<open>What the collecting loop keeps: the two maps belong together.\<close>

definition collected :: "cidr_env \<Rightarrow> (string \<times> bytes) set \<Rightarrow> (string, cidrNet) gomap \<times> (string, bytes) gomap \<Rightarrow> bool" where
  "collected E done acc \<longleftrightarrow> gm_wf (fst acc) \<and> gm_wf (snd acc) \<and>
     (\<forall>cc s. gm_get (fst acc) cc = Some s \<longleftrightarrow>
        (\<exists>raw cidrs. gm_get (snd acc) cc = Some raw \<and> (cc, raw) \<in> done \<and> decode_cidrs E raw = Some cidrs \<and> s = parseCIDRNet E cidrs)) \<and>
     (\<forall>cc raw. (cc, raw) \<in> done \<longrightarrow> decode_cidrs E raw \<noteq> None \<longrightarrow> gm_get (snd acc) cc = Some raw)"

lemma collect_step:
  assumes "collected E done acc" and "fst x \<notin> fst ` done"
  shows "collected E (insert x done) (collect_country E x acc)"
proof (cases "decode_cidrs E (snd x)")
  case None
  then show ?thesis using assms unfolding collected_def collect_country_def
    by (simp) (metis fst_conv image_eqI option.distinct(1) prod.collapse snd_conv)
next
  case (Some cidrs)
  have "(fst x, raw) \<notin> done" for raw using assms(2) by (force simp: image_iff)
  then show ?thesis using assms Some unfolding collected_def collect_country_def
    by (cases x) auto
qed

lemma collect_all:
  assumes "collected E done acc" and "distinct (map fst xs)" and "fst ` set xs \<inter> fst ` done = {}"
  shows "collected E (set xs \<union> done) (fold (collect_country E) xs acc)"
  using assms
proof (induction xs arbitrary: acc "done")
  case (Cons x xs)
  have "collected E (insert x done) (collect_country E x acc)" using Cons.prems collect_step by auto
  moreover have "fst ` set xs \<inter> fst ` insert x done = {}" using Cons.prems by auto
  ultimately have "collected E (set xs \<union> insert x done) (fold (collect_country E) xs (collect_country E x acc))"
    using Cons.prems(2) by (intro Cons.IH) simp_all
  then show ?case by simp
qed simp

lemma collect_countries:
  "gm_wf countries \<Longrightarrow> collected E (set countries) (fold (collect_country E) countries (gm_empty, gm_empty))"
proof -
  assume wf: "gm_wf countries"
  have "collected E {} (gm_empty, gm_empty)" by (simp add: collected_def)
  from collect_all [OF this, of countries] wf show ?thesis by (simp add: gm_wf_def)
qed

lemma lookup_payload_Some:
  "lookup_payload ip payloads sets = Some raw \<Longrightarrow>
   \<exists>cc s. (cc, s) \<in> set sets \<and> cidr_contains s ip \<and> gm_get payloads cc = Some raw"
proof (induction sets)
  case (Cons x sets)
  obtain cc s where x: "x = (cc, s)" by fastforce
  have "cidr_contains s ip \<and> gm_get payloads cc = Some raw \<or> lookup_payload ip payloads sets = Some raw"
    using Cons.prems by (auto simp: x split: if_splits option.splits)
  then show ?case
  proof
    assume "lookup_payload ip payloads sets = Some raw"
    from Cons.IH [OF this] show ?thesis by auto
  qed (use x in auto)
qed simp

lemma lookup_payload_None:
  "lookup_payload ip payloads sets = None \<Longrightarrow> (cc, s) \<in> set sets \<Longrightarrow> cidr_contains s ip \<Longrightarrow> gm_get payloads cc = None"
  by (induction sets) (auto split: if_splits option.splits)

text \<open>Country of an address: after a refresh that decodes, an address is looked up to the signed
  payload of one of the countries the arbiter sent, unchanged, and one of whose ranges contains the
  address; nothing is found only if no country has it. The country code agrees.\<close>

theorem cidr_lookup_after_refresh:
  assumes pick: "ce_pick V r = (Picked e, r1)"
    and reply: "ce_http V (node_get (exitProxyURL (Addr e) ''/api/cidr/all'') (cc_nodeToken c)) = Response 200 body"
    and decoded: "decode_countries E (take (50 * 2 ^ 20) body) = Some countries" "gm_wf countries" "countries \<noteq> []"
    and run: "cidr_refresh E V c r = (c', r')" and ip: "ParseIP E ipStr = Some ip"
  shows "(cidr_Lookup E ipStr c' = None \<longleftrightarrow> \<not> (\<exists>cc raw. (cc, raw) \<in> set countries \<and> country_has E ip raw)) \<and>
    (\<forall>raw. cidr_Lookup E ipStr c' = Some raw \<longrightarrow> (\<exists>cc. (cc, raw) \<in> set countries \<and> country_has E ip raw)) \<and>
    (lookupCC ip c' \<noteq> [] \<longrightarrow> (\<exists>raw. (lookupCC ip c', raw) \<in> set countries \<and> country_has E ip raw))"
proof -
  define acc where "acc = fold (collect_country E) countries (gm_empty, gm_empty)"
  have col: "collected E (set countries) acc" unfolding acc_def by (rule collect_countries [OF decoded(2)])
  have "gm_len countries \<noteq> 0" using decoded(3) by (simp add: gm_len_def)
  then have c': "cc_sets c' = fst acc" "cc_payloads c' = snd acc"
    using pick reply decoded run unfolding cidr_refresh_def acc_def [symmetric] by (auto simp: case_prod_unfold acc_def Let_def)
  have wf: "gm_wf (fst acc)" using col by (simp add: collected_def)
  have has: "\<exists>raw. gm_get (snd acc) cc = Some raw \<and> (cc, raw) \<in> set countries \<and> country_has E ip raw"
    if "gm_get (fst acc) cc = Some s" "cidr_contains s ip" for cc s
    using that col unfolding collected_def country_has_def by (metis parseCIDRNet_contains)
  have found: "\<exists>cc. (cc, raw) \<in> set countries \<and> country_has E ip raw" if "cidr_Lookup E ipStr c' = Some raw" for raw
  proof -
    have "lookup_payload ip (snd acc) (fst acc) = Some raw" using that ip by (simp add: cidr_Lookup_def c')
    from lookup_payload_Some [OF this] obtain cc s where "gm_get (fst acc) cc = Some s" "cidr_contains s ip" "gm_get (snd acc) cc = Some raw"
      using wf by (auto simp: gm_get_in_set)
    then show ?thesis using has by fastforce
  qed
  have none: "\<not> country_has E ip raw" if "cidr_Lookup E ipStr c' = None" and "(cc, raw) \<in> set countries" for cc raw
  proof
    assume "country_has E ip raw"
    then obtain cidrs where d: "decode_cidrs E raw = Some cidrs" "cidr_contains (parseCIDRNet E cidrs) ip"
      by (auto simp: country_has_def parseCIDRNet_contains)
    have p: "gm_get (snd acc) cc = Some raw" using col that(2) d unfolding collected_def by blast
    then have "gm_get (fst acc) cc = Some (parseCIDRNet E cidrs)" using col that(2) d unfolding collected_def by blast
    then have "(cc, parseCIDRNet E cidrs) \<in> set (fst acc)" using wf by (simp add: gm_get_in_set)
    then show False using that(1) ip d(2) p lookup_payload_None [of ip "snd acc" "fst acc"] by (auto simp: cidr_Lookup_def c')
  qed
  have "\<exists>raw. (lookupCC ip c', raw) \<in> set countries \<and> country_has E ip raw" if ne: "lookupCC ip c' \<noteq> []"
  proof -
    obtain cc s where f: "find (\<lambda>(cc, s). cidr_contains s ip) (fst acc) = Some (cc, s)"
      using ne by (auto simp: lookupCC_def c' split: option.splits)
    then have "lookupCC ip c' = cc" "gm_get (fst acc) cc = Some s" "cidr_contains s ip"
      using wf find_SomeD [OF f] by (auto simp: lookupCC_def c' gm_get_in_set)
    then show ?thesis using has by blast
  qed
  then show ?thesis using found none by (metis not_None_eq)
qed

definition sample_cidr_env :: cidr_env where
  "sample_cidr_env = \<lparr>ParseCIDR = (\<lambda>s. Some ([10, 0, 0, 0], [255, 0, 0, 0])), ParseIP = (\<lambda>s. Some [10, 1, 2, 3]),
     decode_countries = (\<lambda>b. Some [(''DE'', b)]), decode_cidrs = (\<lambda>b. Some [''10.0.0.0/8''])\<rparr>"

theorem cidr_lookup_after_refresh_witness:
  "cidr_Lookup sample_cidr_env ''10.1.2.3'' (fst (cidr_refresh sample_cidr_env sample_call_env (newCIDRCache []) sample_registry)) \<noteq> None"
proof -
  let ?E = sample_cidr_env and ?V = sample_call_env
  obtain c' r' where run: "cidr_refresh ?E ?V (newCIDRCache []) sample_registry = (c', r')" by fastforce
  have http: "ce_http ?V rq = Response 200 [1]" for rq by (simp add: sample_call_env_def)
  have dec: "decode_countries ?E (take (50 * 2 ^ 20) [1]) = Some [(''DE'', [1])]" by (simp add: sample_cidr_env_def)
  have has: "country_has ?E [10, 1, 2, 3] [1]"
    by (simp add: country_has_def sample_cidr_env_def IPNet_Contains_def To4_def)
  have ip: "ParseIP ?E ''10.1.2.3'' = Some [10, 1, 2, 3]" by (simp add: sample_cidr_env_def)
  show ?thesis
    using cidr_lookup_after_refresh [OF sample_pick http dec _ _ run ip] has run by (simp add: gm_wf_def)
qed

end
