(* ===== verification/Control_Proxy.thy ===== *)
theory Control_Proxy
  imports Exit_Registry Tls_Hello Cidr_Cache
begin

text \<open>
  How a control node handles a client connection (\<open>src/snc-control/handler.go\<close>): the first bytes decide whether it serves its own
  API or passes the connection on to an exit; connections to exits are registered so that they can be
  closed when the exit dies. Copying between the two sockets is left out but for its byte counts.
\<close>

section \<open>Deciding\<close>

definition relayAPISNIPool :: "string list" where
  "relayAPISNIPool = [''ctrl.cdn-assets.net'', ''api.cdn-relay.net'', ''mgmt.edge-static.net'', ''admin.cdn-cache.net'', ''svc.static-assets.net'']"

definition signalSNIPool :: "string list" where
  "signalSNIPool = [''push.cdn-assets.net'', ''ws.cdn-relay.net'', ''live.edge-static.net'', ''stream.cdn-cache.net'', ''feed.static-assets.net'']"

definition natRelaySNIPool :: "string list" where
  "natRelaySNIPool = [''edge.cdn-assets.net'', ''relay.cdn-relay.net'', ''proxy.edge-static.net'', ''gateway.cdn-cache.net'', ''forward.static-assets.net'']"

definition sniType :: "(string, string) gomap" where
  "sniType = fold (\<lambda>s. gm_put s ''nat'') natRelaySNIPool
     (fold (\<lambda>s. gm_put s ''signal'') signalSNIPool (fold (\<lambda>s. gm_put s ''relay'') relayAPISNIPool gm_empty))"

definition randomSNI :: "(nat \<Rightarrow> nat) \<Rightarrow> string list \<Rightarrow> string" where
  "randomSNI rnd pool = pool ! rnd (length pool)"

text \<open>A connection whose peeked bytes are given back first; \<open>rd\<close> reads from the connection itself.\<close>

record 'c prependConn =
  pc_conn :: 'c
  pc_buf :: bytes
  pc_pos :: nat

definition prepend_Read :: "(nat \<Rightarrow> 'c \<Rightarrow> bytes \<times> 'c) \<Rightarrow> nat \<Rightarrow> 'c prependConn \<Rightarrow> bytes \<times> 'c prependConn" where
  "prepend_Read rd n c =
     (if pc_pos c < length (pc_buf c) then
        (let d = take n (drop (pc_pos c) (pc_buf c)) in (d, c\<lparr>pc_pos := pc_pos c + length d\<rparr>))
      else let (d, conn') = rd n (pc_conn c) in (d, c\<lparr>pc_conn := conn'\<rparr>))"

datatype 'c route = CloseClient | ServeRelayAPI "'c prependConn" | ProxyToExit "'c prependConn"

text \<open>\<open>None\<close> is a panic of a parser.\<close>

definition conn_type :: "bytes \<Rightarrow> string option" where
  "conn_type peeked = (case extractChannel peeked of None \<Rightarrow> None
     | Some (ch, True) \<Rightarrow> Some (if ch = 1 then ''relay'' else if ch = 2 then ''signal'' else if ch = 3 then ''nat'' else [])
     | Some (ch, False) \<Rightarrow> map_option (\<lambda>sni. case gm_get sniType sni of None \<Rightarrow> [] | Some t \<Rightarrow> t) (extractSNI peeked))"

definition handle_conn :: "bool \<Rightarrow> bool \<Rightarrow> bytes \<Rightarrow> bool \<Rightarrow> 'c \<Rightarrow> 'c route option" where
  "handle_conn hasAPI hasCfg peeked err conn =
     (if err \<and> peeked = [] then Some CloseClient
      else map_option (\<lambda>t. let wrapped = \<lparr>pc_conn = conn, pc_buf = peeked, pc_pos = 0\<rparr> in
        if t = ''relay'' \<and> hasAPI \<and> hasCfg then ServeRelayAPI wrapped else ProxyToExit wrapped) (conn_type peeked))"

section \<open>Nothing is lost by peeking\<close>

text \<open>A connection as the chunks in which the client's bytes arrive.\<close>

fun chunk_read :: "nat \<Rightarrow> bytes list \<Rightarrow> bytes \<times> bytes list" where
  "chunk_read n [] = ([], [])"
| "chunk_read n (x # xs) = (take n x, if drop n x = [] then xs else drop n x # xs)"

fun reads :: "nat list \<Rightarrow> bytes list prependConn \<Rightarrow> bytes \<times> bytes list prependConn" where
  "reads [] c = ([], c)"
| "reads (n # ns) c = (let (d, c1) = prepend_Read chunk_read n c; (ds, c2) = reads ns c1 in (d @ ds, c2))"

definition unread :: "bytes list prependConn \<Rightarrow> bytes" where
  "unread c = drop (pc_pos c) (pc_buf c) @ concat (pc_conn c)"

lemma chunk_read_stream: "fst (chunk_read n xs) @ concat (snd (chunk_read n xs)) = concat xs"
  by (cases xs) (auto simp flip: append_assoc)

lemma prepend_Read_stream: "fst (prepend_Read chunk_read n c) @ unread (snd (prepend_Read chunk_read n c)) = unread c"
proof (cases "pc_pos c < length (pc_buf c)")
  case True
  let ?rest = "drop (pc_pos c) (pc_buf c)"
  have "drop (pc_pos c + length (take n ?rest)) (pc_buf c) = drop (length (take n ?rest)) ?rest"
    by (simp only: drop_drop add.commute)
  also have "\<dots> = drop n ?rest" by (cases "n \<le> length ?rest") (simp_all only: length_take min_def if_True if_False drop_all, simp_all)
  finally have eq: "take n ?rest @ drop (pc_pos c + length (take n ?rest)) (pc_buf c) = ?rest" by (simp only: append_take_drop_id)
  define d where "d = take n ?rest"
  define q where "q = pc_pos c + length d"
  have "prepend_Read chunk_read n c = (d, c\<lparr>pc_pos := q\<rparr>)" using True by (simp only: prepend_Read_def if_True Let_def d_def q_def)
  then show ?thesis using eq unfolding d_def [symmetric] q_def [symmetric] by (simp add: unread_def flip: append_assoc)
next
  case False
  then show ?thesis using chunk_read_stream [of n "pc_conn c"] by (simp add: prepend_Read_def unread_def case_prod_unfold Let_def)
qed

lemma reads_stream: "fst (reads ns c) @ unread (snd (reads ns c)) = unread c"
proof (induction ns arbitrary: c)
  case (Cons n ns)
  then show ?case using prepend_Read_stream [of n c] by (simp add: case_prod_unfold Let_def)
qed simp

lemma sniType_relay: "(case gm_get sniType sni of None \<Rightarrow> [] | Some t \<Rightarrow> t) = ''relay'' \<longleftrightarrow> sni \<in> set relayAPISNIPool"
  by (simp add: sniType_def relayAPISNIPool_def signalSNIPool_def natRelaySNIPool_def)



section \<open>Connections to exits\<close>

text \<open>Connections are numbers. \<open>int\<close> wraps around.\<close>

record tcpProxy =
  tp_active :: "(string, (int, nat) gomap) gomap"
  tp_nextID :: int

definition newTCPProxy :: tcpProxy where "newTCPProxy = \<lparr>tp_active = gm_empty, tp_nextID = 0\<rparr>"

definition conns_of :: "string \<Rightarrow> tcpProxy \<Rightarrow> (int, nat) gomap" where
  "conns_of addr p = (case gm_get (tp_active p) addr of None \<Rightarrow> gm_empty | Some m \<Rightarrow> m)"

definition registerExitConn :: "string \<Rightarrow> nat \<Rightarrow> tcpProxy \<Rightarrow> int \<times> tcpProxy" where
  "registerExitConn addr conn p = (let i = wrap64 (tp_nextID p + 1) in
     (i, p\<lparr>tp_nextID := i, tp_active := gm_put addr (gm_put i conn (conns_of addr p)) (tp_active p)\<rparr>))"

definition unregisterExitConn :: "string \<Rightarrow> int \<Rightarrow> tcpProxy \<Rightarrow> tcpProxy" where
  "unregisterExitConn addr i p = (case gm_get (tp_active p) addr of None \<Rightarrow> p
     | Some m \<Rightarrow> p\<lparr>tp_active := gm_put addr (gm_del i m) (tp_active p)\<rparr>)"

text \<open>The connections to close, and the registry without them.\<close>

definition closeExitConns :: "string \<Rightarrow> tcpProxy \<Rightarrow> nat list \<times> tcpProxy" where
  "closeExitConns addr p = (map snd (conns_of addr p), p\<lparr>tp_active := gm_del addr (tp_active p)\<rparr>)"

text \<open>The start of \<open>proxyToExit\<close>: country of the client, choice of the exit, dialling, registration and the
  sample for the round trip time. \<open>None\<close> is a panic.\<close>

datatype proxy_start = NoExitAvailable | DialFailed string | Proxying string int

definition client_country :: "cidr_env \<Rightarrow> cidrCache option \<Rightarrow> string \<Rightarrow> string \<times> string" where
  "client_country E cidrC remote = (case SplitHostPort remote of None \<Rightarrow> ([], [])
     | Some (host, port) \<Rightarrow> (host, case cidrC of None \<Rightarrow> []
         | Some c \<Rightarrow> (case ParseIP E host of None \<Rightarrow> [] | Some ip \<Rightarrow> lookupCC ip c)))"

definition proxy_begin :: "(bytes \<Rightarrow> bytes) \<Rightarrow> cidr_env \<Rightarrow> cidrCache option \<Rightarrow> (string \<Rightarrow> (nat \<times> duration) option) \<Rightarrow> string \<Rightarrow>
    tcpProxy \<Rightarrow> ExitRegistry \<Rightarrow> (proxy_start \<times> tcpProxy \<times> ExitRegistry) option" where
  "proxy_begin sha E cidrC dial remote p r =
     (let (clientIP, clientCC) = client_country E cidrC remote in
      case PickForClient sha clientIP clientCC r of
        NoExits \<Rightarrow> Some (NoExitAvailable, p, r)
      | PickPanic \<Rightarrow> None
      | Picked e \<Rightarrow> (let exitAddr = exitDialAddr (Addr e) in
          case dial exitAddr of None \<Rightarrow> Some (DialFailed exitAddr, p, r)
          | Some (conn, dialRTT) \<Rightarrow> (let (i, p1) = registerExitConn (Addr e) conn p in
              map_option (\<lambda>r1. (Proxying (Addr e) i, p1, r1)) (RecordDialRTT (Addr e) dialRTT r))))"

text \<open>Its end: the connection is unregistered and the bytes of both directions are counted.\<close>

definition proxy_end :: "string \<Rightarrow> int \<Rightarrow> int \<Rightarrow> int \<Rightarrow> int \<Rightarrow> tcpProxy \<Rightarrow> int \<times> tcpProxy" where
  "proxy_end addr i up down bytesTotal p = (wrap64 (bytesTotal + wrap64 (up + down)), unregisterExitConn addr i p)"

section \<open>Which connections are closed\<close>

datatype conn_op = Reg string nat | Unreg string int | CloseAll string

fun conn_step :: "conn_op \<Rightarrow> tcpProxy \<Rightarrow> tcpProxy" where
  "conn_step (Reg a c) p = snd (registerExitConn a c p)"
| "conn_step (Unreg a i) p = unregisterExitConn a i p"
| "conn_step (CloseAll a) p = snd (closeExitConns a p)"

text \<open>The specification, newest operation first: the number of a registration is its position; a
  connection is open under an exit until it is unregistered under its number or the exit's are closed.\<close>

fun reg_count :: "conn_op list \<Rightarrow> int" where
  "reg_count [] = 0"
| "reg_count (Reg a c # h) = reg_count h + 1"
| "reg_count (_ # h) = reg_count h"

fun open_conn :: "conn_op list \<Rightarrow> string \<Rightarrow> int \<Rightarrow> nat option" where
  "open_conn [] a i = None"
| "open_conn (Reg b c # h) a i = (if a = b \<and> i = reg_count h + 1 then Some c else open_conn h a i)"
| "open_conn (Unreg b j # h) a i = (if a = b \<and> i = j then None else open_conn h a i)"
| "open_conn (CloseAll b # h) a i = (if a = b then None else open_conn h a i)"

definition registry_ok :: "tcpProxy \<Rightarrow> bool" where
  "registry_ok p \<longleftrightarrow> gm_wf (tp_active p) \<and> (\<forall>a m. gm_get (tp_active p) a = Some m \<longrightarrow> gm_wf m)"

lemma conns_of_wf: "registry_ok p \<Longrightarrow> gm_wf (conns_of a p)"
  by (simp add: registry_ok_def conns_of_def split: option.splits)

lemma conns_register:
  "conns_of a (snd (registerExitConn b c p)) = (if a = b then gm_put (wrap64 (tp_nextID p + 1)) c (conns_of b p) else conns_of a p)"
  by (simp add: registerExitConn_def conns_of_def Let_def)

lemma conns_unregister:
  "gm_get (conns_of a (unregisterExitConn b j p)) i = (if a = b \<and> i = j then None else gm_get (conns_of a p) i)"
  by (simp add: unregisterExitConn_def conns_of_def split: option.splits)

lemma conns_close: "conns_of a (snd (closeExitConns b p)) = (if a = b then gm_empty else conns_of a p)"
  by (simp add: closeExitConns_def conns_of_def)

lemma registry_ok_step: "registry_ok p \<Longrightarrow> registry_ok (conn_step x p)"
proof (cases x)
  case (Reg a c)
  assume "registry_ok p"
  then show ?thesis using conns_of_wf [of p a] Reg by (auto simp: registry_ok_def registerExitConn_def Let_def split: if_splits)
next
  case (Unreg a i)
  assume "registry_ok p"
  then show ?thesis using Unreg by (auto simp: registry_ok_def unregisterExitConn_def split: option.splits if_splits)
next
  case (CloseAll a)
  assume "registry_ok p"
  then show ?thesis using CloseAll by (auto simp: registry_ok_def closeExitConns_def split: if_splits)
qed

lemma reg_count_bound: "0 \<le> reg_count h \<and> reg_count h \<le> int (length h)"
  by (induction h rule: reg_count.induct) auto

lemma registry_history:
  assumes "int (length h) < 2 ^ 63"
  shows "registry_ok (foldr conn_step h newTCPProxy) \<and> tp_nextID (foldr conn_step h newTCPProxy) = reg_count h \<and>
    (\<forall>a i. gm_get (conns_of a (foldr conn_step h newTCPProxy)) i = open_conn h a i)"
  using assms
proof (induction h)
  case Nil
  then show ?case by (simp add: newTCPProxy_def registry_ok_def conns_of_def)
next
  case (Cons x h)
  let ?p = "foldr conn_step h newTCPProxy"
  have ih: "registry_ok ?p" "tp_nextID ?p = reg_count h" "\<And>a i. gm_get (conns_of a ?p) i = open_conn h a i"
    using Cons by auto
  have ok: "registry_ok (conn_step x ?p)" using ih(1) by (rule registry_ok_step)
  show ?case
  proof (cases x)
    case (Reg b c)
    have "is_int64 (reg_count h + 1)" using reg_count_bound [of h] Cons.prems by (simp add: int64_min_def int64_max_def)
    then have w: "wrap64 (tp_nextID ?p + 1) = reg_count h + 1" by (simp only: ih(2) wrap64_id)
    then have "tp_nextID (conn_step x ?p) = reg_count (x # h)" by (simp add: Reg registerExitConn_def Let_def)
    then show ?thesis using Reg ih ok w by (simp add: conns_register)
  next
    case (Unreg b j)
    have "tp_nextID (conn_step x ?p) = reg_count h" using ih(2) by (simp add: Unreg unregisterExitConn_def split: option.splits)
    then show ?thesis using Unreg ih ok by (simp add: conns_unregister)
  next
    case (CloseAll b)
    have "tp_nextID (conn_step x ?p) = reg_count h" using ih(2) by (simp add: CloseAll closeExitConns_def)
    then show ?thesis using CloseAll ih ok by (simp add: conns_close)
  qed
qed

text \<open>Property C28: (closing a dead exit) after any sequence of registrations, unregistrations and closings,
  closing the connections of an exit closes exactly the connections that were registered for it and
  neither unregistered nor closed since; a number is never given to two open connections.\<close>

theorem dead_exit_connections:
  assumes "int (length h) < 2 ^ 63" and "closeExitConns a (foldr conn_step h newTCPProxy) = (shut, p')"
  shows "set shut = {c. \<exists>i. open_conn h a i = Some c} \<and> length shut = card {i. open_conn h a i \<noteq> None} \<and>
    (\<forall>i. gm_get (conns_of a p') i = None) \<and> (\<forall>b i. b \<noteq> a \<longrightarrow> gm_get (conns_of b p') i = open_conn h b i)"
proof -
  let ?p = "foldr conn_step h newTCPProxy"
  have hist: "registry_ok ?p" "\<And>b i. gm_get (conns_of b ?p) i = open_conn h b i" using registry_history [OF assms(1)] by auto
  have wf: "gm_wf (conns_of a ?p)" using conns_of_wf [OF hist(1)] .
  have shut: "shut = map snd (conns_of a ?p)" and p': "p' = snd (closeExitConns a ?p)" using assms(2) by (simp_all add: closeExitConns_def)
  have mem: "open_conn h a i = Some c \<longleftrightarrow> (i, c) \<in> set (conns_of a ?p)" for i c
    using gm_get_in_set [OF wf] hist(2) by metis
  have "{i. open_conn h a i \<noteq> None} = fst ` set (conns_of a ?p)" using mem by force
  moreover have "card (fst ` set (conns_of a ?p)) = length (conns_of a ?p)"
    using wf distinct_card [of "map fst (conns_of a ?p)"] by (simp add: gm_wf_def)
  ultimately have "length shut = card {i. open_conn h a i \<noteq> None}" by (simp add: shut)
  moreover have "set shut = {c. \<exists>i. open_conn h a i = Some c}" unfolding shut mem by force
  moreover have "gm_get (conns_of b p') i = (if b = a then None else open_conn h b i)" for b i
    by (simp add: p' conns_close hist(2))
  ultimately show ?thesis by simp
qed

theorem dead_exit_connections_witness:
  "set (fst (closeExitConns ''a'' (foldr conn_step [Unreg ''a'' 1, Reg ''b'' 8, Reg ''a'' 7, Reg ''a'' 6] newTCPProxy))) = {7}"
proof -
  let ?h = "[Unreg ''a'' 1, Reg ''b'' 8, Reg ''a'' 7, Reg ''a'' 6]"
  obtain shut p' where run: "closeExitConns ''a'' (foldr conn_step ?h newTCPProxy) = (shut, p')" by fastforce
  have "int (length ?h) < 2 ^ 63" by simp
  from dead_exit_connections [OF this run] show ?thesis using run by (auto split: if_splits)
qed

end
