(* ===== verification/Tunnel_Frames.thy ===== *)
theory Tunnel_Frames
  imports Go_Slice Aead
begin

text \<open>
  The frames between client and exit, on both sides: the client's builders and parsers
  (\<open>src/snc/core/tunnel.go\<close>, \<open>src/snc/core/udp_assoc.go\<close>, \<open>src/snc/core/udp_relay.go\<close>) and those of the exit
  (\<open>src/snc-exit/handler.go\<close>, \<open>src/snc-exit/udp_tunnel.go\<close>). A parser returns \<open>None\<close> for a panic,
  \<open>Some None\<close> for an error. Cipher and hash are parameters; the random bytes of a call are its arguments, \<open>None\<close> when the
  random source fails.
\<close>

type_synonym 'a parsed = "'a option option"

section \<open>Encryption\<close>

definition tunnelNonceSize :: nat where "tunnelNonceSize = 12"

definition sessionKey :: "crypto \<Rightarrow> string \<Rightarrow> bytes" where "sessionKey C token = blake2b_256 C (str_bytes token)"

definition sealFrame :: "crypto \<Rightarrow> bytes option \<Rightarrow> bytes \<Rightarrow> bytes \<Rightarrow> bytes option" where
  "sealFrame C nonce key plain = (if \<not> aead_New_ok key then None
     else case nonce of None \<Rightarrow> None | Some n \<Rightarrow> Some (n @ aead_seal C key n plain))"

definition openFrame :: "crypto \<Rightarrow> bytes \<Rightarrow> bytes \<Rightarrow> bytes option" where
  "openFrame C key data = (if \<not> aead_New_ok key then None
     else if length data < tunnelNonceSize then None
     else aead_open C key (take tunnelNonceSize data) (drop tunnelNonceSize data))"

text \<open>The exit's \<open>sealTunnelData\<close> and \<open>openTunnelFrame\<close> are the same functions.\<close>

definition sealTunnelData :: "crypto \<Rightarrow> bytes option \<Rightarrow> bytes \<Rightarrow> bytes \<Rightarrow> bytes option" where
  "sealTunnelData C nonce key plain = (if \<not> aead_New_ok key then None
     else case nonce of None \<Rightarrow> None | Some n \<Rightarrow> Some (n @ aead_seal C key n plain))"

definition openTunnelFrame :: "crypto \<Rightarrow> bytes \<Rightarrow> bytes \<Rightarrow> bytes option" where
  "openTunnelFrame C key data = (if \<not> aead_New_ok key then None
     else if length data < tunnelNonceSize then None
     else aead_open C key (take tunnelNonceSize data) (drop tunnelNonceSize data))"

section \<open>Upload frames\<close>

definition frameTypeUpload :: byte where "frameTypeUpload = 0"
definition frameTypeStreamOpen :: byte where "frameTypeStreamOpen = 1"

text \<open>The 16 bytes of a connection ID; they stay zero when it is not hexadecimal.\<close>

definition conn_field :: "string \<Rightarrow> bytes" where
  "conn_field connIDHex = (case hex_decode connIDHex of None \<Rightarrow> replicate 16 0 | Some b \<Rightarrow> take 16 (b @ replicate 16 0))"

definition buildUploadPlain :: "string \<Rightarrow> 32 word \<Rightarrow> string \<Rightarrow> bytes \<Rightarrow> bytes" where
  "buildUploadPlain connIDHex sq target payload =
     [frameTypeUpload] @ conn_field connIDHex @ enc_u32 (unat sq) @ enc_u16 (length target) @ str_bytes target @ payload"

definition buildStreamOpenPlain :: "string \<Rightarrow> bytes" where
  "buildStreamOpenPlain connIDHex = [frameTypeStreamOpen] @ conn_field connIDHex"

definition parseUploadFrame :: "bytes \<Rightarrow> (string \<times> 32 word \<times> string \<times> bytes) parsed" where
  "parseUploadFrame plain =
     (if length plain < 1 + 16 + 4 + 2 then Some None else do {
        t \<leftarrow> byte_at plain 0;
        if t \<noteq> frameTypeUpload then Some None else do {
          cid \<leftarrow> slice_at plain 1 17;
          sq \<leftarrow> u32_at plain 17;
          tgtLen \<leftarrow> u16_at plain 21;
          if int tgtLen > int (length plain) - 23 then Some None else do {
            target \<leftarrow> slice_at plain 23 (23 + tgtLen);
            payload \<leftarrow> slice_at plain (23 + tgtLen) (length plain);
            Some (Some (hex_encode cid, word_of_nat sq, bytes_str target, payload)) }}})"

section \<open>Responses\<close>

definition minPadding :: nat where "minPadding = 512"

definition buildUploadResponse :: "crypto \<Rightarrow> bytes option \<Rightarrow> (nat \<Rightarrow> bytes) \<Rightarrow> bytes \<Rightarrow> bytes \<Rightarrow> bytes option" where
  "buildUploadResponse C nonce pad key data =
     sealTunnelData C nonce key (enc_u32 (length data) @ data @ (if length data < minPadding then pad (minPadding - length data) else []))"

definition parseResponse :: "crypto \<Rightarrow> bytes \<Rightarrow> bytes \<Rightarrow> bytes parsed" where
  "parseResponse C key body =
     (if length body = 0 then Some (Some [])
      else case openFrame C key body of None \<Rightarrow> Some None
      | Some plain \<Rightarrow>
        if length plain < 4 then Some None else do {
          dlen \<leftarrow> u32_at plain 0;
          if dlen = 0 then Some (Some [])
          else if int dlen > int (length plain) - 4 then Some None else do {
            data \<leftarrow> slice_at plain 4 ((4 + dlen) mod 2 ^ 32);
            Some (Some data) }})"

section \<open>Datagrams\<close>

definition encodeDatagramBatch :: "bytes list \<Rightarrow> bytes" where
  "encodeDatagramBatch frames = enc_u32 (length frames) @ concat (map (\<lambda>f. enc_u32 (length f) @ f) frames)"

fun decode_frames :: "bytes \<Rightarrow> nat \<Rightarrow> nat \<Rightarrow> bytes list parsed" where
  "decode_frames data 0 pos = Some (Some [])"
| "decode_frames data (Suc n) pos =
     (if pos + 4 > length data then Some None else do {
        flen \<leftarrow> u32_at data pos;
        if pos + 4 + flen > length data then Some None else do {
          f \<leftarrow> slice_at data (pos + 4) (pos + 4 + flen);
          r \<leftarrow> decode_frames data n (pos + 4 + flen);
          Some (map_option ((#) f) r) }})"

definition decodeDatagramBatch :: "bytes \<Rightarrow> bytes list parsed" where
  "decodeDatagramBatch data =
     (if length data = 0 then Some (Some [])
      else if length data < 4 then Some None else do {
        n \<leftarrow> u32_at data 0;
        decode_frames data n 4 })"

text \<open>A destination is an IP address and a port.\<close>

definition To16 :: "bytes \<Rightarrow> bytes" where
  "To16 ip = (if length ip = 4 then replicate 10 0 @ [255, 255] @ ip else if length ip = 16 then ip else [])"

definition buildUDPRelayPlain :: "string \<Rightarrow> bytes \<Rightarrow> nat \<Rightarrow> bytes \<Rightarrow> bytes option" where
  "buildUDPRelayPlain connIDHex ip port body =
     (case hex_decode connIDHex of None \<Rightarrow> None
      | Some raw \<Rightarrow> if length raw \<noteq> 16 then None
        else let (family, ipBytes) = (case To4 ip of Some ip4 \<Rightarrow> (4, ip4) | None \<Rightarrow> (6, To16 ip)) in
          Some (raw @ [family] @ ipBytes @ enc_u16 port @ enc_u32 (length body) @ body))"

definition udp_tail :: "bytes \<Rightarrow> string \<Rightarrow> bytes \<Rightarrow> nat \<Rightarrow> (string \<times> bytes \<times> nat \<times> bytes) parsed" where
  "udp_tail plain connID ip pos =
     (if pos + 2 + 4 > length plain then Some None else do {
        port \<leftarrow> u16_at plain pos;
        bLen \<leftarrow> u32_at plain (pos + 2);
        if pos + 6 + bLen > length plain then Some None else do {
          body \<leftarrow> slice_at plain (pos + 6) (pos + 6 + bLen);
          Some (Some (connID, ip, port, body)) }})"

definition parseUDPRelayFrame :: "bytes \<Rightarrow> (string \<times> bytes \<times> nat \<times> bytes) parsed" where
  "parseUDPRelayFrame plain =
     (if length plain < 16 + 1 + 4 + 2 + 4 then Some None else do {
        cid \<leftarrow> slice_at plain 0 16;
        family \<leftarrow> byte_at plain 16;
        if family = 4 then
          (if 17 + 4 > length plain then Some None else do {
             ip \<leftarrow> slice_at plain 17 21;
             udp_tail plain (hex_encode cid) ip 21 })
        else if family = 6 then
          (if 17 + 16 > length plain then Some None else do {
             ip \<leftarrow> slice_at plain 17 33;
             udp_tail plain (hex_encode cid) ip 33 })
        else Some None })"

section \<open>From the client to the exit\<close>

lemma session_key_ok: "crypto_ok C \<Longrightarrow> aead_New_ok (sessionKey C token)"
  by (simp add: crypto_ok_def sessionKey_def aead_New_ok_def)

lemma open_sealed:
  assumes "crypto_ok C" and "aead_New_ok key" and "length nonce = 12"
  shows "openTunnelFrame C key (nonce @ aead_seal C key nonce plain) = Some plain" "openFrame C key (nonce @ aead_seal C key nonce plain) = Some plain"
  using assms by (simp_all add: openTunnelFrame_def openFrame_def tunnelNonceSize_def crypto_ok_def)

lemma conn_field_hex [simp]: "length raw = 16 \<Longrightarrow> conn_field (hex_encode raw) = raw"
  by (simp add: conn_field_def)

lemma word32_unat_lt: "unat (w :: 32 word) < 2 ^ 32"
  using unsigned_less [of w] by simp

lemma parse_upload:
  assumes "length raw = 16" and "length target < 65536"
  shows "parseUploadFrame (buildUploadPlain (hex_encode raw) sq target payload) = Some (Some (hex_encode raw, sq, target, payload))"
proof -
  define P where "P = buildUploadPlain (hex_encode raw) sq target payload"
  have P: "P = [frameTypeUpload] @ raw @ enc_u32 (unat sq) @ enc_u16 (length target) @ str_bytes target @ payload"
    using assms(1) by (simp add: P_def buildUploadPlain_def)
  have b: "byte_at P 0 = Some frameTypeUpload" by (simp add: P byte_at_def)
  have cid: "slice_at P 1 17 = Some raw"
    using slice_at_append [of "[frameTypeUpload]" raw] assms(1) by (simp add: P)
  have sq: "u32_at P 17 = Some (unat sq)"
    using u32_at_append [of "unat sq" "[frameTypeUpload] @ raw"] assms(1) word32_unat_lt [of sq] by (simp add: P)
  have tl: "u16_at P 21 = Some (length target)"
    using u16_at_append [OF assms(2), of "[frameTypeUpload] @ raw @ enc_u32 (unat sq)"] assms(1) by (simp add: P)
  have tg: "slice_at P 23 (23 + length target) = Some (str_bytes target)"
    using slice_at_append [of "[frameTypeUpload] @ raw @ enc_u32 (unat sq) @ enc_u16 (length target)" "str_bytes target"] assms(1) by (simp add: P)
  have pl: "slice_at P (23 + length target) (length P) = Some payload"
    using slice_at_end [of "[frameTypeUpload] @ raw @ enc_u32 (unat sq) @ enc_u16 (length target) @ str_bytes target" payload] assms(1) by (simp add: P)
  have len: "length P = 23 + length target + length payload" using assms(1) by (simp add: P)
  show ?thesis unfolding P_def [symmetric] parseUploadFrame_def b cid sq tl bind.simps tg pl using len by simp
qed

lemma parse_udp:
  assumes "length raw = 16" and "length ip = 4 \<or> length ip = 16" and "port < 65536" and "length body < 2 ^ 32"
  shows "\<exists>plain. buildUDPRelayPlain (hex_encode raw) ip port body = Some plain \<and>
    parseUDPRelayFrame plain = Some (Some (hex_encode raw, case To4 ip of None \<Rightarrow> ip | Some ip4 \<Rightarrow> ip4, port, body))"
proof -
  obtain fam ipb where fam: "(case To4 ip of Some ip4 \<Rightarrow> (4, ip4) | None \<Rightarrow> (6, To16 ip)) = (fam :: byte, ipb)" by fastforce
  have ipb: "ipb = (case To4 ip of None \<Rightarrow> ip | Some ip4 \<Rightarrow> ip4)" and
    lens: "fam = 4 \<and> length ipb = 4 \<or> fam = 6 \<and> length ipb = 16"
    using fam assms(2) by (auto simp: To4_def To16_def split: option.splits if_splits)
  define P where "P = raw @ [fam] @ ipb @ enc_u16 port @ enc_u32 (length body) @ body"
  define k where "k = 17 + length ipb"
  have build: "buildUDPRelayPlain (hex_encode raw) ip port body = Some P"
    using assms(1) fam by (simp add: buildUDPRelayPlain_def P_def)
  have cid: "slice_at P 0 16 = Some raw" and f: "byte_at P 16 = Some fam"
    using slice_at_append [of "[]" raw] byte_at_append [of raw fam] assms(1) by (simp_all add: P_def)
  have ip: "slice_at P 17 k = Some ipb"
    using slice_at_append [of "raw @ [fam]" ipb] assms(1) by (simp add: P_def k_def)
  have pt: "u16_at P k = Some port"
    using u16_at_append [OF assms(3), of "raw @ [fam] @ ipb"] assms(1) by (simp add: P_def k_def)
  have bl: "u32_at P (k + 2) = Some (length body)"
    using u32_at_append [OF assms(4), of "raw @ [fam] @ ipb @ enc_u16 port" body] assms(1) by (simp add: P_def k_def)
  have bd: "slice_at P (k + 6) (k + 6 + length body) = Some body"
    using slice_at_append [of "raw @ [fam] @ ipb @ enc_u16 port @ enc_u32 (length body)" body "[]"] assms(1) by (simp add: P_def k_def add.assoc)
  have len: "length P = k + 6 + length body" using assms(1) by (simp add: P_def k_def)
  have tail: "udp_tail P cid' ipb k = Some (Some (cid', ipb, port, body))" for cid'
    unfolding udp_tail_def pt bl bind.simps bd using len by simp
  have "parseUDPRelayFrame P = Some (Some (hex_encode raw, ipb, port, body))"
    using lens
  proof
    assume "fam = 4 \<and> length ipb = 4"
    then have k: "k = 21" "fam = 4" by (simp_all add: k_def)
    show ?thesis unfolding parseUDPRelayFrame_def cid f bind.simps using ip tail len k by simp
  next
    assume "fam = 6 \<and> length ipb = 16"
    then have k: "k = 33" "fam = 6" by (simp_all add: k_def)
    show ?thesis unfolding parseUDPRelayFrame_def cid f bind.simps using ip tail len k by simp
  qed
  then show ?thesis using build by (simp add: ipb)
qed

text \<open>Property C30: (frames to the exit) what a client seals with its session key the exit opens and parses to the
  same: an upload's connection, sequence number, target and payload; a stream request's
  connection; a datagram's connection, destination and body.\<close>

theorem frames_reach_exit:
  assumes "crypto_ok C" and "length nonce = 12" and "length raw = 16" and "key = sessionKey C token"
    and "length target < 65536" and "length ip = 4 \<or> length ip = 16" and "port < 65536" and "length body < 2 ^ 32"
  shows "(\<exists>ct. sealFrame C (Some nonce) key (buildUploadPlain (hex_encode raw) sq target payload) = Some ct \<and>
      map_option parseUploadFrame (openTunnelFrame C key ct) = Some (Some (Some (hex_encode raw, sq, target, payload)))) \<and>
    (\<exists>ct. sealFrame C (Some nonce) key (buildStreamOpenPlain (hex_encode raw)) = Some ct \<and>
      openTunnelFrame C key ct = Some (frameTypeStreamOpen # raw)) \<and>
    (\<exists>plain ct. buildUDPRelayPlain (hex_encode raw) ip port body = Some plain \<and> sealFrame C (Some nonce) key plain = Some ct \<and>
      map_option parseUDPRelayFrame (openTunnelFrame C key ct) =
        Some (Some (Some (hex_encode raw, case To4 ip of None \<Rightarrow> ip | Some ip4 \<Rightarrow> ip4, port, body))))"
proof -
  have key: "aead_New_ok key" using session_key_ok [OF assms(1)] assms(4) by simp
  have seal: "sealFrame C (Some nonce) key plain = Some (nonce @ aead_seal C key nonce plain)" for plain
    using key by (simp add: sealFrame_def)
  obtain plain where "buildUDPRelayPlain (hex_encode raw) ip port body = Some plain"
    "parseUDPRelayFrame plain = Some (Some (hex_encode raw, case To4 ip of None \<Rightarrow> ip | Some ip4 \<Rightarrow> ip4, port, body))"
    using parse_udp [OF assms(3,6,7,8)] by blast
  then show ?thesis
    using open_sealed(1) [OF assms(1) key assms(2)] parse_upload [OF assms(3,5)] assms(3) by (simp add: seal buildStreamOpenPlain_def)
qed

theorem frames_reach_exit_witness:
  "\<exists>ct. sealFrame plain_crypto (Some (replicate 12 1)) (sessionKey plain_crypto ''t'')
      (buildUploadPlain (hex_encode (replicate 16 2)) 3 ''a:1'' [7]) = Some ct \<and>
    map_option parseUploadFrame (openTunnelFrame plain_crypto (sessionKey plain_crypto ''t'') ct) =
      Some (Some (Some (hex_encode (replicate 16 2), 3, ''a:1'', [7])))"
  using frames_reach_exit [of plain_crypto "replicate 12 1" "replicate 16 2" "sessionKey plain_crypto ''t''" "''t''" "''a:1''" "[1, 2, 3, 4]" 5 "[]" 3 "[7]"]
  by simp

section \<open>From the exit to the client\<close>

lemma decode_batch_frames:
  assumes "\<forall>f \<in> set fs. length f < 2 ^ 32"
  shows "decode_frames (a @ concat (map (\<lambda>f. enc_u32 (length f) @ f) fs)) (length fs) (length a) = Some (Some fs)"
  using assms
proof (induction fs arbitrary: a)
  case (Cons f fs)
  define D where "D = a @ enc_u32 (length f) @ f @ concat (map (\<lambda>f. enc_u32 (length f) @ f) fs)"
  have l: "u32_at D (length a) = Some (length f)"
    using u32_at_append [of "length f" a "f @ concat (map (\<lambda>f. enc_u32 (length f) @ f) fs)"] Cons.prems by (simp add: D_def)
  have s: "slice_at D (length a + 4) (length a + 4 + length f) = Some f"
    using slice_at_append [of "a @ enc_u32 (length f)" f] by (simp add: D_def)
  have "decode_frames ((a @ enc_u32 (length f) @ f) @ concat (map (\<lambda>f. enc_u32 (length f) @ f) fs)) (length fs)
      (length (a @ enc_u32 (length f) @ f)) = Some (Some fs)"
    using Cons.prems by (intro Cons.IH) simp
  then have r: "decode_frames D (length fs) (length a + 4 + length f) = Some (Some fs)" by (simp add: D_def add.assoc)
  have "decode_frames D (Suc (length fs)) (length a) = Some (Some (f # fs))"
    unfolding decode_frames.simps l bind.simps s r by (simp add: D_def)
  then show ?case by (simp add: D_def)
qed simp

lemma decode_batch:
  assumes "length fs < 2 ^ 32" and "\<forall>f \<in> set fs. length f < 2 ^ 32"
  shows "decodeDatagramBatch (encodeDatagramBatch fs) = Some (Some fs)"
  using decode_batch_frames [OF assms(2), of "enc_u32 (length fs)"] u32_at_append [OF assms(1), of "[]"]
  by (simp add: decodeDatagramBatch_def encodeDatagramBatch_def)

lemma parse_response:
  assumes "crypto_ok C" and "aead_New_ok key" and "length nonce = 12" and "\<forall>n. length (pad n) = n" and "length data + 4 < 2 ^ 32"
  shows "\<exists>ct. buildUploadResponse C (Some nonce) pad key data = Some ct \<and> parseResponse C key ct = Some (Some data)"
proof -
  define rest where "rest = (if length data < minPadding then pad (minPadding - length data) else [])"
  define P where "P = enc_u32 (length data) @ data @ rest"
  have build: "buildUploadResponse C (Some nonce) pad key data = Some (nonce @ aead_seal C key nonce P)"
    using assms(2) by (simp add: buildUploadResponse_def sealTunnelData_def P_def rest_def)
  have l: "u32_at P 0 = Some (length data)"
    using u32_at_append [of "length data" "[]" "data @ rest"] assms(5) by (simp add: P_def)
  have m: "(4 + length data) mod 2 ^ 32 = 4 + length data" using assms(5) by (intro mod_less) simp
  have s: "slice_at P 4 ((4 + length data) mod 2 ^ 32) = Some data"
    unfolding m using slice_at_append [of "enc_u32 (length data)" data rest] by (simp add: P_def)
  have "parseResponse C key (nonce @ aead_seal C key nonce P) = Some (Some data)"
    unfolding parseResponse_def open_sealed(2) [OF assms(1-3)] option.case l bind.simps s using assms(3) by (simp add: P_def)
  then show ?thesis using build by blast
qed

text \<open>Property C31: (responses to the client) the client gets back exactly what the exit answered, whatever
  padding is drawn: the bytes of a response, and the batch of datagrams of a relay request, also
  when it is empty.\<close>

theorem responses_reach_client:
  assumes "crypto_ok C" and "length nonce = 12" and "key = sessionKey C token" and "\<forall>n. length (pad n) = n"
    and "length (encodeDatagramBatch frames) + 4 < 2 ^ 32" and "length data + 4 < 2 ^ 32"
  shows "(\<exists>ct. buildUploadResponse C (Some nonce) pad key data = Some ct \<and> parseResponse C key ct = Some (Some data)) \<and>
    (\<exists>ct batch. buildUploadResponse C (Some nonce) pad key (encodeDatagramBatch frames) = Some ct \<and>
      parseResponse C key ct = Some (Some batch) \<and> decodeDatagramBatch batch = Some (Some frames))"
proof -
  have key: "aead_New_ok key" using session_key_ok [OF assms(1)] assms(3) by simp
  have lens: "length frames \<le> length (encodeDatagramBatch frames)"
    by (induction frames) (auto simp: encodeDatagramBatch_def)
  have "length f \<le> length (encodeDatagramBatch frames)" if "f \<in> set frames" for f
    using that by (induction frames) (auto simp: encodeDatagramBatch_def)
  then have "decodeDatagramBatch (encodeDatagramBatch frames) = Some (Some frames)"
    using lens assms(5) by (intro decode_batch) (simp, fastforce)
  then show ?thesis
    using parse_response [OF assms(1) key assms(2,4,6)] parse_response [OF assms(1) key assms(2,4,5)] by blast
qed

theorem responses_reach_client_witness:
  "\<exists>ct batch. buildUploadResponse plain_crypto (Some (replicate 12 1)) (\<lambda>n. replicate n 0) (sessionKey plain_crypto ''t'') (encodeDatagramBatch [[1, 2], []]) = Some ct \<and>
     parseResponse plain_crypto (sessionKey plain_crypto ''t'') ct = Some (Some batch) \<and> decodeDatagramBatch batch = Some (Some [[1, 2], []])"
  using responses_reach_client [of plain_crypto "replicate 12 1" "sessionKey plain_crypto ''t''" "''t''" "\<lambda>n. replicate n 0" "[[1, 2], []]" "[]"]
  by (simp add: encodeDatagramBatch_def)

section \<open>Hostile bytes\<close>

lemma decode_frames_total: "decode_frames data n pos \<noteq> None"
proof (induction n arbitrary: pos)
  case (Suc n)
  show ?case
  proof (cases "pos + 4 > length data")
    case False
    then obtain l where l: "u32_at data pos = Some l" using u32_at_Some [of pos data] by auto
    obtain r where "decode_frames data n (pos + 4 + l) = Some r" using Suc.IH by fastforce
    then show ?thesis using False l slice_at_Some [of "pos + 4" "pos + 4 + l" data] by (simp add: not_less)
  qed simp
qed simp

lemma udp_tail_total: "udp_tail plain cid ip pos \<noteq> None"
proof (cases "pos + 2 + 4 > length plain")
  case False
  then obtain p l where pl: "u16_at plain pos = Some p" "u32_at plain (pos + 2) = Some l"
    using u16_at_Some [of pos plain] u32_at_Some [of "pos + 2" plain] by auto
  show ?thesis
  proof (cases "pos + 6 + l > length plain")
    case True
    then show ?thesis unfolding udp_tail_def pl bind.simps by simp
  next
    case False
    then have "slice_at plain (pos + 6) (pos + 6 + l) = Some (take l (drop (pos + 6) plain))"
      using slice_at_Some [of "pos + 6" "pos + 6 + l" plain] by simp
    then show ?thesis unfolding udp_tail_def pl bind.simps by simp
  qed
qed (simp add: udp_tail_def)

lemma parseUDPRelayFrame_total: "parseUDPRelayFrame plain \<noteq> None"
  using udp_tail_total by (simp add: parseUDPRelayFrame_def)

lemma parseUploadFrame_total: "parseUploadFrame plain \<noteq> None"
proof (cases "length plain < 23")
  case False
  then obtain s t where st: "u32_at plain 17 = Some s" "u16_at plain 21 = Some t"
    using u32_at_Some [of 17 plain] u16_at_Some [of 21 plain] by auto
  have b: "byte_at plain 0 = Some (plain ! 0)" "slice_at plain 1 17 = Some (take 16 (drop 1 plain))"
    using False by (auto simp: byte_at_def)
  show ?thesis
  proof (cases "int t > int (length plain) - 23")
    case True
    then show ?thesis unfolding parseUploadFrame_def st b bind.simps by simp
  next
    case le: False
    then have "slice_at plain 23 (23 + t) = Some (take t (drop 23 plain))" "slice_at plain (23 + t) (length plain) = Some (drop (23 + t) plain)"
      using False by simp_all
    then show ?thesis unfolding parseUploadFrame_def st b bind.simps by simp
  qed
qed (simp add: parseUploadFrame_def)

text \<open>Hostile frames: on any bytes the frame parsers of exit and client return a result or an
  error; none reads out of range. A response may only be shorter than 4 GiB.\<close>

theorem frame_parsers_total:
  "parseUploadFrame plain \<noteq> None \<and> parseUDPRelayFrame plain \<noteq> None \<and> decodeDatagramBatch plain \<noteq> None \<and>
   (length body < 2 ^ 32 \<longrightarrow> crypto_ok C \<longrightarrow> parseResponse C key body \<noteq> None)"
proof -
  have "decodeDatagramBatch plain \<noteq> None"
    using decode_frames_total u32_at_Some [of 0 plain] by (auto simp: decodeDatagramBatch_def)
  moreover have "parseResponse C key body \<noteq> None" if len: "length body < 2 ^ 32" and C: "crypto_ok C"
  proof (cases "openFrame C key body")
    case (Some plain)
    then have "aead_open C key (take tunnelNonceSize body) (drop tunnelNonceSize body) = Some plain"
      by (simp add: openFrame_def split: if_splits)
    then have "length (drop tunnelNonceSize body) = length plain + aead_overhead" using C unfolding crypto_ok_def by blast
    then have "length plain \<le> length body" by simp
    moreover from this have "(4 + d) mod 2 ^ 32 = 4 + d" if "int d \<le> int (length plain) - 4" for d
      using that len by (intro mod_less) linarith
    moreover obtain d where "4 \<le> length plain \<longrightarrow> u32_at plain 0 = Some d" using u32_at_Some [of 0 plain] by auto
    ultimately show ?thesis using Some by (auto simp: parseResponse_def not_less)
  qed (simp add: parseResponse_def)
  ultimately show ?thesis using parseUploadFrame_total parseUDPRelayFrame_total by blast
qed

theorem frame_parsers_total_witness: "parseResponse plain_crypto [] [1, 2] \<noteq> None"
  using frame_parsers_total [of "[]" "[1, 2]" plain_crypto "[]"] by simp

end
