(* ===== verification/Tunnel_Stream.thy ===== *)
theory Tunnel_Stream
  imports Tunnel_Frames Exit_Sessions Tunnel_Watchdog "HOL-Library.Sublist"
begin

text \<open>
  The downstream of a connection: the exit's loop that sends what it reads from the target as
  encrypted frames (\<open>streamToClient\<close> of \<open>src/snc-exit/handler.go\<close>), and the client's reader that takes them apart
  (\<open>framedDecryptReader\<close> of \<open>src/snc/core/tunnel.go\<close>). An event is one turn of the loop: the clock at its
  start, when the activity is recorded and after the read, what was read, and the nonce drawn.
\<close>

section \<open>The exit\<close>

datatype sock_err = NoError | TimedOut | SocketError

record stream_event =
  ev_start :: gotime
  ev_active :: gotime
  ev_data :: bytes
  ev_err :: sock_err
  ev_after :: gotime
  ev_nonce :: "bytes option"

datatype stream_end = StillOpen | IdleEnd | TargetClosed

definition streamMaxSecs :: duration where "streamMaxSecs = 30 * second"

fun stream_loop :: "crypto \<Rightarrow> bytes \<Rightarrow> string \<Rightarrow> stream_event list \<Rightarrow> gotime \<Rightarrow> int \<Rightarrow> sessionPool \<Rightarrow>
    stream_end \<times> bytes \<times> int \<times> sessionPool" where
  "stream_loop C key connID [] idleDeadline sent p = (StillOpen, [], sent, p)"
| "stream_loop C key connID (e # es) idleDeadline sent p =
     (if \<not> ev_start e < idleDeadline then (IdleEnd, [], sent, p)
      else let p1 = recordActivity (ev_active e) connID p in
        if ev_data e \<noteq> [] then
          (let sent1 = wrap64 (sent + int (length (ev_data e))) in
           case sealTunnelData C (ev_nonce e) key (ev_data e) of
             None \<Rightarrow> (TargetClosed, [], sent1, p1)
           | Some ct \<Rightarrow> (let frame = enc_u32 (length ct) @ ct in
               if ev_err e = SocketError then (TargetClosed, frame, sent1, p1)
               else case stream_loop C key connID es (ev_after e + streamMaxSecs) sent1 p1 of
                 (r, out, n, p2) \<Rightarrow> (r, frame @ out, n, p2)))
        else if ev_err e = SocketError then (TargetClosed, [], sent, p1)
        else stream_loop C key connID es idleDeadline sent p1)"

definition streamToClient :: "crypto \<Rightarrow> bytes \<Rightarrow> string \<Rightarrow> gotime \<Rightarrow> stream_event list \<Rightarrow> sessionPool \<Rightarrow> stream_end \<times> bytes \<times> int \<times> sessionPool" where
  "streamToClient C key connID now es p = stream_loop C key connID es (now + streamMaxSecs) 0 p"

section \<open>The client\<close>

text \<open>The body of the response as the bytes that are still to come, and the reader's buffer.\<close>

record framedDecryptReader =
  fr_src :: bytes
  fr_buf :: bytes

datatype read_error = ReadEOF | FrameTooLarge | StreamDecrypt

definition framed_Read :: "crypto \<Rightarrow> bytes \<Rightarrow> string \<Rightarrow> gotime \<Rightarrow> nat \<Rightarrow> framedDecryptReader \<Rightarrow> TunnelTrafficMonitor \<Rightarrow>
    (read_error + bytes) \<times> framedDecryptReader \<times> TunnelTrafficMonitor" where
  "framed_Read C key connID now n r m =
     (if length (fr_buf r) > 0 then (Inr (take n (fr_buf r)), r\<lparr>fr_buf := drop n (fr_buf r)\<rparr>, m)
      else if length (fr_src r) < 4 then (Inl ReadEOF, r\<lparr>fr_src := []\<rparr>, m)
      else let frameLen = be_nat (take 4 (fr_src r)); rest = drop 4 (fr_src r) in
        if frameLen > 2 ^ 20 then (Inl FrameTooLarge, r\<lparr>fr_src := rest\<rparr>, m)
        else if length rest < frameLen then (Inl ReadEOF, r\<lparr>fr_src := []\<rparr>, m)
        else case openFrame C key (take frameLen rest) of
          None \<Rightarrow> (Inl StreamDecrypt, r\<lparr>fr_src := drop frameLen rest\<rparr>, m)
        | Some plain \<Rightarrow>
            (Inr (take n plain), \<lparr>fr_src = drop frameLen rest, fr_buf = drop n plain\<rparr>,
             if take n plain \<noteq> [] then RecordTunnelRecv now connID (int (length (take n plain))) m else m))"

text \<open>A sequence of reads, each with its size, up to the first error.\<close>

fun client_reads :: "crypto \<Rightarrow> bytes \<Rightarrow> string \<Rightarrow> (gotime \<times> nat) list \<Rightarrow> framedDecryptReader \<Rightarrow> TunnelTrafficMonitor \<Rightarrow> bytes \<times> framedDecryptReader" where
  "client_reads C key connID [] r m = ([], r)"
| "client_reads C key connID ((now, n) # ns) r m = (case framed_Read C key connID now n r m of
     (Inl e, r1, m1) \<Rightarrow> ([], r1)
   | (Inr d, r1, m1) \<Rightarrow> (let (ds, r2) = client_reads C key connID ns r1 m1 in (d @ ds, r2)))"

section \<open>What is sent arrives\<close>

text \<open>The chunks the loop has sent.\<close>

fun sent_chunks :: "crypto \<Rightarrow> bytes \<Rightarrow> stream_event list \<Rightarrow> gotime \<Rightarrow> bytes list" where
  "sent_chunks C key [] idleDeadline = []"
| "sent_chunks C key (e # es) idleDeadline =
     (if \<not> ev_start e < idleDeadline then []
      else if ev_data e \<noteq> [] then
        (if sealTunnelData C (ev_nonce e) key (ev_data e) = None then []
         else ev_data e # (if ev_err e = SocketError then [] else sent_chunks C key es (ev_after e + streamMaxSecs)))
      else if ev_err e = SocketError then [] else sent_chunks C key es idleDeadline)"

text \<open>A byte string that is a sequence of frames for given chunks.\<close>

inductive framed :: "crypto \<Rightarrow> bytes \<Rightarrow> bytes list \<Rightarrow> bytes \<Rightarrow> bool" for C key where
  empty: "framed C key [] []"
| frame: "framed C key ds bs \<Longrightarrow> d \<noteq> [] \<Longrightarrow> openFrame C key ct = Some d \<Longrightarrow> length ct \<le> 2 ^ 20 \<Longrightarrow>
    framed C key (d # ds) (enc_u32 (length ct) @ ct @ bs)"

inductive_cases framed_Nil: "framed C key [] bs"
inductive_cases framed_Cons: "framed C key (d # ds) bs"

lemma sealed_frame:
  assumes "crypto_ok C" and "aead_New_ok key" and "length nonce = 12" and "sealTunnelData C (Some nonce) key d = Some ct"
  shows "openFrame C key ct = Some d \<and> length ct = length d + 28"
proof -
  have ct: "ct = nonce @ aead_seal C key nonce d" using assms by (simp add: sealTunnelData_def)
  have "length (aead_seal C key nonce d) = length d + 16" using assms(1) by (simp add: crypto_ok_def aead_overhead_def)
  then show ?thesis using open_sealed(2) [OF assms(1-3)] assms(3) by (simp add: ct)
qed

lemma stream_loop_framed:
  assumes "crypto_ok C" and "aead_New_ok key"
    and "\<forall>e \<in> set es. length (ev_data e) \<le> 65536 \<and> (\<forall>n. ev_nonce e = Some n \<longrightarrow> length n = 12)"
  shows "framed C key (sent_chunks C key es dl) (fst (snd (stream_loop C key connID es dl sent p)))"
  using assms(3)
proof (induction es arbitrary: dl sent p)
  case (Cons e es)
  have ih: "framed C key (sent_chunks C key es dl') (fst (snd (stream_loop C key connID es dl' sent' p')))" for dl' sent' p'
    using Cons by simp
  show ?case
  proof (cases "ev_start e < dl \<and> ev_data e \<noteq> [] \<and> sealTunnelData C (ev_nonce e) key (ev_data e) \<noteq> None")
    case True
    then obtain ct n where ct: "sealTunnelData C (ev_nonce e) key (ev_data e) = Some ct" "ev_nonce e = Some n"
      by (auto simp: sealTunnelData_def split: if_splits option.splits)
    have fr: "openFrame C key ct = Some (ev_data e)" "length ct \<le> 2 ^ 20"
      using sealed_frame [OF assms(1,2), of n "ev_data e" ct] ct Cons.prems by auto
    show ?thesis
    proof (cases "ev_err e = SocketError")
      case err: True
      show ?thesis using True ct err framed.frame [OF framed.empty _ fr] by (simp add: Let_def)
    next
      case err: False
      show ?thesis using True ct err framed.frame [OF ih _ fr] by (simp add: Let_def case_prod_unfold)
    qed
  next
    case False
    then show ?thesis using ih framed.empty by (auto simp: Let_def split: option.splits)
  qed
qed (simp add: framed.empty)

lemma framed_Read_step:
  assumes "framed C key ds (fr_src r)" and "n > 0" and "fr_buf r \<noteq> [] \<or> ds \<noteq> []"
  shows "\<exists>d r' m' ds'. framed_Read C key connID now n r m = (Inr d, r', m') \<and> d \<noteq> [] \<and> framed C key ds' (fr_src r') \<and>
    d @ fr_buf r' @ concat ds' = fr_buf r @ concat ds"
proof (cases "fr_buf r = []")
  case False
  have "take n (fr_buf r) @ drop n (fr_buf r) @ concat ds = fr_buf r @ concat ds" by (simp flip: append_assoc)
  then show ?thesis using False assms(1,2) by (fastforce simp: framed_Read_def)
next
  case True
  then obtain x xs where ds: "ds = x # xs" using assms(3) by (cases ds) auto
  from assms(1) [unfolded ds] obtain ct bs where src: "fr_src r = enc_u32 (length ct) @ ct @ bs" and
    x: "x \<noteq> []" "openFrame C key ct = Some x" "length ct \<le> 2 ^ 20" and bs: "framed C key xs bs"
    by (auto elim: framed_Cons)
  have len: "be_nat (take 4 (fr_src r)) = length ct" using x(3) by (simp add: src enc_u32_read)
  have run: "\<exists>m'. framed_Read C key connID now n r m = (Inr (take n x), \<lparr>fr_src = bs, fr_buf = drop n x\<rparr>, m')"
    unfolding framed_Read_def len Let_def using True x by (simp add: src)
  then show ?thesis using x(1) bs assms(2) True by (fastforce simp: ds)
qed

lemma client_reads_all:
  assumes "framed C key ds (fr_src r)" and "\<forall>(now, n) \<in> set ns. n > 0"
  shows "prefix (fst (client_reads C key connID ns r m)) (fr_buf r @ concat ds) \<and>
    (length (fr_buf r @ concat ds) \<le> length ns \<longrightarrow> fst (client_reads C key connID ns r m) = fr_buf r @ concat ds)"
  using assms
proof (induction ns arbitrary: r ds m)
  case (Cons x ns)
  obtain now n where x: "x = (now, n)" by fastforce
  show ?case
  proof (cases "fr_buf r = [] \<and> ds = []")
    case True
    then have "fr_src r = []" using Cons.prems(1) by (auto elim: framed_Nil)
    then show ?thesis using True by (simp add: x framed_Read_def)
  next
    case False
    then obtain d r' m' ds' where step: "framed_Read C key connID now n r m = (Inr d, r', m')" "d \<noteq> []" "framed C key ds' (fr_src r')"
      "d @ fr_buf r' @ concat ds' = fr_buf r @ concat ds"
      using framed_Read_step [OF Cons.prems(1), of n connID now m] Cons.prems(2) by (auto simp: x)
    have ih: "prefix (fst (client_reads C key connID ns r' m')) (fr_buf r' @ concat ds')"
      "length (fr_buf r' @ concat ds') \<le> length ns \<Longrightarrow> fst (client_reads C key connID ns r' m') = fr_buf r' @ concat ds'"
      using Cons.IH [OF step(3), of m'] Cons.prems(2) by auto
    have run: "fst (client_reads C key connID (x # ns) r m) = d @ fst (client_reads C key connID ns r' m')"
      by (simp add: x step(1) case_prod_unfold Let_def)
    have "length (fr_buf r' @ concat ds') \<le> length ns" if "length (d @ fr_buf r' @ concat ds') \<le> length (x # ns)"
      using that step(2) by (cases d) simp_all
    then show ?thesis unfolding run step(4) [symmetric] using ih by simp
  qed
qed simp

text \<open>Property C32: (downstream) whatever the target sends and however the loop ends, the client reads,
  in reads of any sizes, the bytes the exit has read from the target and could seal, in order and
  unchanged, and with enough reads all of them.\<close>

theorem stream_arrives:
  assumes "crypto_ok C" and "key = sessionKey C token"
    and "\<forall>e \<in> set es. length (ev_data e) \<le> 65536 \<and> (\<forall>n. ev_nonce e = Some n \<longrightarrow> length n = 12)"
    and "streamToClient C key connID now es p = (res, out, sent, p')" and "\<forall>(t, n) \<in> set ns. n > 0"
    and "got = fst (client_reads C key connID ns \<lparr>fr_src = out, fr_buf = []\<rparr> m)"
  shows "prefix got (concat (sent_chunks C key es (now + 30 * second))) \<and>
    (length (concat (sent_chunks C key es (now + 30 * second))) \<le> length ns \<longrightarrow> got = concat (sent_chunks C key es (now + 30 * second)))"
proof -
  have key: "aead_New_ok key" using session_key_ok [OF assms(1)] assms(2) by simp
  have "framed C key (sent_chunks C key es (now + 30 * second)) out"
    using stream_loop_framed [OF assms(1) key assms(3), of "now + 30 * second" connID 0 p] assms(4)
    by (simp add: streamToClient_def streamMaxSecs_def)
  then show ?thesis using client_reads_all [OF _ assms(5), of C key _ "\<lparr>fr_src = out, fr_buf = []\<rparr>" connID m] assms(6) by simp
qed

definition sample_event :: "bytes \<Rightarrow> sock_err \<Rightarrow> stream_event" where
  "sample_event d err = \<lparr>ev_start = 0, ev_active = 0, ev_data = d, ev_err = err, ev_after = 0, ev_nonce = Some (replicate 12 0)\<rparr>"

theorem stream_arrives_witness:
  "fst (client_reads plain_crypto (sessionKey plain_crypto ''t'') ''c'' (replicate 3 (0, 2))
     \<lparr>fr_src = fst (snd (streamToClient plain_crypto (sessionKey plain_crypto ''t'') ''c'' 0 [sample_event [1, 2] NoError, sample_event [3] SocketError] [])),
      fr_buf = []\<rparr> TunnelMonitor) = [1, 2, 3]"
proof -
  let ?C = plain_crypto and ?es = "[sample_event [1, 2] NoError, sample_event [3] SocketError]"
  let ?key = "sessionKey ?C ''t''"
  obtain res out sent p' where run: "streamToClient ?C ?key ''c'' 0 ?es [] = (res, out, sent, p')" by (metis prod.exhaust)
  have key: "aead_New_ok ?key" by (rule session_key_ok) simp
  have chunks: "sent_chunks ?C ?key ?es (0 + 30 * second) = [[1, 2], [3]]"
    using key by (simp add: sample_event_def sealTunnelData_def streamMaxSecs_def duration_defs)
  have ok: "\<forall>e \<in> set ?es. length (ev_data e) \<le> 65536 \<and> (\<forall>n. ev_nonce e = Some n \<longrightarrow> length n = 12)"
    by (simp add: sample_event_def)
  have ns: "\<forall>(t, n) \<in> set (replicate 3 (0 :: gotime, 2 :: nat)). n > 0" by auto
  show ?thesis
    using stream_arrives [OF plain_crypto_ok refl ok run ns refl, of TunnelMonitor] unfolding chunks run by simp
qed

end
