(* ===== verification/Sql.thy ===== *)
theory Sql
  imports Go_Lib
begin

text \<open>
  The database as the arbiter uses it (\<open>src/snc-arbiter/db.go\<close>): a table is the list of its rows, in
  the order the engine visits them; a statement is atomic. \<open>faults n\<close> tells whether the engine fails at
  statement \<open>n\<close> of an operation, which leaves the tables as they are. The identifier of an inserted row
  is chosen by the engine and an argument; \<open>fresh_id\<close> is what \<open>AUTOINCREMENT\<close> promises. NULL is
  \<open>None\<close>.
\<close>

type_synonym faults = "nat \<Rightarrow> bool"

definition sql_update :: "('r \<Rightarrow> bool) \<Rightarrow> ('r \<Rightarrow> 'r) \<Rightarrow> 'r list \<Rightarrow> 'r list" where
  "sql_update P f t = map (\<lambda>r. if P r then f r else r) t"

definition sql_delete :: "('r \<Rightarrow> bool) \<Rightarrow> 'r list \<Rightarrow> 'r list" where
  "sql_delete P t = filter (\<lambda>r. \<not> P r) t"

text \<open>\<open>INSERT ... ON CONFLICT(key) DO NOTHING\<close> and \<open>ON CONFLICT(key) DO UPDATE\<close>.\<close>

definition insert_ignore :: "('r \<Rightarrow> 'k) \<Rightarrow> 'r \<Rightarrow> 'r list \<Rightarrow> 'r list" where
  "insert_ignore key r t = (if key r \<in> key ` set t then t else t @ [r])"

definition upsert :: "('r \<Rightarrow> 'k) \<Rightarrow> ('r \<Rightarrow> 'r \<Rightarrow> 'r) \<Rightarrow> 'r \<Rightarrow> 'r list \<Rightarrow> 'r list" where
  "upsert key merge r t = (if key r \<in> key ` set t then sql_update (\<lambda>x. key x = key r) (merge r) t else t @ [r])"

definition rows_affected :: "('r \<Rightarrow> bool) \<Rightarrow> 'r list \<Rightarrow> nat" where
  "rows_affected P t = length (filter P t)"

definition coalesce :: "string option \<Rightarrow> string" where
  "coalesce s = (case s of None \<Rightarrow> [] | Some x \<Rightarrow> x)"

definition nullIfEmpty :: "string \<Rightarrow> string option" where
  "nullIfEmpty s = (if s = [] then None else Some s)"

definition fresh_id :: "('r \<Rightarrow> int) \<Rightarrow> int \<Rightarrow> 'r list \<Rightarrow> bool" where
  "fresh_id key i t \<longleftrightarrow> (\<forall>r \<in> set t. key r < i)"

lemma sql_update_keys:
  "(\<And>r. r \<in> set t \<Longrightarrow> P r \<Longrightarrow> key (f r) = key r) \<Longrightarrow> map key (sql_update P f t) = map key t"
  by (induction t) (auto simp: sql_update_def)

lemma sql_update_set: "set (sql_update P f t) = (\<lambda>r. if P r then f r else r) ` set t"
  by (simp add: sql_update_def)

lemma sql_update_none: "(\<And>r. r \<in> set t \<Longrightarrow> \<not> P r) \<Longrightarrow> sql_update P f t = t"
  by (auto simp: sql_update_def intro: map_idI)

lemma sql_delete_set [simp]: "set (sql_delete P t) = {r \<in> set t. \<not> P r}"
  by (auto simp: sql_delete_def)

lemma insert_ignore_set: "set (insert_ignore key r t) = (if key r \<in> key ` set t then set t else insert r (set t))"
  by (auto simp: insert_ignore_def)

lemma insert_ignore_keys [simp]: "key ` set (insert_ignore key r t) = insert (key r) (key ` set t)"
  by (auto simp: insert_ignore_def)

section \<open>Tables with a unique column\<close>

text \<open>The first row of a key, and that the key column has no duplicates.\<close>

definition sql_row :: "('r \<Rightarrow> 'k) \<Rightarrow> 'k \<Rightarrow> 'r list \<Rightarrow> 'r option" where
  "sql_row key k t = find (\<lambda>r. key r = k) t"

definition unique_on :: "('r \<Rightarrow> 'k) \<Rightarrow> 'r list \<Rightarrow> bool" where
  "unique_on key t \<longleftrightarrow> distinct (map key t)"

lemma unique_Nil [simp]: "unique_on key []"
  by (simp add: unique_on_def)

lemma unique_insert_ignore [simp]: "unique_on key t \<Longrightarrow> unique_on key (insert_ignore key r t)"
  by (auto simp: unique_on_def insert_ignore_def)

lemma unique_append: "unique_on key t \<Longrightarrow> key r \<notin> key ` set t \<Longrightarrow> unique_on key (t @ [r])"
  by (auto simp: unique_on_def)

lemma unique_fresh: "unique_on key t \<Longrightarrow> fresh_id key (key r) t \<Longrightarrow> unique_on key (t @ [r])"
  by (rule unique_append) (auto simp: fresh_id_def)

lemma unique_delete [simp]: "unique_on key t \<Longrightarrow> unique_on key (sql_delete P t)"
  by (simp add: unique_on_def sql_delete_def distinct_map_filter)

lemma unique_update: "unique_on key t \<Longrightarrow> (\<And>r. r \<in> set t \<Longrightarrow> P r \<Longrightarrow> key (f r) = key r) \<Longrightarrow> unique_on key (sql_update P f t)"
  by (simp add: unique_on_def sql_update_keys)

lemma unique_upsert: "unique_on key t \<Longrightarrow> (\<And>x. key (merge r x) = key x) \<Longrightarrow> unique_on key (upsert key merge r t)"
  by (auto simp: upsert_def intro: unique_append unique_update)

lemma row_Nil [simp]: "sql_row key k [] = None"
  by (simp add: sql_row_def)

lemma row_Some: "unique_on key t \<Longrightarrow> sql_row key k t = Some r \<longleftrightarrow> r \<in> set t \<and> key r = k"
  by (induction t) (auto simp: sql_row_def unique_on_def)

lemma row_None: "sql_row key k t = None \<longleftrightarrow> k \<notin> key ` set t"
  by (auto simp: sql_row_def find_None_iff)

lemma row_mem: "sql_row key k t = Some r \<Longrightarrow> r \<in> set t \<and> key r = k"
  unfolding sql_row_def using find_SomeD by fastforce

lemma row_append:
  "sql_row key k (t @ [r]) = (case sql_row key k t of None \<Rightarrow> if key r = k then Some r else None | Some x \<Rightarrow> Some x)"
  by (induction t) (auto simp: sql_row_def)

lemma row_insert_ignore:
  "sql_row key k (insert_ignore key r t) = (if k = key r \<and> sql_row key k t = None then Some r else sql_row key k t)"
proof (cases "sql_row key k t")
  case None
  then show ?thesis using row_None [of key k t] by (auto simp: insert_ignore_def row_append)
next
  case (Some x)
  then show ?thesis by (simp add: insert_ignore_def row_append)
qed

lemma row_delete: "sql_row key k (sql_delete (\<lambda>r. key r = j) t) = (if k = j then None else sql_row key k t)"
  by (induction t) (auto simp: sql_row_def sql_delete_def)

lemma row_update:
  "(\<And>r. r \<in> set t \<Longrightarrow> P r \<Longrightarrow> key (f r) = key r) \<Longrightarrow>
   sql_row key k (sql_update P f t) = map_option (\<lambda>r. if P r then f r else r) (sql_row key k t)"
  by (induction t) (auto simp: sql_row_def sql_update_def)

lemma row_upsert:
  assumes "\<And>x. key (merge r x) = key x"
  shows "sql_row key k (upsert key merge r t) =
    (if k = key r then Some (case sql_row key k t of None \<Rightarrow> r | Some x \<Rightarrow> merge r x) else sql_row key k t)"
proof (cases "key r \<in> key ` set t")
  case True
  have upd: "sql_row key k (upsert key merge r t) = map_option (\<lambda>x. if key x = key r then merge r x else x) (sql_row key k t)"
    using True assms by (simp add: upsert_def row_update)
  show ?thesis
  proof (cases "sql_row key k t")
    case None
    then show ?thesis using upd True row_None [of key k t] by auto
  next
    case (Some x)
    then show ?thesis using upd row_mem [OF Some] by auto
  qed
next
  case False
  then have "sql_row key (key r) t = None" by (simp add: row_None)
  then show ?thesis using False by (auto simp: upsert_def row_append split: option.splits)
qed

end
