(* ===== verification/Arbiter_Db.thy ===== *)
theory Arbiter_Db
  imports Complex_Main Sql
begin

text \<open>
  The arbiter's tables (\<open>src/snc-arbiter/db.go\<close>, \<open>db_keys.go\<close>): rows, accounts, system settings and the
  switches for log uploads. Flags stored as 0 and 1 are booleans, floating-point columns rationals without rounding.
  A query returns \<open>None\<close> when the engine fails, a statement returns whether it succeeded.
\<close>

section \<open>Rows\<close>

record User =
  u_id :: int
  u_username :: string
  u_role :: string
  u_client_id :: string
  u_enabled :: bool
  u_log_upload :: bool
  u_log_admin_disabled :: bool

record NodeRow =
  n_id :: int
  n_owner_id :: int
  n_type :: string
  n_addr :: string
  n_fingerprint :: string
  n_pubkey :: string
  n_description :: string
  n_token :: "string option"
  n_status :: string
  n_submitted_at :: int
  n_approved_at :: "int option"
  n_last_heartbeat :: "int option"
  n_rtt_ms :: rat
  n_load :: rat
  n_bandwidth_mbps :: rat
  n_data_plane_ok :: "bool option"
  n_region_override :: string
  n_sni_list :: string
  n_capabilities :: string
  n_location :: string
  n_provider :: string
  n_pinned :: bool
  n_club_id :: "int option"
  n_node_uid :: "string option"
  n_provider_slug :: "string option"
  n_provider_instance_id :: "string option"
  n_ssh_host :: string
  n_ssh_user :: string
  n_deploy_status :: string
  n_deploy_log :: string

record TrafficRow =
  tr_node_id :: int
  tr_ts :: int
  tr_bytes_total :: int
  tr_bytes_cum :: int
  tr_node_type :: string
  tr_bw_mbps :: rat
  tr_rtt_ms :: rat
  tr_routing_rtt_ms :: rat
  tr_cpu_pct :: rat
  tr_mem_pct :: rat
  tr_disk_pct :: rat

record CounterRow =
  cs_node_id :: int
  cs_offset :: int
  cs_last_raw :: int

record RotationRow =
  ro_ts :: int
  ro_node_id :: int
  ro_node_type :: string
  ro_old_addr :: string
  ro_new_addr :: string

text \<open>\<open>whitelist_entries\<close> and \<open>anon_allowlist_entries\<close>.\<close>

record RuleRow =
  r_id :: int
  r_type :: string
  r_value :: string
  r_created_at :: int

record BlockRow =
  b_id :: int
  b_type :: string
  b_value :: string
  b_blocked_regions :: string
  b_reason :: string
  b_created_at :: int

text \<open>\<open>blacklist_entries\<close>, \<open>torrent_blocked_entries\<close> and \<open>excluded_nodes\<close>.\<close>

record AddrRow =
  a_id :: int
  a_addr :: string
  a_reason :: string
  a_created_at :: int

record SettingRow =
  st_key :: string
  st_value :: string
  st_updated_at :: int
  st_updated_by :: string

record SessionRow =
  s_token :: string
  s_username :: string
  s_client_id :: string
  s_device_id :: string
  s_device_name :: string
  s_enc_password :: bytes
  s_cam_session :: string
  s_validated_at :: int
  s_last_attempt :: int

record KeyRecord =
  k_key_id :: string
  k_username :: string
  k_device_id :: "string option"
  k_device_name :: "string option"
  k_enabled :: bool
  k_issued_at :: int
  k_bound_at :: int
  k_last_seen :: int
  k_source :: string
  k_paid_until :: "int option"
  k_plan_pia :: int
  k_reminder_sent :: nat
  k_preferred_duration_days :: int
  k_unlimited_devices :: bool
  k_warn_count :: int
  k_last_warned_at :: int

record database =
  db_users :: "User list"
  db_nodes :: "NodeRow list"
  db_traffic :: "TrafficRow list"
  db_counters :: "CounterRow list"
  db_rotations :: "RotationRow list"
  db_whitelist :: "RuleRow list"
  db_anon :: "RuleRow list"
  db_blocks :: "BlockRow list"
  db_blacklist :: "AddrRow list"
  db_torrent :: "AddrRow list"
  db_excluded :: "AddrRow list"
  db_settings :: "SettingRow list"
  db_sessions :: "SessionRow list"
  db_keys :: "KeyRecord list"

definition empty_db :: database where
  "empty_db = \<lparr>db_users = [], db_nodes = [], db_traffic = [], db_counters = [], db_rotations = [],
     db_whitelist = [], db_anon = [], db_blocks = [], db_blacklist = [], db_torrent = [], db_excluded = [],
     db_settings = [], db_sessions = [], db_keys = []\<rparr>"

section \<open>Settings\<close>

definition getSetting :: "bool \<Rightarrow> string \<Rightarrow> database \<Rightarrow> string option option" where
  "getSetting fails key db = (if fails then None else Some (map_option st_value (sql_row st_key key (db_settings db))))"

definition setSetting :: "bool \<Rightarrow> gotime \<Rightarrow> string \<Rightarrow> string \<Rightarrow> string \<Rightarrow> database \<Rightarrow> bool \<times> database" where
  "setSetting fails now key value updatedBy db =
     (if fails then (False, db)
      else (True, db\<lparr>db_settings := upsert st_key (\<lambda>new old. old\<lparr>st_value := st_value new, st_updated_at := st_updated_at new, st_updated_by := st_updated_by new\<rparr>)
        \<lparr>st_key = key, st_value = value, st_updated_at = time_unix now, st_updated_by = updatedBy\<rparr> (db_settings db)\<rparr>))"

definition getSettingRow :: "bool \<Rightarrow> string \<Rightarrow> database \<Rightarrow> (string \<times> string \<times> gotime) option option" where
  "getSettingRow fails key db = (if fails then None
     else Some (map_option (\<lambda>r. (st_value r, st_updated_by r, st_updated_at r * second)) (sql_row st_key key (db_settings db))))"

text \<open>A setting that was written is read back, and no other changes.\<close>

lemma get_set:
  "getSetting False k (snd (setSetting False now key v who db)) = (if k = key then Some (Some v) else getSetting False k db)"
proof -
  let ?m = "\<lambda>new old. old\<lparr>st_value := st_value new, st_updated_at := st_updated_at new, st_updated_by := st_updated_by new\<rparr>"
  let ?r = "\<lparr>st_key = key, st_value = v, st_updated_at = time_unix now, st_updated_by = who\<rparr>"
  have "sql_row st_key k (upsert st_key ?m ?r (db_settings db)) =
    (if k = key then Some (case sql_row st_key k (db_settings db) of None \<Rightarrow> ?r | Some x \<Rightarrow> ?m ?r x) else sql_row st_key k (db_settings db))"
    by (subst row_upsert) simp_all
  then show ?thesis by (simp add: getSetting_def setSetting_def split: option.splits)
qed

section \<open>Accounts\<close>

definition findUser :: "bool \<Rightarrow> string \<Rightarrow> database \<Rightarrow> User option option" where
  "findUser fails username db = (if fails then None else Some (sql_row u_username username (db_users db)))"

definition genClientID :: "bytes option \<Rightarrow> string option" where
  "genClientID rnd = map_option (\<lambda>b. ''clt_'' @ hex_encode b) rnd"

definition genToken :: "bytes option \<Rightarrow> string option" where
  "genToken rnd = map_option b64_encode rnd"

definition new_user :: "int \<Rightarrow> string \<Rightarrow> string \<Rightarrow> string \<Rightarrow> User" where
  "new_user i username role clientID = \<lparr>u_id = i, u_username = username, u_role = role, u_client_id = clientID,
     u_enabled = True, u_log_upload = True, u_log_admin_disabled = False\<rparr>"

text \<open>\<open>others\<close> is what other connections do between the first query and the insertion, \<open>newid\<close> the
  identifier the engine gives to the row. The number of accounts is read without looking at the error of the query.\<close>

definition getOrCreateUser :: "faults \<Rightarrow> bytes option \<Rightarrow> int \<Rightarrow> (database \<Rightarrow> database) \<Rightarrow> string \<Rightarrow> database \<Rightarrow> User option \<times> database" where
  "getOrCreateUser faults rnd newid others username db =
     (if faults 0 then (None, db)
      else case sql_row u_username username (db_users db) of
        Some u \<Rightarrow>
          if u_client_id u = [] then
            (case genClientID rnd of None \<Rightarrow> (Some u, db)
             | Some cid \<Rightarrow>
                 (Some (u\<lparr>u_client_id := cid\<rparr>),
                  if faults 1 then db
                  else db\<lparr>db_users := sql_update (\<lambda>r. u_id r = u_id u) (\<lambda>r. r\<lparr>u_client_id := cid\<rparr>) (db_users db)\<rparr>))
          else (Some u, db)
      | None \<Rightarrow>
          let db1 = others db;
              count = (if faults 1 then 0 else length (db_users db1));
              role = (if count = 0 then ''admin'' else ''user'')
          in case genClientID rnd of None \<Rightarrow> (None, db1)
             | Some clientID \<Rightarrow>
                 if faults 2 then (None, db1)
                 else let db2 = db1\<lparr>db_users := insert_ignore u_username (new_user newid username role clientID) (db_users db1)\<rparr> in
                   (if faults 3 then None else sql_row u_username username (db_users db2), db2))"

text \<open>Creating an account is safe against others doing the same: if the engine answers, the caller gets the one
  row of the name, whoever inserted it.\<close>

lemma user_race:
  assumes "\<not> faults 0" "\<not> faults 2" "\<not> faults 3" and "rnd = Some b" and "sql_row u_username name (db_users db) = None"
  shows "\<exists>u. getOrCreateUser faults rnd newid others name db = (Some u, snd (getOrCreateUser faults rnd newid others name db)) \<and>
    sql_row u_username name (db_users (snd (getOrCreateUser faults rnd newid others name db))) = Some u \<and> u_username u = name \<and>
    (\<forall>x. sql_row u_username name (db_users (others db)) = Some x \<longrightarrow> u = x)"
proof (cases "sql_row u_username name (db_users (others db))")
  case None
  then show ?thesis using assms by (auto simp: getOrCreateUser_def genClientID_def Let_def row_insert_ignore new_user_def)
next
  case (Some x)
  then show ?thesis using assms row_mem [OF Some]
    by (auto simp: getOrCreateUser_def genClientID_def Let_def row_insert_ignore new_user_def)
qed

text \<open>The role of a new account is decided by a count whose error is ignored: when only that query fails,
  an account created among existing ones is an administrator.\<close>

lemma count_fault_makes_admin:
  assumes "\<not> faults 0" "faults 1" "\<not> faults 2" "\<not> faults 3" and "rnd = Some b" and "sql_row u_username name (db_users db) = None"
  shows "\<exists>u db'. getOrCreateUser faults rnd newid (\<lambda>d. d) name db = (Some u, db') \<and> u_role u = ''admin''"
  using assms by (auto simp: getOrCreateUser_def genClientID_def Let_def row_insert_ignore new_user_def)

lemma users_unique:
  assumes "unique_on u_username (db_users db)" and "unique_on u_username (db_users (others db))"
  shows "unique_on u_username (db_users (snd (getOrCreateUser faults rnd newid others name db)))"
  using assms by (auto simp: getOrCreateUser_def Let_def split: option.splits intro: unique_update)

definition firstAdminUserID :: "bool \<Rightarrow> database \<Rightarrow> int" where
  "firstAdminUserID fails db = (if fails then 0
     else case sort_key u_id (filter (\<lambda>u. u_role u = ''admin'') (db_users db)) of [] \<Rightarrow> 0 | u # _ \<Rightarrow> u_id u)"

definition userCount :: "bool \<Rightarrow> database \<Rightarrow> nat option" where
  "userCount fails db = (if fails then None else Some (length (db_users db)))"

definition allUsernames :: "bool \<Rightarrow> database \<Rightarrow> string list option" where
  "allUsernames fails db = (if fails then None else Some (map u_username (sort_key u_id (db_users db))))"

definition SetUserEnabled :: "bool \<Rightarrow> string \<Rightarrow> bool \<Rightarrow> database \<Rightarrow> bool \<times> database" where
  "SetUserEnabled fails username enabled db = (if fails then (False, db)
     else (True, db\<lparr>db_users := sql_update (\<lambda>u. u_username u = username) (\<lambda>u. u\<lparr>u_enabled := enabled\<rparr>) (db_users db)\<rparr>))"

definition IsUserEnabled :: "bool \<Rightarrow> string \<Rightarrow> database \<Rightarrow> bool option" where
  "IsUserEnabled fails username db = (if fails then None
     else case sql_row u_username username (db_users db) of None \<Rightarrow> Some True | Some u \<Rightarrow> Some (u_enabled u))"

lemma enabled_after_set:
  "IsUserEnabled False name (snd (SetUserEnabled False name' b db)) =
    (if name = name' \<and> sql_row u_username name (db_users db) \<noteq> None then Some b else IsUserEnabled False name db)"
proof (cases "sql_row u_username name (db_users db)")
  case (Some u)
  then show ?thesis using row_mem [OF Some] by (auto simp: IsUserEnabled_def SetUserEnabled_def row_update)
qed (simp add: IsUserEnabled_def SetUserEnabled_def row_update)

section \<open>Switches for log uploads\<close>

definition logUploadGlobalSetting :: string where "logUploadGlobalSetting = ''log_upload_global_enabled''"

definition globalLogUploadEnabled :: "bool \<Rightarrow> database \<Rightarrow> bool" where
  "globalLogUploadEnabled fails db = (case getSetting fails logUploadGlobalSetting db of
     Some (Some val) \<Rightarrow> val \<noteq> ''0'' | _ \<Rightarrow> True)"

definition setGlobalLogUploadEnabled :: "bool \<Rightarrow> gotime \<Rightarrow> bool \<Rightarrow> string \<Rightarrow> database \<Rightarrow> bool \<times> database" where
  "setGlobalLogUploadEnabled fails now enabled who db =
     setSetting fails now logUploadGlobalSetting (if \<not> enabled then ''0'' else ''1'') who db"

definition userLogUploadPrefs :: "bool \<Rightarrow> string \<Rightarrow> database \<Rightarrow> bool \<times> bool" where
  "userLogUploadPrefs fails username db =
     (if username = [] then (True, False)
      else case (if fails then None else sql_row u_username username (db_users db)) of
        None \<Rightarrow> (True, False) | Some u \<Rightarrow> (u_log_upload u, u_log_admin_disabled u))"

definition setUserLogUploadEnabled :: "bool \<Rightarrow> string \<Rightarrow> bool \<Rightarrow> database \<Rightarrow> bool \<times> database" where
  "setUserLogUploadEnabled fails username enabled db = (if fails then (False, db)
     else (True, db\<lparr>db_users := sql_update (\<lambda>u. u_username u = username) (\<lambda>u. u\<lparr>u_log_upload := enabled\<rparr>) (db_users db)\<rparr>))"

definition setUserLogUploadAdminDisabled :: "bool \<Rightarrow> string \<Rightarrow> bool \<Rightarrow> database \<Rightarrow> bool \<times> database" where
  "setUserLogUploadAdminDisabled fails username disabled db = (if fails then (False, db)
     else (True, db\<lparr>db_users := sql_update (\<lambda>u. u_username u = username) (\<lambda>u. u\<lparr>u_log_admin_disabled := disabled\<rparr>) (db_users db)\<rparr>))"

definition logUploadAllowed :: "faults \<Rightarrow> string \<Rightarrow> database \<Rightarrow> bool" where
  "logUploadAllowed faults username db =
     (if \<not> globalLogUploadEnabled (faults 0) db then False
      else if username = [] then True
      else let (userEnabled, adminDisabled) = userLogUploadPrefs (faults 1) username db in userEnabled \<and> \<not> adminDisabled)"

text \<open>A staff override holds whatever the user chooses afterwards, and the global switch stops all uploads.\<close>

lemma log_override_wins:
  assumes "sql_row u_username name (db_users db) = Some u" and "name \<noteq> []" and "\<not> faults 1"
  shows "\<not> logUploadAllowed faults name
    (snd (setUserLogUploadEnabled False name b (snd (setUserLogUploadAdminDisabled False name True db))))"
  using assms row_mem [OF assms(1)]
  by (simp add: logUploadAllowed_def userLogUploadPrefs_def setUserLogUploadEnabled_def setUserLogUploadAdminDisabled_def row_update)

lemma log_global_off:
  "\<not> faults 0 \<Longrightarrow> \<not> logUploadAllowed faults name (snd (setGlobalLogUploadEnabled False now False who db))"
  using get_set [of logUploadGlobalSetting now logUploadGlobalSetting "''0''" who db]
  by (simp add: logUploadAllowed_def globalLogUploadEnabled_def setGlobalLogUploadEnabled_def)

end
