(* ===== verification/Arbiter_Nodes.thy ===== *)
theory Arbiter_Nodes
  imports Arbiter_Db "HOL-Library.List_Lexorder" "HOL-Library.Char_ord"
begin

text \<open>
  The arbiter's nodes (\<open>src/snc-arbiter/db.go\<close>, \<open>db_node_rotations.go\<close>, \<open>load_factor.go\<close>): registration, approval, heartbeats with
  their traffic counters, lists of live nodes, decommissioning, and the load coefficients. The JSON of the capabilities is an
  argument; rows equal under an \<open>ORDER BY\<close> keep the order of the table.
\<close>

section \<open>Reading nodes\<close>

record Node = NodeRow +
  nd_OwnerUsername :: string
  nd_Capabilities :: "(string, bool) gomap"
  nd_BWFresh :: bool
  nd_HourlyBytes :: int

record caps_codec =
  caps_encode :: "(string, bool) gomap \<Rightarrow> string option"
  caps_decode :: "string \<Rightarrow> (string, bool) gomap option"

definition scan_node :: "caps_codec \<Rightarrow> User \<Rightarrow> NodeRow \<Rightarrow> Node" where
  "scan_node C u n = NodeRow.extend n (Node.fields (u_username u)
     (if n_capabilities n \<noteq> [] then (case caps_decode C (n_capabilities n) of None \<Rightarrow> gm_empty | Some m \<Rightarrow> m) else gm_empty) False 0)"

definition scanNodes :: "caps_codec \<Rightarrow> database \<Rightarrow> NodeRow list \<Rightarrow> Node list" where
  "scanNodes C db ns = List.map_filter (\<lambda>n. map_option (\<lambda>u. scan_node C u n) (sql_row u_id (n_owner_id n) (db_users db))) ns"

definition heartbeatTTL :: duration where "heartbeatTTL = 90 * second"
definition bootstrapTTL :: duration where "bootstrapTTL = 1800 * second"

definition IsOnline :: "gotime \<Rightarrow> Node \<Rightarrow> bool" where
  "IsOnline now n = (case n_last_heartbeat n of None \<Rightarrow> False | Some t \<Rightarrow> time_sub now (t * second) < heartbeatTTL)"

definition listApprovedNodes :: "bool \<Rightarrow> caps_codec \<Rightarrow> string \<Rightarrow> database \<Rightarrow> Node list option" where
  "listApprovedNodes fails C nodeType db = (if fails then None
     else Some (scanNodes C db (sort_key n_addr (filter (\<lambda>n. n_type n = nodeType \<and> n_status n \<in> {''approved'', ''suspended''}) (db_nodes db)))))"

definition heard_since :: "int \<Rightarrow> NodeRow \<Rightarrow> bool" where
  "heard_since cutoff n = (case n_last_heartbeat n of None \<Rightarrow> False | Some t \<Rightarrow> t \<ge> cutoff)"

definition liveNodesTTL :: "bool \<Rightarrow> caps_codec \<Rightarrow> gotime \<Rightarrow> string \<Rightarrow> duration \<Rightarrow> database \<Rightarrow> Node list option" where
  "liveNodesTTL fails C now nodeType ttl db = (let cutoff = time_unix (now - ttl) in
     if fails then None
     else Some (scanNodes C db (sort_key n_rtt_ms
       (filter (\<lambda>n. n_type n = nodeType \<and> n_status n = ''approved'' \<and> heard_since cutoff n) (db_nodes db)))))"

definition liveNodes :: "bool \<Rightarrow> caps_codec \<Rightarrow> gotime \<Rightarrow> string \<Rightarrow> database \<Rightarrow> Node list option" where
  "liveNodes fails C now nodeType db = liveNodesTTL fails C now nodeType heartbeatTTL db"

definition bootstrapNodes :: "bool \<Rightarrow> caps_codec \<Rightarrow> gotime \<Rightarrow> string \<Rightarrow> database \<Rightarrow> Node list option" where
  "bootstrapNodes fails C now nodeType db = liveNodesTTL fails C now nodeType bootstrapTTL db"

definition first_node :: "Node list \<Rightarrow> Node option" where
  "first_node ns = (case ns of [] \<Rightarrow> None | n # _ \<Rightarrow> Some n)"

definition nodeByToken :: "bool \<Rightarrow> caps_codec \<Rightarrow> string \<Rightarrow> database \<Rightarrow> Node option option" where
  "nodeByToken fails C token db = (if fails then None
     else Some (first_node (scanNodes C db (filter (\<lambda>n. n_token n = Some token \<and> n_status n = ''approved'') (db_nodes db)))))"

definition nodeByID :: "bool \<Rightarrow> caps_codec \<Rightarrow> int \<Rightarrow> database \<Rightarrow> Node option option" where
  "nodeByID fails C nodeID db = (if fails then None
     else Some (first_node (scanNodes C db (filter (\<lambda>n. n_id n = nodeID) (db_nodes db)))))"

definition listAllNodes :: "bool \<Rightarrow> caps_codec \<Rightarrow> database \<Rightarrow> Node list option" where
  "listAllNodes fails C db = (if fails then None else Some (scanNodes C db (sort_key n_id (db_nodes db))))"

section \<open>Registration and approval\<close>

text \<open>The constraints of the table: owners exist; tokens, node identifiers and pairs of provider and
  instance are unique when present. A statement that breaks one is refused.\<close>

definition distinct_some :: "'a option list \<Rightarrow> bool" where
  "distinct_some xs = distinct (filter (\<lambda>x. x \<noteq> None) xs)"

definition provider_pair :: "NodeRow \<Rightarrow> (string \<times> string) option" where
  "provider_pair n = (case (n_provider_slug n, n_provider_instance_id n) of (Some s, Some i) \<Rightarrow> Some (s, i) | _ \<Rightarrow> None)"

definition node_constraints :: "User list \<Rightarrow> NodeRow list \<Rightarrow> bool" where
  "node_constraints us ns = (list_all (\<lambda>n. n_owner_id n \<in> u_id ` set us) ns \<and> distinct_some (map n_token ns) \<and>
     distinct_some (map n_node_uid ns) \<and> distinct_some (map provider_pair ns))"

definition write_nodes :: "bool \<Rightarrow> NodeRow list \<Rightarrow> database \<Rightarrow> bool \<times> database" where
  "write_nodes fails ns db = (if fails \<or> \<not> node_constraints (db_users db) ns then (False, db) else (True, db\<lparr>db_nodes := ns\<rparr>))"

definition new_node :: "int \<Rightarrow> gotime \<Rightarrow> int \<Rightarrow> string \<Rightarrow> string \<Rightarrow> string \<Rightarrow> string \<Rightarrow> string \<Rightarrow> string \<Rightarrow> string \<Rightarrow> string \<Rightarrow> NodeRow" where
  "new_node newid now ownerID nodeType addr fingerprint pubkey description uid providerSlug providerInstanceID =
     \<lparr>n_id = newid, n_owner_id = ownerID, n_type = nodeType, n_addr = addr, n_fingerprint = fingerprint, n_pubkey = pubkey,
      n_description = description, n_token = None, n_status = ''pending'', n_submitted_at = time_unix now, n_approved_at = None,
      n_last_heartbeat = None, n_rtt_ms = 0, n_load = 0, n_bandwidth_mbps = 0, n_data_plane_ok = None, n_region_override = [],
      n_sni_list = [], n_capabilities = [], n_location = [], n_provider = [], n_pinned = False, n_club_id = None,
      n_node_uid = Some uid, n_provider_slug = nullIfEmpty providerSlug, n_provider_instance_id = nullIfEmpty providerInstanceID,
      n_ssh_host = [], n_ssh_user = ''root'', n_deploy_status = [], n_deploy_log = []\<rparr>"

definition submitNode :: "bool \<Rightarrow> int \<Rightarrow> gotime \<Rightarrow> string \<Rightarrow> int \<Rightarrow> string \<Rightarrow> string \<Rightarrow> string \<Rightarrow> string \<Rightarrow> string \<Rightarrow> string \<Rightarrow> string \<Rightarrow>
    database \<Rightarrow> int option \<times> database" where
  "submitNode fails newid now uid ownerID nodeType addr fingerprint pubkey description providerSlug providerInstanceID db =
     (case write_nodes fails (db_nodes db @ [new_node newid now ownerID nodeType addr fingerprint pubkey description uid providerSlug providerInstanceID]) db of
        (ok, db1) \<Rightarrow> (if ok then Some newid else None, db1))"

text \<open>The token comes back with the success of the statement, also when no row was updated.\<close>

definition approveNode :: "bool \<Rightarrow> bytes option \<Rightarrow> gotime \<Rightarrow> int \<Rightarrow> database \<Rightarrow> (string \<times> bool) \<times> database" where
  "approveNode fails rnd now nodeID db = (case genToken rnd of
     None \<Rightarrow> (([], False), db)
   | Some token \<Rightarrow>
       (case write_nodes fails (sql_update (\<lambda>n. n_id n = nodeID \<and> n_status n = ''pending'')
          (\<lambda>n. n\<lparr>n_status := ''approved'', n_token := Some token, n_approved_at := Some (time_unix now), n_last_heartbeat := Some (time_unix now)\<rparr>)
          (db_nodes db)) db of (ok, db1) \<Rightarrow> ((token, ok), db1)))"

definition set_node :: "bool \<Rightarrow> int \<Rightarrow> (NodeRow \<Rightarrow> NodeRow) \<Rightarrow> database \<Rightarrow> bool \<times> database" where
  "set_node fails nodeID f db = (if fails then (False, db)
     else (True, db\<lparr>db_nodes := sql_update (\<lambda>n. n_id n = nodeID) f (db_nodes db)\<rparr>))"

definition setNodeStatus :: "bool \<Rightarrow> int \<Rightarrow> string \<Rightarrow> database \<Rightarrow> bool \<times> database" where
  "setNodeStatus fails nodeID status db = set_node fails nodeID (\<lambda>n. n\<lparr>n_status := status\<rparr>) db"

definition setNodeRegionOverride :: "bool \<Rightarrow> int \<Rightarrow> string \<Rightarrow> database \<Rightarrow> bool \<times> database" where
  "setNodeRegionOverride fails nodeID region db = set_node fails nodeID (\<lambda>n. n\<lparr>n_region_override := region\<rparr>) db"

definition setNodePinned :: "bool \<Rightarrow> int \<Rightarrow> bool \<Rightarrow> database \<Rightarrow> bool \<times> database" where
  "setNodePinned fails nodeID pinned db = set_node fails nodeID (\<lambda>n. n\<lparr>n_pinned := pinned\<rparr>) db"

definition setNodeSNIList :: "bool \<Rightarrow> int \<Rightarrow> string \<Rightarrow> database \<Rightarrow> bool \<times> database" where
  "setNodeSNIList fails nodeID sniList db = set_node fails nodeID (\<lambda>n. n\<lparr>n_sni_list := sniList\<rparr>) db"

definition setNodeLoad :: "bool \<Rightarrow> int \<Rightarrow> rat \<Rightarrow> database \<Rightarrow> bool \<times> database" where
  "setNodeLoad fails nodeID load db = set_node fails nodeID (\<lambda>n. n\<lparr>n_load := load\<rparr>) db"

definition setDeployStatus :: "bool \<Rightarrow> int \<Rightarrow> string \<Rightarrow> database \<Rightarrow> database" where
  "setDeployStatus fails nodeID status db = snd (set_node fails nodeID (\<lambda>n. n\<lparr>n_deploy_status := status\<rparr>) db)"

definition appendNodeDeployLog :: "bool \<Rightarrow> int \<Rightarrow> string \<Rightarrow> database \<Rightarrow> database" where
  "appendNodeDeployLog fails nodeID text db = snd (set_node fails nodeID (\<lambda>n. n\<lparr>n_deploy_log := n_deploy_log n @ text\<rparr>) db)"

definition getDeployStatus :: "bool \<Rightarrow> int \<Rightarrow> int \<Rightarrow> database \<Rightarrow> (string \<times> string) option" where
  "getDeployStatus fails nodeID ownerID db = (if fails then None
     else map_option (\<lambda>n. (n_deploy_status n, n_deploy_log n)) (find (\<lambda>n. n_id n = nodeID \<and> n_owner_id n = ownerID) (db_nodes db)))"

definition getDeployStatusAdmin :: "bool \<Rightarrow> int \<Rightarrow> database \<Rightarrow> (string \<times> string) option" where
  "getDeployStatusAdmin fails nodeID db = (if fails then None
     else map_option (\<lambda>n. (n_deploy_status n, n_deploy_log n)) (sql_row n_id nodeID (db_nodes db)))"

definition deleteNode :: "bool \<Rightarrow> int \<Rightarrow> database \<Rightarrow> bool \<times> database" where
  "deleteNode fails nodeID db = (if fails then (False, db) else (True, db\<lparr>db_nodes := sql_delete (\<lambda>n. n_id n = nodeID) (db_nodes db)\<rparr>))"

text \<open>The node an installation is for, and its row when it is installed again.\<close>

definition ssh_existing :: "string \<Rightarrow> string \<Rightarrow> string \<Rightarrow> string \<Rightarrow> database \<Rightarrow> NodeRow option" where
  "ssh_existing nodeType addr providerSlug providerInstanceID db =
     find (\<lambda>n. if providerSlug \<noteq> [] \<and> providerInstanceID \<noteq> []
       then n_provider_slug n = Some providerSlug \<and> n_provider_instance_id n = Some providerInstanceID
       else n_type n = nodeType \<and> n_addr n = addr) (db_nodes db)"

definition ssh_reset :: "gotime \<Rightarrow> int \<Rightarrow> string \<Rightarrow> string \<Rightarrow> string \<Rightarrow> string \<Rightarrow> string \<Rightarrow> string \<Rightarrow> NodeRow \<Rightarrow> NodeRow" where
  "ssh_reset now ownerID addr sshHost sshUser description providerSlug providerInstanceID n =
     n\<lparr>n_owner_id := ownerID, n_addr := addr, n_ssh_host := sshHost, n_ssh_user := sshUser, n_description := description,
       n_provider_slug := nullIfEmpty providerSlug, n_provider_instance_id := nullIfEmpty providerInstanceID,
       n_status := ''pending'', n_token := None, n_approved_at := None, n_deploy_status := [], n_deploy_log := [],
       n_submitted_at := time_unix now\<rparr>"

text \<open>Statements: 0 begins the transaction, 1 looks for the node, 2 writes, 3 commits. An error of the query
  counts as no node found.\<close>

definition submitNodeSSH :: "faults \<Rightarrow> int \<Rightarrow> gotime \<Rightarrow> string \<Rightarrow> int \<Rightarrow> string \<Rightarrow> string \<Rightarrow> string \<Rightarrow> string \<Rightarrow> string \<Rightarrow> string \<Rightarrow>
    database \<Rightarrow> int option \<times> database" where
  "submitNodeSSH faults newid now uid ownerID nodeType sshHost sshUser0 description providerSlug providerInstanceID db =
     (let sshUser = (if sshUser0 = [] then ''root'' else sshUser0); addr = sshHost @ '':443'';
          (nodeID, ns) = (case (if faults 1 then None else ssh_existing nodeType addr providerSlug providerInstanceID db) of
            Some e \<Rightarrow> (n_id e, sql_update (\<lambda>n. n_id n = n_id e)
              (ssh_reset now ownerID addr sshHost sshUser description providerSlug providerInstanceID) (db_nodes db))
          | None \<Rightarrow> (newid, db_nodes db @ [(new_node newid now ownerID nodeType addr [] [] description uid providerSlug providerInstanceID)
              \<lparr>n_ssh_host := sshHost, n_ssh_user := sshUser\<rparr>]))
      in if faults 0 then (None, db)
         else case write_nodes (faults 2) ns db of
           (ok, db1) \<Rightarrow> if \<not> ok \<or> faults 3 then (None, db) else (Some nodeID, db1))"

record nodeProvisionInfo =
  pi_ID :: int
  pi_Type :: string
  pi_Addr :: string
  pi_Token :: string
  pi_SSHHost :: string
  pi_SSHUser :: string
  pi_DeployStatus :: string
  pi_OwnerEmail :: string

definition getNodeProvisionInfo :: "bool \<Rightarrow> int \<Rightarrow> database \<Rightarrow> nodeProvisionInfo option" where
  "getNodeProvisionInfo fails nodeID db = (if fails then None
     else case sql_row n_id nodeID (db_nodes db) of None \<Rightarrow> None
     | Some n \<Rightarrow> map_option (\<lambda>u. \<lparr>pi_ID = n_id n, pi_Type = n_type n, pi_Addr = n_addr n, pi_Token = coalesce (n_token n),
         pi_SSHHost = n_ssh_host n, pi_SSHUser = n_ssh_user n, pi_DeployStatus = n_deploy_status n, pi_OwnerEmail = u_username u\<rparr>)
         (sql_row u_id (n_owner_id n) (db_users db)))"

section \<open>Changing addresses and decommissioning\<close>

definition deleteBlacklistEntryByAddr :: "bool \<Rightarrow> string \<Rightarrow> database \<Rightarrow> bool \<times> database" where
  "deleteBlacklistEntryByAddr fails addr db = (if fails then (False, db)
     else (True, db\<lparr>db_blacklist := sql_delete (\<lambda>e. a_addr e = addr) (db_blacklist db)\<rparr>))"

definition deleteTorrentBlockedEntryByAddr :: "bool \<Rightarrow> string \<Rightarrow> database \<Rightarrow> bool \<times> database" where
  "deleteTorrentBlockedEntryByAddr fails addr db = (if fails then (False, db)
     else (True, db\<lparr>db_torrent := sql_delete (\<lambda>e. a_addr e = addr) (db_torrent db)\<rparr>))"

definition decommissionNode :: "faults \<Rightarrow> caps_codec \<Rightarrow> int \<Rightarrow> database \<Rightarrow> bool \<times> database" where
  "decommissionNode faults C nodeID db = (case nodeByID (faults 0) C nodeID db of
     None \<Rightarrow> (False, db)
   | Some node \<Rightarrow>
       (case set_node (faults 1) nodeID (\<lambda>n. n\<lparr>n_status := ''decommissioned''\<rparr>) db of (ok, db1) \<Rightarrow>
          if \<not> ok then (False, db1)
          else if rows_affected (\<lambda>n. n_id n = nodeID) (db_nodes db) = 0 then (False, db1)
          else (True, case node of None \<Rightarrow> db1
            | Some n \<Rightarrow> snd (deleteTorrentBlockedEntryByAddr (faults 3) (n_addr n)
                (snd (deleteBlacklistEntryByAddr (faults 2) (n_addr n) db1))))))"

definition recordAddrRotationIfChanged :: "bool \<Rightarrow> int \<Rightarrow> string \<Rightarrow> string \<Rightarrow> string \<Rightarrow> int \<Rightarrow> database \<Rightarrow> bool \<times> database" where
  "recordAddrRotationIfChanged fails nodeID nodeType oldAddr newAddr ts db =
     (if oldAddr = [] \<or> newAddr = [] \<or> oldAddr = newAddr then (True, db)
      else if fails then (False, db)
      else (True, db\<lparr>db_rotations := db_rotations db @
        [\<lparr>ro_ts = ts, ro_node_id = nodeID, ro_node_type = nodeType, ro_old_addr = oldAddr, ro_new_addr = newAddr\<rparr>]\<rparr>))"

definition recentAddrRotations :: "bool \<Rightarrow> string \<Rightarrow> gotime \<Rightarrow> database \<Rightarrow> RotationRow list option" where
  "recentAddrRotations fails nodeType since db = (if fails then None
     else Some (sort_key (\<lambda>r. - ro_ts r) (filter (\<lambda>r. ro_node_type r = nodeType \<and> ro_ts r \<ge> time_unix since) (db_rotations db))))"

definition keep_if_empty :: "string \<Rightarrow> string \<Rightarrow> string" where
  "keep_if_empty new old = (if new = [] then old else new)"

definition edit_node :: "string \<Rightarrow> string \<Rightarrow> string \<Rightarrow> string \<Rightarrow> string \<Rightarrow> string \<Rightarrow> NodeRow \<Rightarrow> NodeRow" where
  "edit_node addr description location provider providerSlug providerInstanceID n =
     n\<lparr>n_addr := addr, n_description := description,
       n_location := keep_if_empty location (n_location n), n_provider := keep_if_empty provider (n_provider n),
       n_provider_slug := (if providerSlug = [] then n_provider_slug n else Some providerSlug),
       n_provider_instance_id := (if providerInstanceID = [] then n_provider_instance_id n else Some providerInstanceID)\<rparr>"

definition updateNode :: "faults \<Rightarrow> gotime \<Rightarrow> int \<Rightarrow> string \<Rightarrow> string \<Rightarrow> string \<Rightarrow> string \<Rightarrow> string \<Rightarrow> string \<Rightarrow> database \<Rightarrow> bool \<times> database" where
  "updateNode faults now nodeID addr description location provider providerSlug providerInstanceID db =
     (let (nodeType, oldAddr) = (case (if faults 0 then None else sql_row n_id nodeID (db_nodes db)) of
            None \<Rightarrow> ([], []) | Some n \<Rightarrow> (n_type n, n_addr n)) in
      case write_nodes (faults 1) (sql_update (\<lambda>n. n_id n = nodeID)
        (edit_node addr description location provider providerSlug providerInstanceID) (db_nodes db)) db of
        (ok, db1) \<Rightarrow>
          if \<not> ok then (False, db1)
          else if rows_affected (\<lambda>n. n_id n = nodeID) (db_nodes db) = 0 then (False, db1)
          else (True, snd (recordAddrRotationIfChanged (faults 2) nodeID nodeType oldAddr addr (time_unix now) db1)))"

section \<open>Heartbeats and traffic\<close>

record node_sample =
  sa_bw :: rat
  sa_rtt :: rat
  sa_routing_rtt :: rat
  sa_cpu :: rat
  sa_mem :: rat
  sa_disk :: rat

text \<open>One transaction: statement 0 begins it, 1 reads the counter, 2 and 3 write, 4 commits.\<close>

definition recordNodeTrafficSample :: "faults \<Rightarrow> int \<Rightarrow> int \<Rightarrow> int \<Rightarrow> string \<Rightarrow> node_sample \<Rightarrow> database \<Rightarrow> bool \<times> database" where
  "recordNodeTrafficSample faults nodeID ts rawBytesTotal nodeType sm db =
     (if faults 0 \<or> faults 1 \<or> faults 2 \<or> faults 3 \<or> faults 4 then (False, db)
      else let off = (case sql_row cs_node_id nodeID (db_counters db) of
                 None \<Rightarrow> 0
               | Some c \<Rightarrow> if rawBytesTotal < cs_last_raw c then wrap64 (cs_offset c + cs_last_raw c) else cs_offset c);
               cum = wrap64 (off + rawBytesTotal) in
        (True, db\<lparr>db_counters := upsert cs_node_id (\<lambda>new old. old\<lparr>cs_offset := cs_offset new, cs_last_raw := cs_last_raw new\<rparr>)
                   \<lparr>cs_node_id = nodeID, cs_offset = off, cs_last_raw = rawBytesTotal\<rparr> (db_counters db),
                 db_traffic := db_traffic db @ [\<lparr>tr_node_id = nodeID, tr_ts = ts, tr_bytes_total = rawBytesTotal, tr_bytes_cum = cum,
                   tr_node_type = nodeType, tr_bw_mbps = sa_bw sm, tr_rtt_ms = sa_rtt sm, tr_routing_rtt_ms = sa_routing_rtt sm,
                   tr_cpu_pct = sa_cpu sm, tr_mem_pct = sa_mem sm, tr_disk_pct = sa_disk sm\<rparr>]\<rparr>))"

definition heartbeat_node :: "int \<Rightarrow> node_sample \<Rightarrow> string \<Rightarrow> bool option \<Rightarrow> string \<Rightarrow> NodeRow \<Rightarrow> NodeRow" where
  "heartbeat_node now sm fingerprint dataPlaneOK capsJSON n =
     n\<lparr>n_last_heartbeat := Some now, n_rtt_ms := sa_rtt sm, n_bandwidth_mbps := sa_bw sm,
       n_fingerprint := (if fingerprint \<noteq> [] then fingerprint else n_fingerprint n), n_data_plane_ok := dataPlaneOK,
       n_capabilities := capsJSON\<rparr>"

text \<open>Statement 0 updates the node, 1 reads its identifier, the sample is written from 2 on.\<close>

definition updateHeartbeat :: "faults \<Rightarrow> caps_codec \<Rightarrow> gotime \<Rightarrow> string \<Rightarrow> node_sample \<Rightarrow> int \<Rightarrow> string \<Rightarrow> bool option \<Rightarrow> (string, bool) gomap \<Rightarrow>
    database \<Rightarrow> nat option \<times> database" where
  "updateHeartbeat faults C now0 token sm bytesTotal fingerprint dataPlaneOK capabilities db =
     (let now = time_unix now0;
          capsJSON = (if gm_len capabilities > 0 then (case caps_encode C capabilities of None \<Rightarrow> [] | Some b \<Rightarrow> b) else []);
          hit = (\<lambda>n. n_token n = Some token \<and> n_status n = ''approved'');
          db1 = db\<lparr>db_nodes := sql_update hit (heartbeat_node now sm fingerprint dataPlaneOK capsJSON) (db_nodes db)\<rparr>;
          rows = rows_affected hit (db_nodes db)
      in if faults 0 then (None, db)
         else if rows > 0 then
           (let (nodeID, nodeType) = (case (if faults 1 then None else find (\<lambda>n. n_token n = Some token) (db_nodes db1)) of
                  None \<Rightarrow> (0, []) | Some n \<Rightarrow> (n_id n, n_type n)) in
            (Some rows, if nodeID > 0 then snd (recordNodeTrafficSample (\<lambda>i. faults (i + 2)) nodeID now bytesTotal nodeType sm db1) else db1))
         else (Some rows, db1))"

definition nodeHourlyBytes :: "bool \<Rightarrow> gotime \<Rightarrow> int \<Rightarrow> database \<Rightarrow> int" where
  "nodeHourlyBytes fails now nodeID db =
     (let cutoff = time_unix (now - hour);
          cums = map tr_bytes_cum (filter (\<lambda>r. tr_node_id r = nodeID \<and> tr_ts r \<ge> cutoff) (db_traffic db)) in
      if fails \<or> cums = [] then 0
      else let hi = foldr max cums (hd cums); lo = foldr min cums (hd cums) in if hi \<le> lo then 0 else hi - lo)"

definition nodeLastBW :: "bool \<Rightarrow> gotime \<Rightarrow> int \<Rightarrow> database \<Rightarrow> rat \<times> bool" where
  "nodeLastBW fails now nodeID db =
     (let cutoff = time_unix (now - hour); freshCutoff = time_unix (now - 60 * second) in
      case (if fails then [] else sort_key (\<lambda>r. - tr_ts r)
        (filter (\<lambda>r. tr_node_id r = nodeID \<and> tr_bw_mbps r > 0 \<and> tr_ts r \<ge> cutoff) (db_traffic db))) of
        [] \<Rightarrow> (0, False) | r # _ \<Rightarrow> (tr_bw_mbps r, tr_ts r \<ge> freshCutoff))"

definition populate_node :: "(nat \<Rightarrow> int \<Rightarrow> bool) \<Rightarrow> gotime \<Rightarrow> database \<Rightarrow> Node \<Rightarrow> Node" where
  "populate_node fails now db n =
     (if \<not> IsOnline now n then n
      else let n1 = n\<lparr>nd_HourlyBytes := nodeHourlyBytes (fails 0 (n_id n)) now (n_id n) db\<rparr> in
        if n_bandwidth_mbps n1 > 0 then n1\<lparr>nd_BWFresh := True\<rparr>
        else let (bw, fresh) = nodeLastBW (fails 1 (n_id n)) now (n_id n) db in
          if bw > 0 then n1\<lparr>n_bandwidth_mbps := bw, nd_BWFresh := fresh\<rparr> else n1)"

definition populateNodeTraffic :: "(nat \<Rightarrow> int \<Rightarrow> bool) \<Rightarrow> gotime \<Rightarrow> database \<Rightarrow> Node list \<Rightarrow> Node list" where
  "populateNodeTraffic fails now db nodes = map (populate_node fails now db) nodes"

section \<open>Lifetime traffic\<close>

text \<open>What a node has moved altogether, from the counters it reports since its own start: an increase
  is added, a value below the last one is a restart and adds itself.\<close>

fun moved_since :: "int \<Rightarrow> int list \<Rightarrow> int" where
  "moved_since l [] = 0"
| "moved_since l (r # rs) = (if r < l then r else r - l) + moved_since r rs"

definition lifetime :: "int list \<Rightarrow> int" where "lifetime rs = moved_since 0 rs"

lemma moved_since_append: "moved_since l (xs @ ys) = moved_since l xs + moved_since (last (l # xs)) ys"
  by (induction xs arbitrary: l) auto

lemma moved_since_nonneg: "\<forall>r \<in> set rs. 0 \<le> r \<Longrightarrow> 0 \<le> l \<Longrightarrow> 0 \<le> moved_since l rs"
  by (induction rs arbitrary: l) auto

definition report :: "int \<times> int \<times> int \<times> string \<times> node_sample \<Rightarrow> database \<Rightarrow> database" where
  "report x db = (case x of (i, ts, raw, ty, sm) \<Rightarrow> snd (recordNodeTrafficSample (\<lambda>_. False) i ts raw ty sm db))"

definition raws_of :: "int \<Rightarrow> (int \<times> int \<times> int \<times> string \<times> node_sample) list \<Rightarrow> int list" where
  "raws_of i xs = map (\<lambda>(j, ts, raw, ty, sm). raw) (filter (\<lambda>x. fst x = i) xs)"

definition cums_of :: "int \<Rightarrow> database \<Rightarrow> int list" where
  "cums_of i db = map tr_bytes_cum (filter (\<lambda>r. tr_node_id r = i) (db_traffic db))"

definition counter_of :: "int \<Rightarrow> database \<Rightarrow> int \<times> int" where
  "counter_of i db = (case sql_row cs_node_id i (db_counters db) of None \<Rightarrow> (0, 0) | Some c \<Rightarrow> (cs_offset c, cs_last_raw c))"

lemma wrap64_0 [simp]: "wrap64 0 = 0"
  by (rule wrap64_id) (simp add: int64_min_def int64_max_def)

lemma report_counter:
  "counter_of i (report (j, ts, raw, ty, sm) db) =
    (if i = j then (let (off, l) = counter_of i db in (if raw < l then wrap64 (off + l) else off, raw)) else counter_of i db)"
proof -
  let ?m = "\<lambda>new old. old\<lparr>cs_offset := cs_offset new, cs_last_raw := cs_last_raw new\<rparr>"
  have up: "sql_row cs_node_id i (upsert cs_node_id ?m r (db_counters db)) =
    (if i = cs_node_id r then Some (case sql_row cs_node_id i (db_counters db) of None \<Rightarrow> r | Some x \<Rightarrow> ?m r x)
     else sql_row cs_node_id i (db_counters db))" for r :: CounterRow
    by (rule row_upsert) simp
  show ?thesis
    by (auto simp: report_def recordNodeTrafficSample_def counter_of_def Let_def up split: option.splits)
qed

lemma report_cums:
  "cums_of i (report (j, ts, raw, ty, sm) db) =
    cums_of i db @ (if i = j then [wrap64 ((let (off, l) = counter_of i db in if raw < l then wrap64 (off + l) else off) + raw)] else [])"
  by (auto simp: report_def recordNodeTrafficSample_def counter_of_def cums_of_def Let_def split: option.splits)

text \<open>The counter and the samples of a node after the reports of all nodes.\<close>

lemma reports_lifetime:
  assumes "\<forall>r \<in> set (raws_of i xs). 0 \<le> r" and "lifetime (raws_of i xs) < 2 ^ 63"
    and "counter_of i db = (0, 0)" and "cums_of i db = []"
  shows "cums_of i (fold report xs db) = map (\<lambda>k. lifetime (take (Suc k) (raws_of i xs))) [0..<length (raws_of i xs)] \<and>
    fst (counter_of i (fold report xs db)) + snd (counter_of i (fold report xs db)) = lifetime (raws_of i xs) \<and>
    snd (counter_of i (fold report xs db)) = last (0 # raws_of i xs) \<and> 0 \<le> fst (counter_of i (fold report xs db))"
  using assms
proof (induction xs rule: rev_induct)
  case Nil
  then show ?case by (simp add: raws_of_def lifetime_def)
next
  case (snoc x xs)
  obtain j ts raw ty sm where x: "x = (j, ts, raw, ty, sm)" by (cases x)
  define rs where "rs = raws_of i xs"
  define d where "d = fold report xs db"
  show ?case
  proof (cases "i = j")
    case False
    then have "raws_of i (xs @ [x]) = raws_of i xs" by (auto simp: raws_of_def x)
    then show ?thesis using snoc False by (simp add: x report_cums report_counter)
  next
    case True
    then have new: "raws_of i (xs @ [x]) = rs @ [raw]" by (simp add: raws_of_def x rs_def)
    have raw: "0 \<le> raw" and pos: "\<forall>r \<in> set rs. 0 \<le> r" using snoc.prems(1) new by auto
    have l0: "0 \<le> last (0 # rs)" using pos by (cases rs rule: rev_cases) auto
    have life: "lifetime (rs @ [raw]) = lifetime rs + (if raw < last (0 # rs) then raw else raw - last (0 # rs))"
      by (simp add: lifetime_def moved_since_append)
    have rs0: "0 \<le> lifetime rs" unfolding lifetime_def using moved_since_nonneg [OF pos] by simp
    have lt: "lifetime rs + (if raw < last (0 # rs) then raw else raw - last (0 # rs)) < 2 ^ 63" using snoc.prems(2) new life by simp
    have IH: "cums_of i d = map (\<lambda>k. lifetime (take (Suc k) rs)) [0..<length rs]"
      "fst (counter_of i d) + snd (counter_of i d) = lifetime rs" "snd (counter_of i d) = last (0 # rs)" "0 \<le> fst (counter_of i d)"
      using snoc.IH snoc.prems raw lt l0 pos unfolding new rs_def [symmetric] d_def [symmetric] by (auto split: if_splits)
    obtain off l where c: "counter_of i d = (off, l)" by fastforce
    have cl: "off + l = lifetime rs" "l = last (0 # rs)" "0 \<le> off" using IH c by simp_all
    have w: "wrap64 (off + l) = off + l" if "raw < l"
      using that lt cl raw rs0 by (intro wrap64_id) (simp add: int64_min_def int64_max_def)
    have c': "counter_of i (report x d) = (if raw < l then off + l else off, raw)"
      using report_counter [of i j ts raw ty sm d] True c w by (simp add: x)
    have sum: "fst (counter_of i (report x d)) + raw = lifetime (rs @ [raw])" using c' cl life by simp
    moreover have "wrap64 (lifetime (rs @ [raw])) = lifetime (rs @ [raw])"
      using lt life raw rs0 l0 by (intro wrap64_id) (auto simp: int64_min_def int64_max_def split: if_splits)
    ultimately have "cums_of i (report x d) = cums_of i d @ [lifetime (rs @ [raw])]"
      using report_cums [of i j ts raw ty sm d] True c c' w by (auto simp: x split: if_splits)
    moreover have "map (\<lambda>k. lifetime (take (Suc k) (rs @ [raw]))) [0..<length (rs @ [raw])] =
      map (\<lambda>k. lifetime (take (Suc k) rs)) [0..<length rs] @ [lifetime (rs @ [raw])]" by simp
    ultimately have "cums_of i (report x d) = map (\<lambda>k. lifetime (take (Suc k) (rs @ [raw]))) [0..<length (rs @ [raw])]"
      using IH(1) by simp
    then show ?thesis using sum c' cl rs0 l0 by (simp add: new d_def [symmetric])
  qed
qed

lemma lifetime_mono: "\<forall>r \<in> set rs. 0 \<le> r \<Longrightarrow> lifetime (take m rs) \<le> lifetime (take (m + n) rs)"
proof -
  assume pos: "\<forall>r \<in> set rs. 0 \<le> r"
  have "last (0 # take m rs) \<in> set (0 # take m rs)" by (rule last_in_set) simp
  then have "0 \<le> last (0 # take m rs)" using pos by (metis in_set_takeD order_refl set_ConsD)
  moreover have "\<forall>r \<in> set (take n (drop m rs)). 0 \<le> r" using pos by (meson in_set_dropD in_set_takeD)
  ultimately have "0 \<le> moved_since (last (0 # take m rs)) (take n (drop m rs))" by (simp add: moved_since_nonneg)
  then show ?thesis by (simp add: lifetime_def take_add moved_since_append)
qed


definition sample_stats :: node_sample where
  "sample_stats = \<lparr>sa_bw = 0, sa_rtt = 0, sa_routing_rtt = 0, sa_cpu = 0, sa_mem = 0, sa_disk = 0\<rparr>"

definition sample_reports :: "(int \<times> int \<times> int \<times> string \<times> node_sample) list" where
  "sample_reports = [(1, 0, 100, ''exit'', sample_stats), (2, 0, 7, ''exit'', sample_stats), (1, 1, 150, ''exit'', sample_stats),
     (1, 2, 30, ''exit'', sample_stats)]"


end
