(* ===== verification/Arbiter_Lifecycle.thy ===== *)
theory Arbiter_Lifecycle
  imports Arbiter_Nodes
begin

text \<open>
  The life of a node at the arbiter: what its table keeps under every operation, whose token is
  accepted, and what happens to the policies of an address when nodes are decommissioned or move.
\<close>

section \<open>Histories\<close>

datatype node_op =
    AddUser faults "bytes option" int string
  | Submit bool int gotime string int string string string string string string string
  | SubmitSSH faults int gotime string int string string string string string string
  | Approve bool "bytes option" gotime int
  | SetStatus bool int string
  | SetRegion bool int string
  | SetPinned bool int bool
  | SetSNI bool int string
  | SetLoad bool int rat
  | DeployStatus bool int string
  | DeployLog bool int string
  | Delete bool int
  | Decommission faults caps_codec int
  | Update faults gotime int string string string string string string
  | Heartbeat faults caps_codec gotime string node_sample int string "bool option" "(string, bool) gomap"

text \<open>An operation with the tokens it hands out, for the node it names.\<close>

fun run_op :: "node_op \<Rightarrow> database \<Rightarrow> (int \<times> string) list \<times> database" where
  "run_op (AddUser faults rnd newid name) db = ([], snd (getOrCreateUser faults rnd newid (\<lambda>d. d) name db))"
| "run_op (Submit fails newid now uid owner ty addr fp pk desc slug inst) db = ([], snd (submitNode fails newid now uid owner ty addr fp pk desc slug inst db))"
| "run_op (SubmitSSH faults newid now uid owner ty host sshUser desc slug inst) db = ([], snd (submitNodeSSH faults newid now uid owner ty host sshUser desc slug inst db))"
| "run_op (Approve fails rnd now i) db = (case approveNode fails rnd now i db of ((token, ok), db1) \<Rightarrow> (if ok then [(i, token)] else [], db1))"
| "run_op (SetStatus fails i st) db = ([], snd (setNodeStatus fails i st db))"
| "run_op (SetRegion fails i r) db = ([], snd (setNodeRegionOverride fails i r db))"
| "run_op (SetPinned fails i b) db = ([], snd (setNodePinned fails i b db))"
| "run_op (SetSNI fails i l) db = ([], snd (setNodeSNIList fails i l db))"
| "run_op (SetLoad fails i l) db = ([], snd (setNodeLoad fails i l db))"
| "run_op (DeployStatus fails i st) db = ([], setDeployStatus fails i st db)"
| "run_op (DeployLog fails i t) db = ([], appendNodeDeployLog fails i t db)"
| "run_op (Delete fails i) db = ([], snd (deleteNode fails i db))"
| "run_op (Decommission faults C i) db = ([], snd (decommissionNode faults C i db))"
| "run_op (Update faults now i addr desc loc prov slug inst) db = ([], snd (updateNode faults now i addr desc loc prov slug inst db))"
| "run_op (Heartbeat faults C now token sm bytes fp dp caps) db = ([], snd (updateHeartbeat faults C now token sm bytes fp dp caps db))"

text \<open>New rows get identifiers above all others.\<close>

fun op_fresh :: "node_op \<Rightarrow> database \<Rightarrow> bool" where
  "op_fresh (AddUser faults rnd newid name) db = fresh_id u_id newid (db_users db)"
| "op_fresh (Submit fails newid now uid owner ty addr fp pk desc slug inst) db = fresh_id n_id newid (db_nodes db)"
| "op_fresh (SubmitSSH faults newid now uid owner ty host sshUser desc slug inst) db = fresh_id n_id newid (db_nodes db)"
| "op_fresh op db = True"

inductive node_history :: "(int \<times> string) list \<Rightarrow> database \<Rightarrow> bool" where
  fresh_database: "node_history [] empty_db"
| next_operation: "node_history issued db \<Longrightarrow> op_fresh op db \<Longrightarrow> run_op op db = (new, db') \<Longrightarrow> node_history (issued @ new) db'"

section \<open>What every operation keeps\<close>

definition nodes_ok :: "(int \<times> string) list \<Rightarrow> database \<Rightarrow> bool" where
  "nodes_ok issued db \<longleftrightarrow> unique_on n_id (db_nodes db) \<and> node_constraints (db_users db) (db_nodes db) \<and>
     unique_on u_id (db_users db) \<and>
     (\<forall>n \<in> set (db_nodes db). \<forall>t. n_token n = Some t \<longrightarrow> (n_id n, t) \<in> set issued)"

lemma distinct_some_filter: "distinct_some (map f xs) \<Longrightarrow> distinct_some (map f (filter P xs))"
  by (induction xs) (auto simp: distinct_some_def, metis image_eqI)

lemma constraints_delete: "node_constraints us ns \<Longrightarrow> node_constraints us (sql_delete P ns)"
  by (auto simp: node_constraints_def sql_delete_def list_all_iff distinct_some_filter)

definition keeps_keys :: "(NodeRow \<Rightarrow> NodeRow) \<Rightarrow> bool" where
  "keeps_keys f \<longleftrightarrow> (\<forall>n. n_id (f n) = n_id n \<and> n_owner_id (f n) = n_owner_id n \<and> n_token (f n) = n_token n \<and>
     n_node_uid (f n) = n_node_uid n \<and> provider_pair (f n) = provider_pair n)"

lemma constraints_update:
  assumes "keeps_keys f" and "node_constraints us ns"
  shows "node_constraints us (sql_update P f ns)"
proof -
  have "map g (sql_update P f ns) = map g ns" if "\<And>n. g (f n) = g n" for g :: "NodeRow \<Rightarrow> 'b"
    using that by (simp add: sql_update_keys)
  then have "map n_token (sql_update P f ns) = map n_token ns" "map n_node_uid (sql_update P f ns) = map n_node_uid ns"
    "map provider_pair (sql_update P f ns) = map provider_pair ns" "map n_owner_id (sql_update P f ns) = map n_owner_id ns"
    using assms(1) unfolding keeps_keys_def by blast+
  moreover have "list_all (\<lambda>n. n_owner_id n \<in> S) ms \<longleftrightarrow> set (map n_owner_id ms) \<subseteq> S" for S and ms :: "NodeRow list"
    by (auto simp: list_all_iff)
  ultimately show ?thesis using assms(2) unfolding node_constraints_def by metis
qed

lemma ok_update:
  assumes "nodes_ok issued db" and "keeps_keys f"
  shows "nodes_ok issued (db\<lparr>db_nodes := sql_update P f (db_nodes db)\<rparr>)"
proof -
  have "unique_on n_id (sql_update P f (db_nodes db))"
    using assms by (auto simp: nodes_ok_def keeps_keys_def intro: unique_update)
  moreover have "(n_id n, t) \<in> set issued" if "n \<in> set (sql_update P f (db_nodes db))" "n_token n = Some t" for n t
    using that assms by (auto simp: nodes_ok_def keeps_keys_def sql_update_set split: if_splits)
  ultimately show ?thesis using assms constraints_update by (auto simp: nodes_ok_def)
qed

lemma ok_set_node: "nodes_ok issued db \<Longrightarrow> keeps_keys f \<Longrightarrow> nodes_ok issued (snd (set_node fails i f db))"
  by (simp add: set_node_def ok_update)

lemma keeps_setters [simp]:
  "keeps_keys (\<lambda>n. n\<lparr>n_status := st\<rparr>)" "keeps_keys (\<lambda>n. n\<lparr>n_region_override := r\<rparr>)" "keeps_keys (\<lambda>n. n\<lparr>n_pinned := b\<rparr>)"
  "keeps_keys (\<lambda>n. n\<lparr>n_sni_list := l\<rparr>)" "keeps_keys (\<lambda>n. n\<lparr>n_load := x\<rparr>)" "keeps_keys (\<lambda>n. n\<lparr>n_deploy_status := d\<rparr>)"
  "keeps_keys (\<lambda>n. n\<lparr>n_deploy_log := n_deploy_log n @ t\<rparr>)"
  by (simp_all add: keeps_keys_def provider_pair_def)

text \<open>A write that passes the constraints keeps the rest if ids stay unique and tokens are accounted for.\<close>

lemma ok_write:
  assumes "nodes_ok issued db" and "unique_on n_id ns"
    and "\<And>n t. n \<in> set ns \<Longrightarrow> n_token n = Some t \<Longrightarrow> (n_id n, t) \<in> set issued'" and "set issued \<subseteq> set issued'"
  shows "nodes_ok issued' (snd (write_nodes fails ns db))"
  using assms by (auto simp: nodes_ok_def write_nodes_def)

lemma ok_mono: "nodes_ok issued db \<Longrightarrow> set issued \<subseteq> set issued' \<Longrightarrow> nodes_ok issued' db"
  by (auto simp: nodes_ok_def)

lemma ok_add_user:
  assumes "nodes_ok issued db" and "fresh_id u_id newid (db_users db)"
  shows "nodes_ok issued (snd (getOrCreateUser faults rnd newid (\<lambda>d. d) name db))"
proof -
  have cons: "node_constraints us' ns" if "node_constraints us ns" "u_id ` set us \<subseteq> u_id ` set us'" for us us' ns
    using that by (auto simp: node_constraints_def list_all_iff)
  have ins: "unique_on u_id (insert_ignore u_username (new_user newid name role cid) (db_users db))" for role cid
    using assms by (auto simp: insert_ignore_def nodes_ok_def new_user_def fresh_id_def intro!: unique_append)
  have ins': "u_id ` set (db_users db) \<subseteq> u_id ` set (insert_ignore u_username (new_user newid name role cid) (db_users db))" for role cid
    by (auto simp: insert_ignore_set)
  have upd: "map u_id (sql_update P (\<lambda>r. r\<lparr>u_client_id := c\<rparr>) us) = map u_id us" for P c and us :: "User list"
    by (rule sql_update_keys) simp
  then have upd': "u_id ` set (sql_update P (\<lambda>r. r\<lparr>u_client_id := c\<rparr>) us) = u_id ` set us" for P c and us :: "User list"
    by (metis set_map)
  show ?thesis using assms ins cons [OF _ ins'] upd cons [of "db_users db" "db_nodes db"] upd'
    by (auto simp: getOrCreateUser_def nodes_ok_def Let_def unique_on_def split: option.splits)
qed

lemma ok_append:
  assumes "nodes_ok issued db" and "fresh_id n_id (n_id r) (db_nodes db)" and "n_token r = None"
  shows "nodes_ok issued (snd (write_nodes fails (db_nodes db @ [r]) db))"
  using assms by (intro ok_write [OF assms(1)]) (auto simp: nodes_ok_def intro: unique_fresh)

lemma ok_rewrite:
  assumes "nodes_ok issued db" and "\<And>n. n_id (f n) = n_id n"
    and "\<And>n t. n \<in> set (db_nodes db) \<Longrightarrow> P n \<Longrightarrow> n_token (f n) = Some t \<Longrightarrow> (n_id n, t) \<in> set issued'" and "set issued \<subseteq> set issued'"
  shows "nodes_ok issued' (snd (write_nodes fails (sql_update P f (db_nodes db)) db))"
proof (rule ok_write [OF assms(1) _ _ assms(4)])
  show "unique_on n_id (sql_update P f (db_nodes db))" using assms(1,2) by (auto simp: nodes_ok_def intro: unique_update)
  show "(n_id n, t) \<in> set issued'" if "n \<in> set (sql_update P f (db_nodes db))" "n_token n = Some t" for n t
    using that assms by (auto simp: nodes_ok_def sql_update_set split: if_splits)
qed

lemma ok_submit_ssh:
  assumes "nodes_ok issued db" and "fresh_id n_id newid (db_nodes db)"
  shows "nodes_ok issued (snd (submitNodeSSH faults newid now uid owner ty host sshUser desc slug inst db))"
proof -
  define user addr where "user = (if sshUser = [] then ''root'' else sshUser)" and "addr = host @ '':443''"
  define r where "r = (new_node newid now owner ty addr [] [] desc uid slug inst)\<lparr>n_ssh_host := host, n_ssh_user := user\<rparr>"
  let ?f = "ssh_reset now owner addr host user desc slug inst"
  have a: "nodes_ok issued (snd (write_nodes (faults 2) (db_nodes db @ [r]) db))"
    using assms by (intro ok_append) (simp_all add: r_def new_node_def)
  have b: "nodes_ok issued (snd (write_nodes (faults 2) (sql_update (\<lambda>n. n_id n = i) ?f (db_nodes db)) db))" for i
    using assms(1) by (rule ok_rewrite) (simp_all add: ssh_reset_def)
  show ?thesis
  proof (cases "if faults 1 then None else ssh_existing ty addr slug inst db")
    case None
    then show ?thesis using a assms(1) unfolding submitNodeSSH_def Let_def user_def [symmetric] addr_def [symmetric] r_def [symmetric]
      by (auto split: prod.splits)
  next
    case (Some e)
    then show ?thesis using b [of "n_id e"] assms(1) unfolding submitNodeSSH_def Let_def user_def [symmetric] addr_def [symmetric] r_def [symmetric]
      by (auto split: prod.splits)
  qed
qed

lemma ok_approve:
  assumes "nodes_ok issued db" and "run_op (Approve fails rnd now i) db = (new, db')"
  shows "nodes_ok (issued @ new) db'"
proof (cases "genToken rnd")
  case None
  then show ?thesis using assms by (auto simp: approveNode_def)
next
  case (Some token)
  let ?P = "\<lambda>n. n_id n = i \<and> n_status n = ''pending''"
  let ?f = "\<lambda>n. n\<lparr>n_status := ''approved'', n_token := Some token, n_approved_at := Some (time_unix now), n_last_heartbeat := Some (time_unix now)\<rparr>"
  have b: "nodes_ok (issued @ [(i, token)]) (snd (write_nodes fails (sql_update ?P ?f (db_nodes db)) db))"
    using assms(1) by (rule ok_rewrite) auto
  obtain ok db1 where w: "write_nodes fails (sql_update ?P ?f (db_nodes db)) db = (ok, db1)" by fastforce
  then have "\<not> ok \<Longrightarrow> db1 = db" by (auto simp: write_nodes_def split: if_splits)
  then show ?thesis using assms Some w b by (auto simp: approveNode_def split: if_splits)
qed

lemma ok_heartbeat:
  assumes "nodes_ok issued db"
  shows "nodes_ok issued (snd (updateHeartbeat faults C now token sm bytes fp dp caps db))"
proof -
  have s: "nodes_ok issued (snd (recordNodeTrafficSample fl i ts raw ty sm d))" if "nodes_ok issued d" for fl i ts raw ty sm d
    using that by (auto simp: recordNodeTrafficSample_def nodes_ok_def Let_def)
  have u: "nodes_ok issued (db\<lparr>db_nodes := sql_update P (heartbeat_node t sm fp dp c) (db_nodes db)\<rparr>)" for P t c
    using assms by (rule ok_update) (simp add: keeps_keys_def provider_pair_def heartbeat_node_def)
  show ?thesis using assms s [OF u] u by (simp add: updateHeartbeat_def Let_def split: prod.splits)
qed

lemma ok_step:
  assumes "nodes_ok issued db" and "op_fresh op db" and "run_op op db = (new, db')"
  shows "nodes_ok (issued @ new) db'"
proof (cases op)
  case (AddUser faults rnd newid name)
  then show ?thesis using assms ok_add_user by auto
next
  case (Submit fails newid now uid owner ty addr fp pk desc slug inst)
  then show ?thesis using assms ok_append [OF assms(1), of "new_node newid now owner ty addr fp pk desc uid slug inst" fails]
    by (auto simp: submitNode_def new_node_def split: prod.splits)
next
  case (SubmitSSH faults newid now uid owner ty host sshUser desc slug inst)
  then show ?thesis using assms ok_submit_ssh by auto
next
  case (Approve fails rnd now i)
  then show ?thesis using assms ok_approve by simp
next
  case (Decommission faults C i)
  have "nodes_ok issued (snd (set_node (faults 1) i (\<lambda>n. n\<lparr>n_status := ''decommissioned''\<rparr>) db))"
    using assms(1) by (rule ok_set_node) (simp add: keeps_keys_def provider_pair_def)
  then show ?thesis using assms Decommission
    by (auto simp: decommissionNode_def deleteBlacklistEntryByAddr_def deleteTorrentBlockedEntryByAddr_def nodes_ok_def split: option.splits prod.splits if_splits)
next
  case (Update faults now i addr desc loc prov slug inst)
  have b: "nodes_ok issued (snd (write_nodes (faults 1) (sql_update (\<lambda>n. n_id n = i) (edit_node addr desc loc prov slug inst) (db_nodes db)) db))"
    using assms(1) by (rule ok_rewrite) (use assms(1) in \<open>auto simp: edit_node_def nodes_ok_def\<close>)
  have r: "nodes_ok issued (snd (recordAddrRotationIfChanged fails i ty old addr ts d))" if "nodes_ok issued d" for fails ty old ts d
    using that by (auto simp: recordAddrRotationIfChanged_def nodes_ok_def)
  have "nodes_ok issued (snd (updateNode faults now i addr desc loc prov slug inst db))"
  proof -
    obtain ok d where w: "write_nodes (faults 1) (sql_update (\<lambda>n. n_id n = i) (edit_node addr desc loc prov slug inst) (db_nodes db)) db = (ok, d)"
      by fastforce
    obtain ty old where t: "(case (if faults 0 then None else sql_row n_id i (db_nodes db)) of None \<Rightarrow> ([], []) | Some n \<Rightarrow> (n_type n, n_addr n)) = (ty, old)"
      by fastforce
    have "nodes_ok issued d" using b unfolding w by simp
    then show ?thesis unfolding updateNode_def w t using r [of d] by simp
  qed
  then show ?thesis using assms(3) Update by auto
next
  case (Heartbeat faults C now token sm bytes fp dp caps)
  then show ?thesis using assms ok_heartbeat by auto
next
  case (Delete fails i)
  then show ?thesis using assms by (auto simp: deleteNode_def nodes_ok_def constraints_delete split: if_splits)
qed (use assms in \<open>auto simp: setNodeStatus_def setNodeRegionOverride_def setNodePinned_def setNodeSNIList_def setNodeLoad_def
    setDeployStatus_def appendNodeDeployLog_def intro: ok_set_node\<close>)

lemma ok_history: "node_history issued db \<Longrightarrow> nodes_ok issued db"
proof (induction rule: node_history.induct)
  case fresh_database
  then show ?case by (simp add: nodes_ok_def empty_db_def node_constraints_def distinct_some_def)
next
  case (next_operation issued db op new db')
  then show ?case using ok_step by blast
qed

section \<open>Who is let in\<close>

lemma scanNodes_mem: "m \<in> set (scanNodes C db ns) \<longleftrightarrow>
    (\<exists>n u. n \<in> set ns \<and> sql_row u_id (n_owner_id n) (db_users db) = Some u \<and> m = scan_node C u n)"
  by (force simp: scanNodes_def List.map_filter_def split: option.splits)

lemma scan_node_simps [simp]:
  "NodeRow.truncate (scan_node C u n) = n" "n_id (scan_node C u n) = n_id n" "n_addr (scan_node C u n) = n_addr n"
  "n_type (scan_node C u n) = n_type n" "n_status (scan_node C u n) = n_status n" "n_token (scan_node C u n) = n_token n"
  "n_last_heartbeat (scan_node C u n) = n_last_heartbeat n"
  by (simp_all add: scan_node_def NodeRow.defs)

lemma nodeByToken_row:
  assumes "nodeByToken fails C token db = Some (Some m)"
  shows "\<exists>n \<in> set (db_nodes db). NodeRow.truncate m = n \<and> n_token n = Some token \<and> n_status n = ''approved''"
proof -
  have "m \<in> set (scanNodes C db (filter (\<lambda>n. n_token n = Some token \<and> n_status n = ''approved'') (db_nodes db)))"
    using assms by (auto simp: nodeByToken_def first_node_def split: if_splits list.splits)
  then show ?thesis by (auto simp: scanNodes_mem)
qed

lemma distinct_some_eq:
  assumes "distinct_some (map f xs)" and "x \<in> set xs" "y \<in> set xs" and "f x = Some t" "f y = Some t"
  shows "x = y"
proof -
  have "distinct (map f (filter (\<lambda>x. f x \<noteq> None) xs))"
    using assms(1) unfolding distinct_some_def filter_map comp_def .
  then have "inj_on f (set (filter (\<lambda>x. f x \<noteq> None) xs))" unfolding distinct_map by simp
  then show ?thesis by (rule inj_onD) (use assms in simp_all)
qed

text \<open>Property C33: (node tokens) after any history of operations, with any engine failures, a token is accepted for at most one
  node, that node is approved, and the token was handed out when this node was approved.\<close>

theorem node_tokens:
  assumes "node_history issued db" and "nodeByToken fails C token db = Some (Some m)"
  shows "n_status m = ''approved'' \<and> n_token m = Some token \<and> (n_id m, token) \<in> set issued \<and>
    (\<forall>n \<in> set (db_nodes db). n_token n = Some token \<longrightarrow> n_id n = n_id m)"
proof -
  have ok: "nodes_ok issued db" using ok_history assms(1) .
  obtain n where n: "n \<in> set (db_nodes db)" "NodeRow.truncate m = n" "n_token n = Some token" "n_status n = ''approved''"
    using nodeByToken_row [OF assms(2)] by blast
  have m: "n_id m = n_id n" "n_status m = n_status n" "n_token m = n_token n" using n(2) by (auto simp: NodeRow.defs)
  have iss: "(n_id n, token) \<in> set issued" using ok n(1,3) by (simp add: nodes_ok_def)
  have one: "n' = n" if "n' \<in> set (db_nodes db)" "n_token n' = Some token" for n'
    using distinct_some_eq [of n_token "db_nodes db" n' n token] ok n that by (simp add: nodes_ok_def node_constraints_def)
  show ?thesis unfolding m using n(3,4) iss one by simp
qed

definition sample_caps :: caps_codec where
  "sample_caps = \<lparr>caps_encode = (\<lambda>m. None), caps_decode = (\<lambda>s. None)\<rparr>"

definition sample_user :: User where
  "sample_user = new_user 1 ''ann'' ''admin'' (''clt_'' @ hex_encode [1])"

definition sample_node :: NodeRow where
  "sample_node = new_node 1 0 1 ''exit'' ''e:443'' [] [] [] ''uid'' [] []"

definition approved_node :: NodeRow where
  "approved_node = sample_node\<lparr>n_status := ''approved'', n_token := Some (b64_encode [0, 0, 0]), n_approved_at := Some 0, n_last_heartbeat := Some 0\<rparr>"

lemma sample_history: "node_history [(1, b64_encode [0, 0, 0])] (empty_db\<lparr>db_users := [sample_user], db_nodes := [approved_node]\<rparr>)"
proof -
  let ?d1 = "empty_db\<lparr>db_users := [sample_user]\<rparr>"
  let ?d2 = "empty_db\<lparr>db_users := [sample_user], db_nodes := [sample_node]\<rparr>"
  have "run_op (AddUser (\<lambda>i. False) (Some [1]) 1 ''ann'') empty_db = ([], ?d1)"
    by (simp add: getOrCreateUser_def genClientID_def insert_ignore_def empty_db_def sample_user_def Let_def)
  then have "node_history ([] @ []) ?d1"
    by (intro next_operation [of "[]" empty_db "AddUser (\<lambda>i. False) (Some [1]) 1 ''ann''"] fresh_database) (simp_all add: fresh_id_def empty_db_def)
  moreover have "run_op (Submit False 1 0 ''uid'' 1 ''exit'' ''e:443'' [] [] [] [] []) ?d1 = ([], ?d2)"
    by (simp add: submitNode_def write_nodes_def node_constraints_def distinct_some_def provider_pair_def sample_node_def new_node_def
        nullIfEmpty_def sample_user_def new_user_def empty_db_def)
  ultimately have "node_history (([] @ []) @ []) ?d2"
    by (intro next_operation [of "[] @ []" ?d1 "Submit False 1 0 ''uid'' 1 ''exit'' ''e:443'' [] [] [] [] []"]) (simp_all add: fresh_id_def empty_db_def)
  moreover have "run_op (Approve False (Some [0, 0, 0]) 0 1) ?d2 = ([(1, b64_encode [0, 0, 0])], empty_db\<lparr>db_users := [sample_user], db_nodes := [approved_node]\<rparr>)"
    by (simp add: approveNode_def genToken_def write_nodes_def node_constraints_def distinct_some_def provider_pair_def sample_node_def new_node_def
        nullIfEmpty_def sample_user_def new_user_def empty_db_def sql_update_def approved_node_def time_unix_def)
  ultimately have "node_history ((([] @ []) @ []) @ [(1, b64_encode [0, 0, 0])]) (empty_db\<lparr>db_users := [sample_user], db_nodes := [approved_node]\<rparr>)"
    by (intro next_operation [of "([] @ []) @ []" ?d2 "Approve False (Some [0, 0, 0]) 0 1"]) simp_all
  then show ?thesis by simp
qed

theorem node_tokens_witness:
  "\<exists>m. nodeByToken False sample_caps (b64_encode [0, 0, 0]) (empty_db\<lparr>db_users := [sample_user], db_nodes := [approved_node]\<rparr>) = Some (Some m) \<and>
     n_status m = ''approved'' \<and> (n_id m, b64_encode [0, 0, 0]) \<in> set [(1, b64_encode [0, 0, 0])]"
proof -
  let ?db = "empty_db\<lparr>db_users := [sample_user], db_nodes := [approved_node]\<rparr>"
  have "nodeByToken False sample_caps (b64_encode [0, 0, 0]) ?db = Some (Some (scan_node sample_caps sample_user approved_node))"
    by (simp add: nodeByToken_def scanNodes_def List.map_filter_def first_node_def approved_node_def sample_node_def new_node_def
        sample_user_def new_user_def sql_row_def)
  then show ?thesis using node_tokens [OF sample_history] by blast
qed

section \<open>Approval and policies\<close>

text \<open>Approving a node that is not pending changes nothing, but hands out a token that no node has.\<close>

lemma approve_not_pending:
  assumes "genToken rnd = Some token" and "\<And>n. n \<in> set (db_nodes db) \<Longrightarrow> n_id n = i \<Longrightarrow> n_status n \<noteq> ''pending''"
    and "node_constraints (db_users db) (db_nodes db)"
  shows "approveNode False rnd now i db = ((token, True), db)"
proof -
  have "sql_update (\<lambda>n. n_id n = i \<and> n_status n = ''pending'') f (db_nodes db) = db_nodes db" for f
    using assms(2) by (intro sql_update_none) auto
  then show ?thesis using assms by (simp add: approveNode_def write_nodes_def)
qed

text \<open>A decommissioned node is no longer let in, whatever its token was.\<close>

lemma decommissioned_out:
  assumes "nodes_ok issued db" and "n \<in> set (db_nodes db)" "n_token n = Some token"
    and "decommissionNode faults C (n_id n) db = (True, db')"
  shows "nodeByToken False C token db' = Some None"
proof -
  let ?f = "\<lambda>n. n\<lparr>n_status := ''decommissioned''\<rparr>"
  have nodes: "db_nodes db' = sql_update (\<lambda>x. n_id x = n_id n) ?f (db_nodes db)"
    using assms(4) by (auto simp: decommissionNode_def set_node_def deleteBlacklistEntryByAddr_def deleteTorrentBlockedEntryByAddr_def
        split: option.splits if_splits)
  have "x = n" if "x \<in> set (db_nodes db)" "n_token x = Some token" for x
    using distinct_some_eq [of n_token "db_nodes db" x n token] assms that by (simp add: nodes_ok_def node_constraints_def)
  then have "filter (\<lambda>n. n_token n = Some token \<and> n_status n = ''approved'') (db_nodes db') = []"
    unfolding nodes filter_empty_conv by (auto simp: sql_update_set)
  then show ?thesis by (simp add: nodeByToken_def scanNodes_def first_node_def List.map_filter_def)
qed

text \<open>The policies of an address are lists of addresses. Decommissioning removes them for the address of the
  node, also when another node that is in service has it; and a node that gets a new address leaves them behind.\<close>

lemma decommission_lifts_block:
  assumes "nodeByID False C i db = Some (Some m)" and "n_addr m = addr"
  shows "addr \<notin> a_addr ` set (db_torrent (snd (decommissionNode (\<lambda>k. False) C i db)))"
proof -
  have "m \<in> set (scanNodes C db (filter (\<lambda>n. n_id n = i) (db_nodes db)))"
    using assms(1) by (auto simp: nodeByID_def first_node_def split: list.splits)
  then have "rows_affected (\<lambda>n. n_id n = i) (db_nodes db) > 0" by (auto simp: scanNodes_mem rows_affected_def filter_empty_conv)
  then show ?thesis using assms
    by (auto simp: decommissionNode_def set_node_def deleteBlacklistEntryByAddr_def deleteTorrentBlockedEntryByAddr_def)
qed

lemma update_keeps_policies:
  "db_torrent (snd (updateNode faults now i addr desc loc prov slug inst db)) = db_torrent db \<and>
   db_blacklist (snd (updateNode faults now i addr desc loc prov slug inst db)) = db_blacklist db"
  by (auto simp: updateNode_def write_nodes_def recordAddrRotationIfChanged_def split: prod.splits)

end
