(* ===== verification/Arbiter_Lists.thy ===== *)
theory Arbiter_Lists
  imports Arbiter_Nodes
begin

text \<open>
  The policies the arbiter distributes to exits: whitelist, anonymous allowlist with its token, region blocks, blacklist and
  the exits without torrents, with their tables (\<open>src/snc-arbiter/db.go\<close>), the administration forms and the node endpoints
  (\<open>admin_whitelist.go\<close>, \<open>admin_blacklist.go\<close>, \<open>admin_torrent_blocked.go\<close>, \<open>admin_service_blocks.go\<close>,
  \<open>admin_anon_bootstrap.go\<close>) and the signed documents (\<open>signing.go\<close>). JSON and Ed25519 are the functions of \<open>rules_codec\<close>;
  a Go slice is \<open>None\<close> when nil. The pages that only render are not modelled.
\<close>

section \<open>Signed documents\<close>

record SignedWhitelist =
  sw_TS :: int
  sw_Entries :: "(string \<times> string) list option"
  sw_Sig :: string

record SignedServiceRegionBlocks =
  sb_TS :: int
  sb_Entries :: "(string \<times> string \<times> string list option) list option"
  sb_Sig :: string

record SignedAnonBootstrap =
  sa_TS :: int
  sa_Token :: string
  sa_Entries :: "(string \<times> string) list option"
  sa_Sig :: string

record SignedBlacklist =
  bl_TS :: int
  bl_Addrs :: "string list option"
  bl_Sig :: string

record SignedTorrentBlocked =
  tb_TS :: int
  tb_Addrs :: "string list option"
  tb_SelfAllowed :: bool
  tb_Sig :: string

text \<open>\<open>canon_\<close> is the JSON of the part that is signed, \<open>enc_\<close> and \<open>dec_\<close> the document. \<open>rules_json_ok\<close> is
  what \<open>encoding/json\<close> documents of strings that are valid UTF-8, \<open>signer_ok\<close> that a key verifies its signatures.\<close>

record rules_codec =
  canon_rules :: "int \<Rightarrow> (string \<times> string) list option \<Rightarrow> bytes"
  canon_blocks :: "int \<Rightarrow> (string \<times> string \<times> string list option) list option \<Rightarrow> bytes"
  canon_anon :: "int \<Rightarrow> string \<Rightarrow> (string \<times> string) list option \<Rightarrow> bytes"
  canon_addrs :: "int \<Rightarrow> string list option \<Rightarrow> bytes"
  enc_whitelist :: "SignedWhitelist \<Rightarrow> bytes"
  dec_whitelist :: "bytes \<Rightarrow> SignedWhitelist option"
  enc_blocks :: "SignedServiceRegionBlocks \<Rightarrow> bytes"
  dec_blocks :: "bytes \<Rightarrow> SignedServiceRegionBlocks option"
  enc_anon :: "SignedAnonBootstrap \<Rightarrow> bytes"
  dec_anon :: "bytes \<Rightarrow> SignedAnonBootstrap option"
  enc_blacklist :: "SignedBlacklist \<Rightarrow> bytes"
  dec_blacklist :: "bytes \<Rightarrow> SignedBlacklist option"
  enc_torrent :: "SignedTorrentBlocked \<Rightarrow> bytes"
  dec_torrent :: "bytes \<Rightarrow> SignedTorrentBlocked option"
  ed_sign :: "bytes \<Rightarrow> bytes \<Rightarrow> bytes"
  ed_verify :: "bytes \<Rightarrow> bytes \<Rightarrow> bytes \<Rightarrow> bool"
  valid_utf8 :: "string \<Rightarrow> bool"

definition pair_ok :: "rules_codec \<Rightarrow> string \<times> string \<Rightarrow> bool" where
  "pair_ok C p \<longleftrightarrow> valid_utf8 C (fst p) \<and> valid_utf8 C (snd p)"

definition slice_all :: "('a \<Rightarrow> bool) \<Rightarrow> 'a list option \<Rightarrow> bool" where
  "slice_all P xs \<longleftrightarrow> (\<forall>ys. xs = Some ys \<longrightarrow> list_all P ys)"

definition rules_json_ok :: "rules_codec \<Rightarrow> bool" where
  "rules_json_ok C \<longleftrightarrow> (\<forall>s. valid_utf8 C (b64_encode s)) \<and>
     (\<forall>w. slice_all (pair_ok C) (sw_Entries w) \<longrightarrow> valid_utf8 C (sw_Sig w) \<longrightarrow> dec_whitelist C (enc_whitelist C w) = Some w) \<and>
     (\<forall>w. slice_all (\<lambda>(t, v, rs). pair_ok C (t, v) \<and> slice_all (valid_utf8 C) rs) (sb_Entries w) \<longrightarrow> valid_utf8 C (sb_Sig w) \<longrightarrow>
        dec_blocks C (enc_blocks C w) = Some w) \<and>
     (\<forall>w. slice_all (pair_ok C) (sa_Entries w) \<longrightarrow> valid_utf8 C (sa_Token w) \<longrightarrow> valid_utf8 C (sa_Sig w) \<longrightarrow> dec_anon C (enc_anon C w) = Some w) \<and>
     (\<forall>w. slice_all (valid_utf8 C) (bl_Addrs w) \<longrightarrow> valid_utf8 C (bl_Sig w) \<longrightarrow> dec_blacklist C (enc_blacklist C w) = Some w) \<and>
     (\<forall>w. slice_all (valid_utf8 C) (tb_Addrs w) \<longrightarrow> valid_utf8 C (tb_Sig w) \<longrightarrow> dec_torrent C (enc_torrent C w) = Some w)"

definition signer_ok :: "rules_codec \<Rightarrow> bytes \<Rightarrow> bytes \<Rightarrow> bool" where
  "signer_ok C priv pub \<longleftrightarrow> (\<forall>m. length (ed_sign C priv m) = 64 \<and> ed_verify C pub m (ed_sign C priv m))"

definition signWhitelist :: "rules_codec \<Rightarrow> bytes \<Rightarrow> gotime \<Rightarrow> RuleRow list \<Rightarrow> bytes" where
  "signWhitelist C priv now entries =
     (let wire = Some (map (\<lambda>e. (r_type e, r_value e)) entries); ts = time_unix now;
          sig = ed_sign C priv (canon_rules C ts wire) in
      enc_whitelist C \<lparr>sw_TS = ts, sw_Entries = wire, sw_Sig = b64_encode sig\<rparr>)"

record ServiceRegionBlock =
  rb_type :: string
  rb_value :: string
  rb_regions :: "string list option"

definition signServiceRegionBlocks :: "rules_codec \<Rightarrow> bytes \<Rightarrow> gotime \<Rightarrow> ServiceRegionBlock list \<Rightarrow> bytes" where
  "signServiceRegionBlocks C priv now entries =
     (let wire = Some (map (\<lambda>e. (rb_type e, rb_value e, rb_regions e)) entries); ts = time_unix now;
          sig = ed_sign C priv (canon_blocks C ts wire) in
      enc_blocks C \<lparr>sb_TS = ts, sb_Entries = wire, sb_Sig = b64_encode sig\<rparr>)"

definition signAnonBootstrap :: "rules_codec \<Rightarrow> bytes \<Rightarrow> gotime \<Rightarrow> string \<Rightarrow> RuleRow list \<Rightarrow> bytes" where
  "signAnonBootstrap C priv now token entries =
     (let wire = Some (map (\<lambda>e. (r_type e, r_value e)) entries); ts = time_unix now;
          sig = ed_sign C priv (canon_anon C ts token wire) in
      enc_anon C \<lparr>sa_TS = ts, sa_Token = token, sa_Entries = wire, sa_Sig = b64_encode sig\<rparr>)"

definition signBlacklist :: "rules_codec \<Rightarrow> bytes \<Rightarrow> gotime \<Rightarrow> AddrRow list \<Rightarrow> bytes" where
  "signBlacklist C priv now entries =
     (let addrs = Some (map a_addr entries); ts = time_unix now; sig = ed_sign C priv (canon_addrs C ts addrs) in
      enc_blacklist C \<lparr>bl_TS = ts, bl_Addrs = addrs, bl_Sig = b64_encode sig\<rparr>)"

definition signTorrentBlocked :: "rules_codec \<Rightarrow> bytes \<Rightarrow> gotime \<Rightarrow> AddrRow list \<Rightarrow> string \<Rightarrow> bytes" where
  "signTorrentBlocked C priv now entries callerAddr =
     (let addrs = Some (map a_addr entries); selfBlocked = list_ex (\<lambda>e. a_addr e = callerAddr) entries; ts = time_unix now;
          sig = ed_sign C priv (canon_addrs C ts addrs) in
      enc_torrent C \<lparr>tb_TS = ts, tb_Addrs = addrs, tb_SelfAllowed = (\<not> selfBlocked), tb_Sig = b64_encode sig\<rparr>)"

section \<open>Tables\<close>

definition rule_types :: "string list" where "rule_types = [''domain'', ''wildcard'', ''cidr'']"

definition listWhitelistEntries :: "bool \<Rightarrow> database \<Rightarrow> RuleRow list option" where
  "listWhitelistEntries fails db = (if fails then None else Some (sort_key r_id (db_whitelist db)))"

definition addWhitelistEntry :: "bool \<Rightarrow> int \<Rightarrow> gotime \<Rightarrow> string \<Rightarrow> string \<Rightarrow> database \<Rightarrow> bool \<times> database" where
  "addWhitelistEntry fails newid now entryType value db = (if fails \<or> entryType \<notin> set rule_types then (False, db)
     else (True, db\<lparr>db_whitelist := insert_ignore r_value
       \<lparr>r_id = newid, r_type = entryType, r_value = value, r_created_at = time_unix now\<rparr> (db_whitelist db)\<rparr>))"

definition deleteWhitelistEntry :: "bool \<Rightarrow> int \<Rightarrow> database \<Rightarrow> bool \<times> database" where
  "deleteWhitelistEntry fails i db = (if fails then (False, db)
     else (True, db\<lparr>db_whitelist := sql_delete (\<lambda>e. r_id e = i) (db_whitelist db)\<rparr>))"

definition listAnonAllowlistEntries :: "bool \<Rightarrow> database \<Rightarrow> RuleRow list option" where
  "listAnonAllowlistEntries fails db = (if fails then None else Some (sort_key r_id (db_anon db)))"

definition addAnonAllowlistEntry :: "bool \<Rightarrow> int \<Rightarrow> gotime \<Rightarrow> string \<Rightarrow> string \<Rightarrow> database \<Rightarrow> bool \<times> database" where
  "addAnonAllowlistEntry fails newid now entryType value db = (if fails \<or> entryType \<notin> set rule_types then (False, db)
     else (True, db\<lparr>db_anon := insert_ignore r_value
       \<lparr>r_id = newid, r_type = entryType, r_value = value, r_created_at = time_unix now\<rparr> (db_anon db)\<rparr>))"

definition deleteAnonAllowlistEntry :: "bool \<Rightarrow> int \<Rightarrow> database \<Rightarrow> bool \<times> database" where
  "deleteAnonAllowlistEntry fails i db = (if fails then (False, db)
     else (True, db\<lparr>db_anon := sql_delete (\<lambda>e. r_id e = i) (db_anon db)\<rparr>))"

text \<open>Statement 0 counts, 1 and 2 insert.\<close>

definition seedAnonAllowlist :: "faults \<Rightarrow> (nat \<Rightarrow> int) \<Rightarrow> gotime \<Rightarrow> database \<Rightarrow> bool \<times> database" where
  "seedAnonAllowlist faults newid now db =
     (if faults 0 then (False, db)
      else if length (db_anon db) > 0 then (True, db)
      else case addAnonAllowlistEntry (faults 1) (newid 0) now ''domain'' ''shortnerdcat.navlink.net'' db of
        (ok, db1) \<Rightarrow> if \<not> ok then (False, db1) else addAnonAllowlistEntry (faults 2) (newid 1) now ''domain'' ''navlink.net'' db1)"

definition anonBootstrapTokenSettingKey :: string where "anonBootstrapTokenSettingKey = ''anon_bootstrap_token''"

definition store_anon_token :: "bool \<Rightarrow> bytes option \<Rightarrow> gotime \<Rightarrow> string \<Rightarrow> database \<Rightarrow> string option \<times> database" where
  "store_anon_token fails rnd now who db = (case genToken rnd of None \<Rightarrow> (None, db)
     | Some tok \<Rightarrow> (case setSetting fails now anonBootstrapTokenSettingKey tok who db of (ok, db1) \<Rightarrow> (if ok then Some tok else None, db1)))"

definition getOrCreateAnonBootstrapToken :: "faults \<Rightarrow> bytes option \<Rightarrow> gotime \<Rightarrow> database \<Rightarrow> string option \<times> database" where
  "getOrCreateAnonBootstrapToken faults rnd now db = (case getSetting (faults 0) anonBootstrapTokenSettingKey db of
     None \<Rightarrow> (None, db)
   | Some v \<Rightarrow> (if coalesce v \<noteq> [] then (Some (coalesce v), db) else store_anon_token (faults 1) rnd now ''system'' db))"

definition regenerateAnonBootstrapToken :: "bool \<Rightarrow> bytes option \<Rightarrow> gotime \<Rightarrow> string \<Rightarrow> database \<Rightarrow> string option \<times> database" where
  "regenerateAnonBootstrapToken fails rnd now updatedBy db = store_anon_token fails rnd now updatedBy db"

fun join_comma :: "string list \<Rightarrow> string" where
  "join_comma [] = []"
| "join_comma [s] = s"
| "join_comma (s # t # ss) = s @ '','' @ join_comma (t # ss)"

definition csv_regions :: "string \<Rightarrow> string list option" where
  "csv_regions csv = (let rs = filter (\<lambda>r. r \<noteq> []) (map TrimSpace (split_on CHR '','' csv)) in if rs = [] then None else Some rs)"

definition listServiceRegionBlocks :: "bool \<Rightarrow> database \<Rightarrow> ServiceRegionBlock list option" where
  "listServiceRegionBlocks fails db = (if fails then None
     else Some (map (\<lambda>e. \<lparr>rb_type = b_type e, rb_value = b_value e, rb_regions = csv_regions (b_blocked_regions e)\<rparr>) (sort_key b_id (db_blocks db))))"

definition addServiceRegionBlock :: "bool \<Rightarrow> int \<Rightarrow> gotime \<Rightarrow> string \<Rightarrow> string \<Rightarrow> string list \<Rightarrow> string \<Rightarrow> database \<Rightarrow> bool \<times> database" where
  "addServiceRegionBlock fails newid now entryType value blockedRegions reason db = (if fails \<or> entryType \<notin> set rule_types then (False, db)
     else (True, db\<lparr>db_blocks := db_blocks db @ [\<lparr>b_id = newid, b_type = entryType, b_value = value,
       b_blocked_regions = join_comma blockedRegions, b_reason = reason, b_created_at = time_unix now\<rparr>]\<rparr>))"

definition deleteServiceRegionBlock :: "bool \<Rightarrow> int \<Rightarrow> database \<Rightarrow> bool \<times> database" where
  "deleteServiceRegionBlock fails i db = (if fails then (False, db)
     else (True, db\<lparr>db_blocks := sql_delete (\<lambda>e. b_id e = i) (db_blocks db)\<rparr>))"

definition addr_row :: "int \<Rightarrow> gotime \<Rightarrow> string \<Rightarrow> string \<Rightarrow> AddrRow" where
  "addr_row newid now addr reason = \<lparr>a_id = newid, a_addr = addr, a_reason = reason, a_created_at = time_unix now\<rparr>"

definition listBlacklistEntries :: "bool \<Rightarrow> database \<Rightarrow> AddrRow list option" where
  "listBlacklistEntries fails db = (if fails then None else Some (sort_key a_id (db_blacklist db)))"

definition addBlacklistEntry :: "bool \<Rightarrow> int \<Rightarrow> gotime \<Rightarrow> string \<Rightarrow> string \<Rightarrow> database \<Rightarrow> bool \<times> database" where
  "addBlacklistEntry fails newid now addr reason db = (if fails then (False, db)
     else (True, db\<lparr>db_blacklist := insert_ignore a_addr (addr_row newid now addr reason) (db_blacklist db)\<rparr>))"

definition deleteBlacklistEntry :: "bool \<Rightarrow> int \<Rightarrow> database \<Rightarrow> bool \<times> database" where
  "deleteBlacklistEntry fails i db = (if fails then (False, db)
     else (True, db\<lparr>db_blacklist := sql_delete (\<lambda>e. a_id e = i) (db_blacklist db)\<rparr>))"

definition listTorrentBlockedEntries :: "bool \<Rightarrow> database \<Rightarrow> AddrRow list option" where
  "listTorrentBlockedEntries fails db = (if fails then None else Some (sort_key a_id (db_torrent db)))"

definition addTorrentBlockedEntry :: "bool \<Rightarrow> int \<Rightarrow> gotime \<Rightarrow> string \<Rightarrow> string \<Rightarrow> database \<Rightarrow> bool \<times> database" where
  "addTorrentBlockedEntry fails newid now addr reason db = (if fails then (False, db)
     else (True, db\<lparr>db_torrent := insert_ignore a_addr (addr_row newid now addr reason) (db_torrent db)\<rparr>))"

definition deleteTorrentBlockedEntry :: "bool \<Rightarrow> int \<Rightarrow> database \<Rightarrow> bool \<times> database" where
  "deleteTorrentBlockedEntry fails i db = (if fails then (False, db)
     else (True, db\<lparr>db_torrent := sql_delete (\<lambda>e. a_id e = i) (db_torrent db)\<rparr>))"

definition listExcludedNodes :: "bool \<Rightarrow> database \<Rightarrow> AddrRow list option" where
  "listExcludedNodes fails db = (if fails then None else Some (sort_key a_id (db_excluded db)))"

definition addExcludedNode :: "bool \<Rightarrow> int \<Rightarrow> gotime \<Rightarrow> string \<Rightarrow> string \<Rightarrow> database \<Rightarrow> bool \<times> database" where
  "addExcludedNode fails newid now addr reason db = (if fails then (False, db)
     else (True, db\<lparr>db_excluded := insert_ignore a_addr (addr_row newid now addr reason) (db_excluded db)\<rparr>))"

definition deleteExcludedNode :: "bool \<Rightarrow> int \<Rightarrow> database \<Rightarrow> bool \<times> database" where
  "deleteExcludedNode fails i db = (if fails then (False, db)
     else (True, db\<lparr>db_excluded := sql_delete (\<lambda>e. a_id e = i) (db_excluded db)\<rparr>))"

section \<open>Administration forms\<close>

record form =
  fm_ok :: bool
  fm_value :: "string \<Rightarrow> string"
  fm_values :: "string \<Rightarrow> string list"

datatype admin_reply = HttpError string int | Redirect string | ErrorPage string

text \<open>A failed statement is only logged.\<close>

definition adminWhitelistAdd :: "bool \<Rightarrow> int \<Rightarrow> gotime \<Rightarrow> form \<Rightarrow> database \<Rightarrow> admin_reply \<times> database" where
  "adminWhitelistAdd fails newid now f db =
     (if \<not> fm_ok f then (HttpError ''bad request'' 400, db)
      else let entryType = fm_value f ''type''; value = TrimSpace (fm_value f ''value'') in
        if entryType \<noteq> ''domain'' \<and> entryType \<noteq> ''wildcard'' \<and> entryType \<noteq> ''cidr'' then (HttpError ''invalid type'' 400, db)
        else if value = [] then (Redirect ''/admin/whitelist'', db)
        else (Redirect ''/admin/whitelist'', snd (addWhitelistEntry fails newid now entryType value db)))"

definition adminAnonBootstrapAdd :: "bool \<Rightarrow> int \<Rightarrow> gotime \<Rightarrow> form \<Rightarrow> database \<Rightarrow> admin_reply \<times> database" where
  "adminAnonBootstrapAdd fails newid now f db =
     (if \<not> fm_ok f then (HttpError ''bad request'' 400, db)
      else let entryType = fm_value f ''type''; value = TrimSpace (fm_value f ''value'') in
        if entryType \<noteq> ''domain'' \<and> entryType \<noteq> ''wildcard'' \<and> entryType \<noteq> ''cidr'' then (HttpError ''invalid type'' 400, db)
        else if value = [] then (Redirect ''/admin/anon-bootstrap'', db)
        else (Redirect ''/admin/anon-bootstrap'', snd (addAnonAllowlistEntry fails newid now entryType value db)))"

definition admin_delete :: "(int \<Rightarrow> database \<Rightarrow> bool \<times> database) \<Rightarrow> string \<Rightarrow> form \<Rightarrow> database \<Rightarrow> admin_reply \<times> database" where
  "admin_delete del page f db =
     (if \<not> fm_ok f then (HttpError ''bad request'' 400, db)
      else case ParseInt10 (fm_value f ''id'') of None \<Rightarrow> (HttpError ''bad id'' 400, db)
        | Some i \<Rightarrow> (Redirect page, snd (del i db)))"

definition adminWhitelistDelete :: "bool \<Rightarrow> form \<Rightarrow> database \<Rightarrow> admin_reply \<times> database" where
  "adminWhitelistDelete fails = admin_delete (deleteWhitelistEntry fails) ''/admin/whitelist''"

definition adminAnonBootstrapDelete :: "bool \<Rightarrow> form \<Rightarrow> database \<Rightarrow> admin_reply \<times> database" where
  "adminAnonBootstrapDelete fails = admin_delete (deleteAnonAllowlistEntry fails) ''/admin/anon-bootstrap''"

definition adminBlacklistDelete :: "bool \<Rightarrow> form \<Rightarrow> database \<Rightarrow> admin_reply \<times> database" where
  "adminBlacklistDelete fails = admin_delete (deleteBlacklistEntry fails) ''/admin/whitelist''"

definition adminTorrentBlockedDelete :: "bool \<Rightarrow> form \<Rightarrow> database \<Rightarrow> admin_reply \<times> database" where
  "adminTorrentBlockedDelete fails = admin_delete (deleteTorrentBlockedEntry fails) ''/admin/whitelist''"

definition adminServiceBlocksDelete :: "bool \<Rightarrow> form \<Rightarrow> database \<Rightarrow> admin_reply \<times> database" where
  "adminServiceBlocksDelete fails = admin_delete (deleteServiceRegionBlock fails) ''/admin/service-blocks''"

definition admin_addr_add :: "(string \<Rightarrow> string \<Rightarrow> database \<Rightarrow> bool \<times> database) \<Rightarrow> form \<Rightarrow> database \<Rightarrow> admin_reply \<times> database" where
  "admin_addr_add add f db =
     (if \<not> fm_ok f then (HttpError ''bad request'' 400, db)
      else let addr = TrimSpace (fm_value f ''addr''); reason = TrimSpace (fm_value f ''reason'') in
        if addr = [] then (Redirect ''/admin/whitelist'', db) else (Redirect ''/admin/whitelist'', snd (add addr reason db)))"

definition adminBlacklistAdd :: "bool \<Rightarrow> int \<Rightarrow> gotime \<Rightarrow> form \<Rightarrow> database \<Rightarrow> admin_reply \<times> database" where
  "adminBlacklistAdd fails newid now = admin_addr_add (addBlacklistEntry fails newid now)"

definition adminTorrentBlockedAdd :: "bool \<Rightarrow> int \<Rightarrow> gotime \<Rightarrow> form \<Rightarrow> database \<Rightarrow> admin_reply \<times> database" where
  "adminTorrentBlockedAdd fails newid now = admin_addr_add (addTorrentBlockedEntry fails newid now)"

definition validRegionCodes :: "string list" where
  "validRegionCodes = [''RU'', ''EU'', ''US'', ''CN'', ''IR'', ''OTHER'', ''HETZNER'']"

definition adminServiceBlocksAdd :: "bool \<Rightarrow> int \<Rightarrow> gotime \<Rightarrow> form \<Rightarrow> database \<Rightarrow> admin_reply \<times> database" where
  "adminServiceBlocksAdd fails newid now f db =
     (if \<not> fm_ok f then (HttpError ''bad request'' 400, db)
      else let entryType = fm_value f ''type''; value = TrimSpace (fm_value f ''value''); reason = TrimSpace (fm_value f ''reason'');
               regions = filter (\<lambda>r. r \<in> set validRegionCodes) (map (\<lambda>r. map to_upper (TrimSpace r)) (fm_values f ''regions'')) in
        if entryType \<noteq> ''domain'' \<and> entryType \<noteq> ''wildcard'' \<and> entryType \<noteq> ''cidr'' then (HttpError ''invalid type'' 400, db)
        else if value = [] \<or> length regions = 0 then (Redirect ''/admin/service-blocks'', db)
        else (Redirect ''/admin/service-blocks'', snd (addServiceRegionBlock fails newid now entryType value regions reason db)))"

definition adminAnonBootstrapRegenerate :: "bool \<Rightarrow> bytes option \<Rightarrow> gotime \<Rightarrow> User option \<Rightarrow> database \<Rightarrow> admin_reply \<times> database" where
  "adminAnonBootstrapRegenerate fails rnd now u db =
     (let who = (case u of None \<Rightarrow> ''admin'' | Some x \<Rightarrow> u_username x) in
      case regenerateAnonBootstrapToken fails rnd now who db of
        (None, db1) \<Rightarrow> (ErrorPage ''Error: could not regenerate token.'', db1)
      | (Some _, db1) \<Rightarrow> (Redirect ''/admin/anon-bootstrap?regenerated=1'', db1))"

section \<open>Endpoints for nodes\<close>

datatype api_reply = JsonErr string int | JsonBody bytes

definition for_node :: "bool \<Rightarrow> caps_codec \<Rightarrow> string list \<Rightarrow> string \<Rightarrow> database \<Rightarrow> api_reply + Node" where
  "for_node fails K types token db =
     (if token = [] then Inl (JsonErr ''X-Node-Token required'' 401)
      else case nodeByToken fails K token db of
        Some (Some node) \<Rightarrow> if n_type node \<in> set types then Inr node else Inl (JsonErr ''unauthorized'' 401)
      | _ \<Rightarrow> Inl (JsonErr ''unauthorized'' 401))"

definition apiWhitelist :: "rules_codec \<Rightarrow> caps_codec \<Rightarrow> bytes \<Rightarrow> faults \<Rightarrow> gotime \<Rightarrow> string \<Rightarrow> database \<Rightarrow> api_reply" where
  "apiWhitelist C K priv faults now token db = (case for_node (faults 0) K [''exit'', ''control''] token db of
     Inl e \<Rightarrow> e
   | Inr node \<Rightarrow> (case listWhitelistEntries (faults 1) db of None \<Rightarrow> JsonErr ''internal error'' 500
       | Some entries \<Rightarrow> JsonBody (signWhitelist C priv now entries)))"

definition apiServiceRegionBlocks :: "rules_codec \<Rightarrow> caps_codec \<Rightarrow> bytes \<Rightarrow> faults \<Rightarrow> gotime \<Rightarrow> string \<Rightarrow> database \<Rightarrow> api_reply" where
  "apiServiceRegionBlocks C K priv faults now token db = (case for_node (faults 0) K [''exit'', ''control''] token db of
     Inl e \<Rightarrow> e
   | Inr node \<Rightarrow> (case listServiceRegionBlocks (faults 1) db of None \<Rightarrow> JsonErr ''internal error'' 500
       | Some entries \<Rightarrow> JsonBody (signServiceRegionBlocks C priv now entries)))"

definition apiBlacklist :: "rules_codec \<Rightarrow> caps_codec \<Rightarrow> bytes \<Rightarrow> faults \<Rightarrow> gotime \<Rightarrow> string \<Rightarrow> database \<Rightarrow> api_reply" where
  "apiBlacklist C K priv faults now token db = (case for_node (faults 0) K [''exit''] token db of
     Inl e \<Rightarrow> e
   | Inr node \<Rightarrow> (case listBlacklistEntries (faults 1) db of None \<Rightarrow> JsonErr ''internal error'' 500
       | Some entries \<Rightarrow> JsonBody (signBlacklist C priv now entries)))"

definition apiTorrentBlocked :: "rules_codec \<Rightarrow> caps_codec \<Rightarrow> bytes \<Rightarrow> faults \<Rightarrow> gotime \<Rightarrow> string \<Rightarrow> database \<Rightarrow> api_reply" where
  "apiTorrentBlocked C K priv faults now token db = (case for_node (faults 0) K [''exit''] token db of
     Inl e \<Rightarrow> e
   | Inr node \<Rightarrow> (case listTorrentBlockedEntries (faults 1) db of None \<Rightarrow> JsonErr ''internal error'' 500
       | Some entries \<Rightarrow> JsonBody (signTorrentBlocked C priv now entries (n_addr node))))"

text \<open>The token may be created on the way; statements 1 and 2 are those of the token, 3 lists.\<close>

definition apiAnonBootstrap :: "rules_codec \<Rightarrow> caps_codec \<Rightarrow> bytes \<Rightarrow> faults \<Rightarrow> bytes option \<Rightarrow> gotime \<Rightarrow> string \<Rightarrow> database \<Rightarrow> api_reply \<times> database" where
  "apiAnonBootstrap C K priv faults rnd now token db = (case for_node (faults 0) K [''exit'', ''control''] token db of
     Inl e \<Rightarrow> (e, db)
   | Inr node \<Rightarrow> (case getOrCreateAnonBootstrapToken (\<lambda>i. faults (i + 1)) rnd now db of
         (None, db1) \<Rightarrow> (JsonErr ''internal error'' 500, db1)
       | (Some bootstrapToken, db1) \<Rightarrow> (case listAnonAllowlistEntries (faults 3) db1 of
             None \<Rightarrow> (JsonErr ''internal error'' 500, db1)
           | Some entries \<Rightarrow> (JsonBody (signAnonBootstrap C priv now bootstrapToken entries), db1))))"

end
