(* ===== verification/Exit_Rules.thy ===== *)
theory Exit_Rules
  imports Arbiter_Lists Net_Addr Http
begin

text \<open>
  The policies an exit applies (\<open>src/snc-exit/whitelist.go\<close>, \<open>service_blocks.go\<close>, \<open>anon_bootstrap.go\<close>, \<open>blacklist.go\<close>,
  \<open>torrent_allowed.go\<close>): each cache fetches a signed document from the arbiter, some keep it on disk. The HTTP client, the
  disk, JSON, Ed25519 and address parsing are arguments. Case is folded for ASCII letters. Fetching returns whether it
  succeeded, the new cache and the bytes written to the cache file. The tickers that call it are not modelled.
\<close>

definition ToLower :: "string \<Rightarrow> string" where "ToLower s = map to_lower s"
definition EqualFold :: "string \<Rightarrow> string \<Rightarrow> bool" where "EqualFold s t \<longleftrightarrow> ToLower s = ToLower t"
definition HasSuffix :: "string \<Rightarrow> string \<Rightarrow> bool" where "HasSuffix s t \<longleftrightarrow> length t \<le> length s \<and> drop (length s - length t) s = t"
definition TrimRight :: "char \<Rightarrow> string \<Rightarrow> string" where "TrimRight c s = rev (dropWhile (\<lambda>x. x = c) (rev s))"
definition items :: "'a list option \<Rightarrow> 'a list" where "items xs = (case xs of None \<Rightarrow> [] | Some ys \<Rightarrow> ys)"

definition verified :: "rules_codec \<Rightarrow> bytes option \<Rightarrow> bytes \<Rightarrow> string \<Rightarrow> bool" where
  "verified C key canonical sig = (case key of None \<Rightarrow> True
     | Some pk \<Rightarrow> (case b64_decode sig of None \<Rightarrow> False | Some s \<Rightarrow> length s = 64 \<and> ed_verify C pk canonical s))"

text \<open>The world of a cache: HTTP client, clock, cache file.\<close>

record rules_world =
  rl_http :: "request \<Rightarrow> http_result"
  rl_now :: gotime
  rl_disk :: "bytes option"

definition arbiter_get :: "string \<Rightarrow> string \<Rightarrow> string \<Rightarrow> request" where
  "arbiter_get arbiterURL path nodeToken = \<lparr>rq_method = ''GET'', rq_url = arbiterURL @ path, rq_header = [(''X-Node-Token'', nodeToken)], rq_body = []\<rparr>"

definition fetched :: "rules_world \<Rightarrow> request \<Rightarrow> nat \<Rightarrow> bytes option" where
  "fetched W rq limit = (case rl_http W rq of Response st body \<Rightarrow> if st \<noteq> 200 then None else Some (take limit body) | _ \<Rightarrow> None)"

section \<open>Whitelist\<close>

record whitelistEntry =
  e_entryType :: string
  e_value :: string
  e_network :: "IPNet option"

definition parse_rule :: "'n net_env_scheme \<Rightarrow> string \<times> string \<Rightarrow> whitelistEntry option" where
  "parse_rule E e = (case e of (ty, val) \<Rightarrow>
     if ty = ''domain'' then Some \<lparr>e_entryType = ty, e_value = ToLower val, e_network = None\<rparr>
     else if ty = ''wildcard'' then Some \<lparr>e_entryType = ty, e_value = ToLower (TrimPrefix ''*'' val), e_network = None\<rparr>
     else if ty = ''cidr'' then map_option (\<lambda>n. \<lparr>e_entryType = ty, e_value = val, e_network = Some n\<rparr>) (ParseCIDR E val)
     else None)"

record whitelistCache =
  wl_arbiterURL :: string
  wl_nodeToken :: string
  wl_pubkey :: "bytes option"
  wl_cacheFile :: string
  wl_entries :: "whitelistEntry list"
  wl_fetchedAt :: gotime

definition newWhitelistCache :: "string \<Rightarrow> string \<Rightarrow> bytes option \<Rightarrow> string \<Rightarrow> whitelistCache" where
  "newWhitelistCache arbiterURL nodeToken pubkey cacheFile = \<lparr>wl_arbiterURL = TrimRight CHR ''/'' arbiterURL, wl_nodeToken = nodeToken,
     wl_pubkey = pubkey, wl_cacheFile = cacheFile, wl_entries = [], wl_fetchedAt = zero_time\<rparr>"

definition wl_parseAndVerify :: "rules_codec \<Rightarrow> 'n net_env_scheme \<Rightarrow> bytes option \<Rightarrow> bytes \<Rightarrow> whitelistEntry list option" where
  "wl_parseAndVerify C E key data = (case dec_whitelist C data of None \<Rightarrow> None
     | Some wire \<Rightarrow> if \<not> verified C key (canon_rules C (sw_TS wire) (sw_Entries wire)) (sw_Sig wire) then None
         else Some (List.map_filter (parse_rule E) (items (sw_Entries wire))))"

definition IsWhitelisted :: "'n net_env_scheme \<Rightarrow> whitelistCache \<Rightarrow> string \<Rightarrow> string \<Rightarrow> bool" where
  "IsWhitelisted E wl host ip = list_ex (\<lambda>e.
     if e_entryType e = ''domain'' then EqualFold host (e_value e)
     else if e_entryType e = ''wildcard'' then length host > length (e_value e) \<and> HasSuffix (ToLower host) (e_value e)
     else e_entryType e = ''cidr'' \<and> ip \<noteq> [] \<and> (case (e_network e, ParseIP E ip) of (Some n, Some parsed) \<Rightarrow> IPNet_Contains n parsed | _ \<Rightarrow> False))
     (wl_entries wl)"

definition wl_fetch :: "rules_codec \<Rightarrow> 'n net_env_scheme \<Rightarrow> rules_world \<Rightarrow> whitelistCache \<Rightarrow> bool \<times> whitelistCache \<times> bytes option" where
  "wl_fetch C E W wl = (case fetched W (arbiter_get (wl_arbiterURL wl) ''/api/whitelist'' (wl_nodeToken wl)) (2 ^ 20) of
     None \<Rightarrow> (False, wl, None)
   | Some data \<Rightarrow> (case wl_parseAndVerify C E (wl_pubkey wl) data of None \<Rightarrow> (False, wl, None)
       | Some entries \<Rightarrow> (True, wl\<lparr>wl_entries := entries, wl_fetchedAt := rl_now W\<rparr>, if wl_cacheFile wl \<noteq> [] then Some data else None)))"

definition staleTTL :: duration where "staleTTL = 24 * hour"

definition too_old :: "gotime \<Rightarrow> int \<Rightarrow> bool" where
  "too_old now ts \<longleftrightarrow> time_sub now (ts * second) > staleTTL"

definition wl_loadFromDisk :: "rules_codec \<Rightarrow> 'n net_env_scheme \<Rightarrow> rules_world \<Rightarrow> whitelistCache \<Rightarrow> bool \<times> whitelistCache" where
  "wl_loadFromDisk C E W wl =
     (if wl_cacheFile wl = [] then (False, wl)
      else case rl_disk W of None \<Rightarrow> (False, wl)
      | Some data \<Rightarrow> (case wl_parseAndVerify C E (wl_pubkey wl) data of None \<Rightarrow> (False, wl)
          | Some entries \<Rightarrow>
              if (case dec_whitelist C data of None \<Rightarrow> False | Some wire \<Rightarrow> too_old (rl_now W) (sw_TS wire)) then (False, wl)
              else (True, wl\<lparr>wl_entries := entries, wl_fetchedAt := rl_now W\<rparr>)))"

section \<open>Region blocks\<close>

record serviceBlockEntry = whitelistEntry +
  e_regions :: "string list"

definition parse_block :: "'n net_env_scheme \<Rightarrow> string \<times> string \<times> string list option \<Rightarrow> serviceBlockEntry option" where
  "parse_block E e = (case e of (ty, val, regions) \<Rightarrow>
     map_option (\<lambda>r. whitelistEntry.extend r (serviceBlockEntry.fields (map (map to_upper) (items regions)))) (parse_rule E (ty, val)))"

record serviceBlockCache =
  sb_arbiterURL :: string
  sb_nodeToken :: string
  sb_pubkey :: "bytes option"
  sb_cacheFile :: string
  sb_entries :: "serviceBlockEntry list"
  sb_fetchedAt :: gotime

definition newServiceBlockCache :: "string \<Rightarrow> string \<Rightarrow> bytes option \<Rightarrow> string \<Rightarrow> serviceBlockCache" where
  "newServiceBlockCache arbiterURL nodeToken pubkey cacheFile = \<lparr>sb_arbiterURL = TrimRight CHR ''/'' arbiterURL, sb_nodeToken = nodeToken,
     sb_pubkey = pubkey, sb_cacheFile = cacheFile, sb_entries = [], sb_fetchedAt = zero_time\<rparr>"

definition sb_parseAndVerify :: "rules_codec \<Rightarrow> 'n net_env_scheme \<Rightarrow> bytes option \<Rightarrow> bytes \<Rightarrow> serviceBlockEntry list option" where
  "sb_parseAndVerify C E key data = (case dec_blocks C data of None \<Rightarrow> None
     | Some wire \<Rightarrow> if \<not> verified C key (canon_blocks C (sb_TS wire) (sb_Entries wire)) (sb_Sig wire) then None
         else Some (List.map_filter (parse_block E) (items (sb_Entries wire))))"

text \<open>The match of a rule with a host name and an address, either of which may be empty.\<close>

definition rule_matches :: "'n net_env_scheme \<Rightarrow> string \<Rightarrow> string \<Rightarrow> 'e whitelistEntry_scheme \<Rightarrow> bool" where
  "rule_matches E host ip e =
     (if e_entryType e = ''domain'' then host \<noteq> [] \<and> EqualFold host (e_value e)
      else if e_entryType e = ''wildcard'' then host \<noteq> [] \<and> length host > length (e_value e) \<and> HasSuffix (ToLower host) (e_value e)
      else e_entryType e = ''cidr'' \<and> ip \<noteq> [] \<and> (case (e_network e, ParseIP E ip) of (Some n, Some parsed) \<Rightarrow> IPNet_Contains n parsed | _ \<Rightarrow> False))"

definition IsBlockedForRegion :: "'n net_env_scheme \<Rightarrow> serviceBlockCache \<Rightarrow> string \<Rightarrow> string \<Rightarrow> string \<Rightarrow> bool" where
  "IsBlockedForRegion E sb host ip region =
     (if region = [] then False else list_ex (\<lambda>e. region \<in> set (e_regions e) \<and> rule_matches E host ip e) (sb_entries sb))"

definition sb_fetch :: "rules_codec \<Rightarrow> 'n net_env_scheme \<Rightarrow> rules_world \<Rightarrow> serviceBlockCache \<Rightarrow> bool \<times> serviceBlockCache \<times> bytes option" where
  "sb_fetch C E W sb = (case fetched W (arbiter_get (sb_arbiterURL sb) ''/api/service-blocks'' (sb_nodeToken sb)) (2 ^ 20) of
     None \<Rightarrow> (False, sb, None)
   | Some data \<Rightarrow> (case sb_parseAndVerify C E (sb_pubkey sb) data of None \<Rightarrow> (False, sb, None)
       | Some entries \<Rightarrow> (True, sb\<lparr>sb_entries := entries, sb_fetchedAt := rl_now W\<rparr>, if sb_cacheFile sb \<noteq> [] then Some data else None)))"

definition sb_loadFromDisk :: "rules_codec \<Rightarrow> 'n net_env_scheme \<Rightarrow> rules_world \<Rightarrow> serviceBlockCache \<Rightarrow> bool \<times> serviceBlockCache" where
  "sb_loadFromDisk C E W sb =
     (if sb_cacheFile sb = [] then (False, sb)
      else case rl_disk W of None \<Rightarrow> (False, sb)
      | Some data \<Rightarrow> (case sb_parseAndVerify C E (sb_pubkey sb) data of None \<Rightarrow> (False, sb)
          | Some entries \<Rightarrow>
              if (case dec_blocks C data of None \<Rightarrow> False | Some wire \<Rightarrow> too_old (rl_now W) (sb_TS wire)) then (False, sb)
              else (True, sb\<lparr>sb_entries := entries, sb_fetchedAt := rl_now W\<rparr>)))"

section \<open>Anonymous access\<close>

record anonBootstrapCache =
  ab_arbiterURL :: string
  ab_nodeToken :: string
  ab_pubkey :: "bytes option"
  ab_cacheFile :: string
  ab_token :: string
  ab_entries :: "whitelistEntry list"
  ab_fetchedAt :: gotime

definition newAnonBootstrapCache :: "string \<Rightarrow> string \<Rightarrow> bytes option \<Rightarrow> string \<Rightarrow> anonBootstrapCache" where
  "newAnonBootstrapCache arbiterURL nodeToken pubkey cacheFile = \<lparr>ab_arbiterURL = TrimRight CHR ''/'' arbiterURL, ab_nodeToken = nodeToken,
     ab_pubkey = pubkey, ab_cacheFile = cacheFile, ab_token = [], ab_entries = [], ab_fetchedAt = zero_time\<rparr>"

definition ab_parseAndVerify :: "rules_codec \<Rightarrow> 'n net_env_scheme \<Rightarrow> bytes option \<Rightarrow> bytes \<Rightarrow> (string \<times> whitelistEntry list) option" where
  "ab_parseAndVerify C E key data = (case dec_anon C data of None \<Rightarrow> None
     | Some wire \<Rightarrow> if \<not> verified C key (canon_anon C (sa_TS wire) (sa_Token wire) (sa_Entries wire)) (sa_Sig wire) then None
         else Some (sa_Token wire, List.map_filter (parse_rule E) (items (sa_Entries wire))))"

definition IsBootstrapToken :: "anonBootstrapCache \<Rightarrow> string \<Rightarrow> bool" where
  "IsBootstrapToken ab token =
     (if token = [] then False else if ab_token ab = [] \<or> length (ab_token ab) \<noteq> length token then False else ab_token ab = token)"

definition ab_IsAllowed :: "'n net_env_scheme \<Rightarrow> anonBootstrapCache \<Rightarrow> string \<Rightarrow> string \<Rightarrow> bool" where
  "ab_IsAllowed E ab host ip = list_ex (rule_matches E host ip) (ab_entries ab)"

definition ab_fetch :: "rules_codec \<Rightarrow> 'n net_env_scheme \<Rightarrow> rules_world \<Rightarrow> anonBootstrapCache \<Rightarrow> bool \<times> anonBootstrapCache \<times> bytes option" where
  "ab_fetch C E W ab = (case fetched W (arbiter_get (ab_arbiterURL ab) ''/api/anon-bootstrap'' (ab_nodeToken ab)) (2 ^ 20) of
     None \<Rightarrow> (False, ab, None)
   | Some data \<Rightarrow> (case ab_parseAndVerify C E (ab_pubkey ab) data of None \<Rightarrow> (False, ab, None)
       | Some (token, entries) \<Rightarrow>
           (True, ab\<lparr>ab_token := token, ab_entries := entries, ab_fetchedAt := rl_now W\<rparr>, if ab_cacheFile ab \<noteq> [] then Some data else None)))"

definition ab_loadFromDisk :: "rules_codec \<Rightarrow> 'n net_env_scheme \<Rightarrow> rules_world \<Rightarrow> anonBootstrapCache \<Rightarrow> bool \<times> anonBootstrapCache" where
  "ab_loadFromDisk C E W ab =
     (if ab_cacheFile ab = [] then (False, ab)
      else case rl_disk W of None \<Rightarrow> (False, ab)
      | Some data \<Rightarrow> (case ab_parseAndVerify C E (ab_pubkey ab) data of None \<Rightarrow> (False, ab)
          | Some (token, entries) \<Rightarrow>
              if (case dec_anon C data of None \<Rightarrow> False | Some wire \<Rightarrow> too_old (rl_now W) (sa_TS wire)) then (False, ab)
              else (True, ab\<lparr>ab_token := token, ab_entries := entries, ab_fetchedAt := rl_now W\<rparr>)))"

section \<open>Blacklist and torrents\<close>

record blacklistCache =
  bc_arbiterURL :: string
  bc_nodeToken :: string
  bc_pubkey :: "bytes option"
  bc_addrs :: "string list"

definition newBlacklistCache :: "string \<Rightarrow> string \<Rightarrow> bytes option \<Rightarrow> blacklistCache" where
  "newBlacklistCache arbiterURL nodeToken pubkey = \<lparr>bc_arbiterURL = TrimRight CHR ''/'' arbiterURL, bc_nodeToken = nodeToken, bc_pubkey = pubkey, bc_addrs = []\<rparr>"

text \<open>A set of lower-case addresses, as the list of its elements.\<close>

definition lower_addrs :: "string list option \<Rightarrow> string list" where
  "lower_addrs addrs = remdups (map ToLower (filter (\<lambda>a. a \<noteq> []) (items addrs)))"

definition bl_parseAndVerify :: "rules_codec \<Rightarrow> bytes option \<Rightarrow> bytes \<Rightarrow> string list option" where
  "bl_parseAndVerify C key data = (case dec_blacklist C data of None \<Rightarrow> None
     | Some wire \<Rightarrow> if \<not> verified C key (canon_addrs C (bl_TS wire) (bl_Addrs wire)) (bl_Sig wire) then None else Some (lower_addrs (bl_Addrs wire)))"

definition IsBlacklisted :: "blacklistCache \<Rightarrow> string \<Rightarrow> bool" where
  "IsBlacklisted bl host \<longleftrightarrow> ToLower host \<in> set (bc_addrs bl)"

definition bl_fetch :: "rules_codec \<Rightarrow> rules_world \<Rightarrow> blacklistCache \<Rightarrow> bool \<times> blacklistCache" where
  "bl_fetch C W bl = (case fetched W (arbiter_get (bc_arbiterURL bl) ''/api/blacklist'' (bc_nodeToken bl)) (2 ^ 16) of
     None \<Rightarrow> (False, bl)
   | Some data \<Rightarrow> (case bl_parseAndVerify C (bc_pubkey bl) data of None \<Rightarrow> (False, bl) | Some addrs \<Rightarrow> (True, bl\<lparr>bc_addrs := addrs\<rparr>)))"

record torrentAllowedCache =
  ta_arbiterURL :: string
  ta_nodeToken :: string
  ta_pubkey :: "bytes option"
  ta_blocked :: "string list"
  ta_selfAllowed :: bool

definition newTorrentAllowedCache :: "string \<Rightarrow> string \<Rightarrow> bytes option \<Rightarrow> torrentAllowedCache" where
  "newTorrentAllowedCache arbiterURL nodeToken pubkey = \<lparr>ta_arbiterURL = TrimRight CHR ''/'' arbiterURL, ta_nodeToken = nodeToken, ta_pubkey = pubkey,
     ta_blocked = [], ta_selfAllowed = True\<rparr>"

definition ta_parseAndVerify :: "rules_codec \<Rightarrow> bytes option \<Rightarrow> bytes \<Rightarrow> (string list \<times> bool) option" where
  "ta_parseAndVerify C key data = (case dec_torrent C data of None \<Rightarrow> None
     | Some wire \<Rightarrow> if \<not> verified C key (canon_addrs C (tb_TS wire) (tb_Addrs wire)) (tb_Sig wire) then None
         else Some (lower_addrs (tb_Addrs wire), tb_SelfAllowed wire))"

definition SelfAllowed :: "torrentAllowedCache \<Rightarrow> bool" where "SelfAllowed ta = ta_selfAllowed ta"

definition ta_IsAllowed :: "torrentAllowedCache \<Rightarrow> string \<Rightarrow> bool" where
  "ta_IsAllowed ta addr \<longleftrightarrow> ToLower addr \<notin> set (ta_blocked ta)"

definition ta_fetch :: "rules_codec \<Rightarrow> rules_world \<Rightarrow> torrentAllowedCache \<Rightarrow> bool \<times> torrentAllowedCache" where
  "ta_fetch C W ta = (case fetched W (arbiter_get (ta_arbiterURL ta) ''/api/torrent-blocked'' (ta_nodeToken ta)) (2 ^ 16) of
     None \<Rightarrow> (False, ta)
   | Some data \<Rightarrow> (case ta_parseAndVerify C (ta_pubkey ta) data of None \<Rightarrow> (False, ta)
       | Some (blocked, selfAllowed) \<Rightarrow> (True, ta\<lparr>ta_blocked := blocked, ta_selfAllowed := selfAllowed\<rparr>)))"

end
