(* ===== verification/Prefix_Codec.thy ===== *)
theory Prefix_Codec
  imports Go_Lib
begin

text \<open>
  Self-delimiting encodings of structured values as bytes. They are concrete instances for the JSON conversions that the
  model takes as parameters, used where a law of such a parameter is shown to be satisfiable.
\<close>

definition prefix_code :: "('a \<Rightarrow> bytes) \<Rightarrow> (bytes \<Rightarrow> ('a \<times> bytes) option) \<Rightarrow> bool" where
  "prefix_code p g \<longleftrightarrow> (\<forall>x r. g (p x @ r) = Some (x, r))"

lemma prefix_codeD: "prefix_code p g \<Longrightarrow> g (p x @ r) = Some (x, r)"
  by (simp add: prefix_code_def)

definition put_nat :: "nat \<Rightarrow> bytes" where "put_nat n = replicate n 1 @ [0]"

fun get_nat :: "bytes \<Rightarrow> (nat \<times> bytes) option" where
  "get_nat [] = None"
| "get_nat (b # bs) = (if b = 0 then Some (0, bs) else map_option (apfst Suc) (get_nat bs))"

lemma nat_code: "prefix_code put_nat get_nat"
proof -
  have "get_nat (replicate n 1 @ 0 # r) = Some (n, r)" for n r by (induction n) simp_all
  then show ?thesis by (simp add: prefix_code_def put_nat_def)
qed

definition put_str :: "string \<Rightarrow> bytes" where "put_str s = put_nat (length s) @ str_bytes s"

definition get_str :: "bytes \<Rightarrow> (string \<times> bytes) option" where
  "get_str bs = map_option (\<lambda>(n, r). (bytes_str (take n r), drop n r)) (get_nat bs)"

lemma str_bytes_length [simp]: "length (str_bytes s) = length s"
  by (simp add: str_bytes_def)

lemma str_code: "prefix_code put_str get_str"
  using prefix_codeD [OF nat_code] by (simp add: prefix_code_def put_str_def get_str_def)

definition put_int :: "int \<Rightarrow> bytes" where "put_int i = (if i < 0 then 1 else 0) # put_nat (nat \<bar>i\<bar>)"

definition get_int :: "bytes \<Rightarrow> (int \<times> bytes) option" where
  "get_int bs = (case bs of [] \<Rightarrow> None | b # r \<Rightarrow> map_option (apfst (\<lambda>n. if b = 0 then int n else - int n)) (get_nat r))"

lemma int_code: "prefix_code put_int get_int"
  using prefix_codeD [OF nat_code] by (simp add: prefix_code_def put_int_def get_int_def)

definition put_bool :: "bool \<Rightarrow> bytes" where "put_bool b = [if b then 1 else 0]"

definition get_bool :: "bytes \<Rightarrow> (bool \<times> bytes) option" where
  "get_bool bs = (case bs of [] \<Rightarrow> None | b # r \<Rightarrow> Some (b \<noteq> 0, r))"

lemma bool_code: "prefix_code put_bool get_bool"
  by (simp add: prefix_code_def put_bool_def get_bool_def)

definition put_pair :: "('a \<Rightarrow> bytes) \<Rightarrow> ('b \<Rightarrow> bytes) \<Rightarrow> 'a \<times> 'b \<Rightarrow> bytes" where
  "put_pair p q x = p (fst x) @ q (snd x)"

definition get_pair :: "(bytes \<Rightarrow> ('a \<times> bytes) option) \<Rightarrow> (bytes \<Rightarrow> ('b \<times> bytes) option) \<Rightarrow> bytes \<Rightarrow> (('a \<times> 'b) \<times> bytes) option" where
  "get_pair g h bs = (case g bs of None \<Rightarrow> None | Some (a, r) \<Rightarrow> map_option (apfst (Pair a)) (h r))"

lemma pair_code: "prefix_code p g \<Longrightarrow> prefix_code q h \<Longrightarrow> prefix_code (put_pair p q) (get_pair g h)"
  by (simp add: prefix_code_def put_pair_def get_pair_def)

definition put_opt :: "('a \<Rightarrow> bytes) \<Rightarrow> 'a option \<Rightarrow> bytes" where
  "put_opt p x = (case x of None \<Rightarrow> [0] | Some a \<Rightarrow> 1 # p a)"

definition get_opt :: "(bytes \<Rightarrow> ('a \<times> bytes) option) \<Rightarrow> bytes \<Rightarrow> ('a option \<times> bytes) option" where
  "get_opt g bs = (case bs of [] \<Rightarrow> None | b # r \<Rightarrow> if b = 0 then Some (None, r) else map_option (apfst Some) (g r))"

lemma opt_code: "prefix_code p g \<Longrightarrow> prefix_code (put_opt p) (get_opt g)"
  by (auto simp: prefix_code_def put_opt_def get_opt_def split: option.splits)

definition put_list :: "('a \<Rightarrow> bytes) \<Rightarrow> 'a list \<Rightarrow> bytes" where
  "put_list p xs = put_nat (length xs) @ concat (map p xs)"

fun get_seq :: "(bytes \<Rightarrow> ('a \<times> bytes) option) \<Rightarrow> nat \<Rightarrow> bytes \<Rightarrow> ('a list \<times> bytes) option" where
  "get_seq g 0 bs = Some ([], bs)"
| "get_seq g (Suc n) bs = (case g bs of None \<Rightarrow> None | Some (x, r) \<Rightarrow> map_option (apfst (Cons x)) (get_seq g n r))"

definition get_list :: "(bytes \<Rightarrow> ('a \<times> bytes) option) \<Rightarrow> bytes \<Rightarrow> ('a list \<times> bytes) option" where
  "get_list g bs = (case get_nat bs of None \<Rightarrow> None | Some (n, r) \<Rightarrow> get_seq g n r)"

lemma list_code:
  assumes "prefix_code p g"
  shows "prefix_code (put_list p) (get_list g)"
proof -
  have "get_seq g (length xs) (concat (map p xs) @ r) = Some (xs, r)" for xs r
    by (induction xs) (simp_all add: prefix_codeD [OF assms])
  then show ?thesis by (simp add: prefix_code_def put_list_def get_list_def prefix_codeD [OF nat_code])
qed

text \<open>A whole message: nothing may follow.\<close>

definition whole :: "(bytes \<Rightarrow> ('a \<times> bytes) option) \<Rightarrow> bytes \<Rightarrow> 'a option" where
  "whole g bs = (case g bs of Some (x, []) \<Rightarrow> Some x | _ \<Rightarrow> None)"

lemma whole_code: "prefix_code p g \<Longrightarrow> whole g (p x) = Some x"
  using prefix_codeD [of p g x "[]"] by (simp add: whole_def)

lemmas prefix_codes = nat_code str_code int_code bool_code pair_code opt_code list_code

lemma put_lengths [simp]:
  "length (put_nat n) = Suc n" "length (put_str s) = Suc (2 * length s)" "length (put_int i) = nat \<bar>i\<bar> + 2" "length (put_bool b) = 1"
  "length (put_pair p q x) = length (p (fst x)) + length (q (snd x))"
  "length (put_opt p y) = (case y of None \<Rightarrow> 1 | Some a \<Rightarrow> Suc (length (p a)))"
  "length (put_list p xs) = Suc (length xs) + sum_list (map (length \<circ> p) xs)"
  by (simp_all add: put_nat_def put_str_def put_int_def put_bool_def put_pair_def put_opt_def put_list_def length_concat comp_def split: option.splits)

end
