(* ===== verification/Rules_Distribution.thy ===== *)
theory Rules_Distribution
  imports Exit_Rules Arbiter_Lifecycle Prefix_Codec
begin

text \<open>
  From the administrator to the exit: after an exit has fetched the documents the arbiter signs, it applies exactly the
  rules of the arbiter's tables; and whatever it is sent, the rules in force come from documents the arbiter has signed.
\<close>

section \<open>What a rule covers\<close>

definition below :: "string \<Rightarrow> string \<Rightarrow> bool" where
  "below suf s \<longleftrightarrow> (\<exists>pre. pre \<noteq> [] \<and> s = pre @ suf)"

definition covers :: "'n net_env_scheme \<Rightarrow> string \<Rightarrow> string \<Rightarrow> string \<Rightarrow> string \<Rightarrow> bool" where
  "covers E ty val host ip \<longleftrightarrow>
     ty = ''domain'' \<and> ToLower host = ToLower val \<or>
     ty = ''wildcard'' \<and> below (ToLower (TrimPrefix ''*'' val)) (ToLower host) \<or>
     ty = ''cidr'' \<and> ip \<noteq> [] \<and> (\<exists>n p. ParseCIDR E val = Some n \<and> ParseIP E ip = Some p \<and> IPNet_Contains n p)"

lemma ToLower_simps [simp]: "ToLower [] = []" "ToLower s = [] \<longleftrightarrow> s = []" "length (ToLower s) = length s"
  by (simp_all add: ToLower_def)

lemma to_lower_idem [simp]: "to_lower (to_lower c) = to_lower c"
proof -
  have "(of_char c :: nat) < 256" using of_char_mod_256 [of c, where 'a = nat] by (metis mod_less_divisor zero_less_numeral)
  then show ?thesis by (auto simp: to_lower_def Let_def of_char_of)
qed

lemma ToLower_idem [simp]: "ToLower (ToLower s) = ToLower s"
  by (simp add: ToLower_def)

lemma suffix_iff: "below suf s \<longleftrightarrow> length suf < length s \<and> HasSuffix s suf"
  unfolding below_def
proof (rule sym, rule iffI)
  assume a: "length suf < length s \<and> HasSuffix s suf"
  then have "s = take (length s - length suf) s @ suf" by (metis HasSuffix_def append_take_drop_id)
  moreover have "take (length s - length suf) s \<noteq> []" using a by auto
  ultimately show "\<exists>pre. pre \<noteq> [] \<and> s = pre @ suf" by blast
qed (auto simp: HasSuffix_def)

lemma parse_rule_Some:
  "parse_rule E (ty, val) = Some r \<Longrightarrow> e_entryType r = ty \<and> (rule_matches E host ip r \<longleftrightarrow> (ty \<noteq> ''cidr'' \<longrightarrow> host \<noteq> []) \<and> covers E ty val host ip)"
  using suffix_iff [of "ToLower (TrimPrefix ''*'' val)" "ToLower host"]
  by (auto simp: parse_rule_def rule_matches_def covers_def EqualFold_def split: if_splits option.splits)

lemma parse_rule_None: "parse_rule E (ty, val) = None \<Longrightarrow> \<not> covers E ty val host ip"
  by (auto simp: parse_rule_def covers_def split: if_splits)

text \<open>The rules of a list of entries, as the caches match them.\<close>

lemma rules_match:
  "list_ex (rule_matches E host ip) (List.map_filter (parse_rule E) es) \<longleftrightarrow>
   (\<exists>(ty, val) \<in> set es. (ty \<noteq> ''cidr'' \<longrightarrow> host \<noteq> []) \<and> covers E ty val host ip)"
proof (induction es)
  case (Cons e es)
  obtain ty val where e: "e = (ty, val)" by fastforce
  then show ?case
  proof (cases "parse_rule E (ty, val)")
    case None
    then show ?thesis using Cons parse_rule_None [OF None] by (auto simp: e)
  next
    case (Some r)
    then show ?thesis using Cons parse_rule_Some [OF Some] by (simp add: e)
  qed
qed simp

lemma whitelist_match:
  "IsWhitelisted E (wl\<lparr>wl_entries := List.map_filter (parse_rule E) es, wl_fetchedAt := t\<rparr>) host ip \<longleftrightarrow>
   (\<exists>(ty, val) \<in> set es. covers E ty val host ip)"
proof (induction es)
  case (Cons e es)
  obtain ty val where e: "e = (ty, val)" by fastforce
  have "(\<lambda>e. if e_entryType e = ''domain'' then EqualFold host (e_value e)
     else if e_entryType e = ''wildcard'' then length host > length (e_value e) \<and> HasSuffix (ToLower host) (e_value e)
     else e_entryType e = ''cidr'' \<and> ip \<noteq> [] \<and> (case (e_network e, ParseIP E ip) of (Some n, Some parsed) \<Rightarrow> IPNet_Contains n parsed | _ \<Rightarrow> False)) r
     \<longleftrightarrow> covers E ty val host ip" if "parse_rule E (ty, val) = Some r" for r
    using that suffix_iff [of "ToLower (TrimPrefix ''*'' val)" "ToLower host"]
    by (auto simp: parse_rule_def covers_def EqualFold_def split: if_splits option.splits)
  then show ?case using Cons parse_rule_None [of E ty val host ip]
    by (cases "parse_rule E (ty, val)") (auto simp: e IsWhitelisted_def)
qed (simp add: IsWhitelisted_def)

definition blocks :: "'n net_env_scheme \<Rightarrow> string \<Rightarrow> string \<Rightarrow> string \<Rightarrow> string \<times> string \<times> string list option \<Rightarrow> bool" where
  "blocks E host ip region e \<longleftrightarrow> (case e of (ty, val, rs) \<Rightarrow>
     region \<in> map to_upper ` set (items rs) \<and> (ty \<noteq> ''cidr'' \<longrightarrow> host \<noteq> []) \<and> covers E ty val host ip)"

lemma block_match:
  "IsBlockedForRegion E (sb\<lparr>sb_entries := List.map_filter (parse_block E) es, sb_fetchedAt := t\<rparr>) host ip region \<longleftrightarrow>
   region \<noteq> [] \<and> list_ex (blocks E host ip region) es"
proof (induction es)
  case (Cons e es)
  obtain ty val rs where e: "e = (ty, val, rs)" by (cases e)
  have m: "rule_matches E host ip (whitelistEntry.extend r x) = rule_matches E host ip r" for r :: whitelistEntry and x :: "unit serviceBlockEntry_ext"
    by (simp add: rule_matches_def whitelistEntry.defs)
  show ?case
  proof (cases "parse_rule E (ty, val)")
    case None
    then show ?thesis using Cons parse_rule_None [OF None, of host ip] by (auto simp: e IsBlockedForRegion_def parse_block_def blocks_def)
  next
    case (Some r)
    define x where "x = whitelistEntry.extend r (serviceBlockEntry.fields (map (map to_upper) (items rs)))"
    have x: "parse_block E e = Some x" using Some by (simp add: parse_block_def e x_def)
    have reg: "set (e_regions x) = map to_upper ` set (items rs)" by (simp add: x_def whitelistEntry.defs serviceBlockEntry.defs)
    have mat: "rule_matches E host ip x \<longleftrightarrow> (ty \<noteq> ''cidr'' \<longrightarrow> host \<noteq> []) \<and> covers E ty val host ip"
      using parse_rule_Some [OF Some, of host ip] by (simp add: x_def m)
    have "IsBlockedForRegion E (sb\<lparr>sb_entries := List.map_filter (parse_block E) (e # es), sb_fetchedAt := t\<rparr>) host ip region \<longleftrightarrow>
      region \<noteq> [] \<and> region \<in> set (e_regions x) \<and> rule_matches E host ip x \<or>
      IsBlockedForRegion E (sb\<lparr>sb_entries := List.map_filter (parse_block E) es, sb_fetchedAt := t\<rparr>) host ip region"
      by (auto simp: IsBlockedForRegion_def x)
    moreover have "blocks E host ip region e \<longleftrightarrow>
        region \<in> map to_upper ` set (items rs) \<and> (ty \<noteq> ''cidr'' \<longrightarrow> host \<noteq> []) \<and> covers E ty val host ip"
      by (simp add: blocks_def e)
    ultimately show ?thesis unfolding Cons.IH mat reg list_ex_iff list.set(2) by blast
  qed
qed (simp add: IsBlockedForRegion_def)

section \<open>The caches share a contract\<close>

text \<open>A cache of signed rules is replaced by a document with a valid signature or not at all.\<close>

datatype refresh = Fetch rules_world | LoadDisk rules_world

fun refresh_with :: "(rules_world \<Rightarrow> 'c \<Rightarrow> bool \<times> 'c) \<Rightarrow> (rules_world \<Rightarrow> 'c \<Rightarrow> bool \<times> 'c) \<Rightarrow> refresh \<Rightarrow> 'c \<Rightarrow> 'c" where
  "refresh_with fetch load (Fetch W) c = snd (fetch W c)"
| "refresh_with fetch load (LoadDisk W) c = snd (load W c)"

text \<open>The documents a step is given: what the arbiter's address answers, or the file.\<close>

fun delivered :: "refresh \<Rightarrow> bytes \<Rightarrow> bool" where
  "delivered (Fetch W) data = (\<exists>rq body n. rl_http W rq = Response 200 body \<and> data = take n body)"
| "delivered (LoadDisk W) data = (rl_disk W = Some data)"

lemma fetched_delivered: "fetched W rq n = Some data \<Longrightarrow> delivered (Fetch W) data"
  by (auto simp: fetched_def split: http_result.splits if_splits)

declare delivered.simps(1) [simp del]

locale rules_cache =
  fixes fetch load :: "rules_world \<Rightarrow> 'c \<Rightarrow> bool \<times> 'c"
    and key :: "'c \<Rightarrow> bytes option"
    and content :: "bytes option \<Rightarrow> bytes \<Rightarrow> 'c \<Rightarrow> bool"
  assumes fetch_key: "key (snd (fetch W c)) = key c"
    and load_key: "key (snd (load W c)) = key c"
    and fetch_failed: "\<not> fst (fetch W c) \<Longrightarrow> snd (fetch W c) = c"
    and load_failed: "\<not> fst (load W c) \<Longrightarrow> snd (load W c) = c"
    and fetch_content: "fst (fetch W c) \<Longrightarrow> \<exists>data. delivered (Fetch W) data \<and> content (key c) data (snd (fetch W c))"
    and load_content: "fst (load W c) \<Longrightarrow> \<exists>data. delivered (LoadDisk W) data \<and> content (key c) data (snd (load W c))"
begin

lemma step_content:
  "key (refresh_with fetch load s c) = key c \<and>
   (refresh_with fetch load s c = c \<or> (\<exists>data. delivered s data \<and> content (key c) data (refresh_with fetch load s c)))"
proof (cases s)
  case (Fetch W)
  then show ?thesis using fetch_key fetch_failed [of W c] fetch_content [of W c] by (cases "fst (fetch W c)") auto
next
  case (LoadDisk W)
  then show ?thesis using load_key load_failed [of W c] load_content [of W c] by (cases "fst (load W c)") auto
qed

lemma history_content:
  "fold (refresh_with fetch load) ss c = c \<or>
   (\<exists>s \<in> set ss. \<exists>data. delivered s data \<and> content (key c) data (fold (refresh_with fetch load) ss c))"
proof (induction ss arbitrary: c)
  case (Cons s ss)
  show ?case using Cons.IH [of "refresh_with fetch load s c"] step_content [of s c] by auto
qed simp

end

definition wl_refresh :: "rules_codec \<Rightarrow> 'n net_env_scheme \<Rightarrow> rules_world \<Rightarrow> whitelistCache \<Rightarrow> bool \<times> whitelistCache" where
  "wl_refresh C E W wl = (case wl_fetch C E W wl of (ok, wl', _) \<Rightarrow> (ok, wl'))"

definition sb_refresh :: "rules_codec \<Rightarrow> 'n net_env_scheme \<Rightarrow> rules_world \<Rightarrow> serviceBlockCache \<Rightarrow> bool \<times> serviceBlockCache" where
  "sb_refresh C E W sb = (case sb_fetch C E W sb of (ok, sb', _) \<Rightarrow> (ok, sb'))"

definition ab_refresh :: "rules_codec \<Rightarrow> 'n net_env_scheme \<Rightarrow> rules_world \<Rightarrow> anonBootstrapCache \<Rightarrow> bool \<times> anonBootstrapCache" where
  "ab_refresh C E W ab = (case ab_fetch C E W ab of (ok, ab', _) \<Rightarrow> (ok, ab'))"

definition no_disk :: "rules_world \<Rightarrow> 'c \<Rightarrow> bool \<times> 'c" where "no_disk W c = (False, c)"

definition wl_content :: "rules_codec \<Rightarrow> 'n net_env_scheme \<Rightarrow> bytes option \<Rightarrow> bytes \<Rightarrow> whitelistCache \<Rightarrow> bool" where
  "wl_content C E key data wl \<longleftrightarrow> (\<exists>w. dec_whitelist C data = Some w \<and> verified C key (canon_rules C (sw_TS w) (sw_Entries w)) (sw_Sig w) \<and>
     wl_entries wl = List.map_filter (parse_rule E) (items (sw_Entries w)))"

definition sb_content :: "rules_codec \<Rightarrow> 'n net_env_scheme \<Rightarrow> bytes option \<Rightarrow> bytes \<Rightarrow> serviceBlockCache \<Rightarrow> bool" where
  "sb_content C E key data sb \<longleftrightarrow> (\<exists>w. dec_blocks C data = Some w \<and> verified C key (canon_blocks C (sb_TS w) (sb_Entries w)) (sb_Sig w) \<and>
     sb_entries sb = List.map_filter (parse_block E) (items (sb_Entries w)))"

definition ab_content :: "rules_codec \<Rightarrow> 'n net_env_scheme \<Rightarrow> bytes option \<Rightarrow> bytes \<Rightarrow> anonBootstrapCache \<Rightarrow> bool" where
  "ab_content C E key data ab \<longleftrightarrow> (\<exists>w. dec_anon C data = Some w \<and> verified C key (canon_anon C (sa_TS w) (sa_Token w) (sa_Entries w)) (sa_Sig w) \<and>
     ab_token ab = sa_Token w \<and> ab_entries ab = List.map_filter (parse_rule E) (items (sa_Entries w)))"

definition bl_content :: "rules_codec \<Rightarrow> bytes option \<Rightarrow> bytes \<Rightarrow> blacklistCache \<Rightarrow> bool" where
  "bl_content C key data bl \<longleftrightarrow> (\<exists>w. dec_blacklist C data = Some w \<and> verified C key (canon_addrs C (bl_TS w) (bl_Addrs w)) (bl_Sig w) \<and>
     bc_addrs bl = lower_addrs (bl_Addrs w))"

definition ta_content :: "rules_codec \<Rightarrow> bytes option \<Rightarrow> bytes \<Rightarrow> torrentAllowedCache \<Rightarrow> bool" where
  "ta_content C key data ta \<longleftrightarrow> (\<exists>w. dec_torrent C data = Some w \<and> verified C key (canon_addrs C (tb_TS w) (tb_Addrs w)) (tb_Sig w) \<and>
     ta_blocked ta = lower_addrs (tb_Addrs w) \<and> ta_selfAllowed ta = tb_SelfAllowed w)"

lemma parse_content:
  "wl_parseAndVerify C E key data = Some es \<Longrightarrow> wl_content C E key data (wl\<lparr>wl_entries := es, wl_fetchedAt := t\<rparr>)"
  "sb_parseAndVerify C E key data = Some bs \<Longrightarrow> sb_content C E key data (sb\<lparr>sb_entries := bs, sb_fetchedAt := t\<rparr>)"
  "ab_parseAndVerify C E key data = Some (tok, es) \<Longrightarrow> ab_content C E key data (ab\<lparr>ab_token := tok, ab_entries := es, ab_fetchedAt := t\<rparr>)"
  "bl_parseAndVerify C key data = Some as \<Longrightarrow> bl_content C key data (bl\<lparr>bc_addrs := as\<rparr>)"
  "ta_parseAndVerify C key data = Some (as, self) \<Longrightarrow> ta_content C key data (ta\<lparr>ta_blocked := as, ta_selfAllowed := self\<rparr>)"
  by (auto simp: wl_parseAndVerify_def wl_content_def sb_parseAndVerify_def sb_content_def ab_parseAndVerify_def ab_content_def
      bl_parseAndVerify_def bl_content_def ta_parseAndVerify_def ta_content_def split: option.splits if_splits)

interpretation wlc: rules_cache "wl_refresh C E" "wl_loadFromDisk C E" wl_pubkey "wl_content C E" for C E
  by unfold_locales
    (auto simp: wl_refresh_def wl_fetch_def wl_loadFromDisk_def split: option.splits if_splits dest: fetched_delivered parse_content)

interpretation sbc: rules_cache "sb_refresh C E" "sb_loadFromDisk C E" sb_pubkey "sb_content C E" for C E
  by unfold_locales
    (auto simp: sb_refresh_def sb_fetch_def sb_loadFromDisk_def split: option.splits if_splits dest: fetched_delivered parse_content)

interpretation abc: rules_cache "ab_refresh C E" "ab_loadFromDisk C E" ab_pubkey "ab_content C E" for C E
  by unfold_locales
    (auto simp: ab_refresh_def ab_fetch_def ab_loadFromDisk_def split: option.splits if_splits prod.splits dest: fetched_delivered parse_content)

interpretation blc: rules_cache "bl_fetch C" no_disk bc_pubkey "bl_content C" for C
  by unfold_locales
    (auto simp: bl_fetch_def no_disk_def split: option.splits dest: fetched_delivered parse_content)

interpretation tac: rules_cache "ta_fetch C" no_disk ta_pubkey "ta_content C" for C
  by unfold_locales
    (auto simp: ta_fetch_def no_disk_def split: option.splits prod.splits dest: fetched_delivered parse_content)

text \<open>Histories of the five caches.\<close>

abbreviation wl_run :: "rules_codec \<Rightarrow> 'n net_env_scheme \<Rightarrow> refresh list \<Rightarrow> whitelistCache \<Rightarrow> whitelistCache" where
  "wl_run C E ss wl \<equiv> fold (refresh_with (wl_refresh C E) (wl_loadFromDisk C E)) ss wl"
abbreviation sb_run :: "rules_codec \<Rightarrow> 'n net_env_scheme \<Rightarrow> refresh list \<Rightarrow> serviceBlockCache \<Rightarrow> serviceBlockCache" where
  "sb_run C E ss sb \<equiv> fold (refresh_with (sb_refresh C E) (sb_loadFromDisk C E)) ss sb"
abbreviation ab_run :: "rules_codec \<Rightarrow> 'n net_env_scheme \<Rightarrow> refresh list \<Rightarrow> anonBootstrapCache \<Rightarrow> anonBootstrapCache" where
  "ab_run C E ss ab \<equiv> fold (refresh_with (ab_refresh C E) (ab_loadFromDisk C E)) ss ab"
abbreviation bl_run :: "rules_codec \<Rightarrow> refresh list \<Rightarrow> blacklistCache \<Rightarrow> blacklistCache" where
  "bl_run C ss bl \<equiv> fold (refresh_with (bl_fetch C) no_disk) ss bl"
abbreviation ta_run :: "rules_codec \<Rightarrow> refresh list \<Rightarrow> torrentAllowedCache \<Rightarrow> torrentAllowedCache" where
  "ta_run C ss ta \<equiv> fold (refresh_with (ta_fetch C) no_disk) ss ta"


section \<open>The arbiter's rules are applied\<close>

text \<open>The arbiter as the HTTP server behind the address the exits use; no statement of its database fails.\<close>

definition jsonErr :: "string \<Rightarrow> bytes" where
  "jsonErr msg = str_bytes (''{'' @ [CHR 0x22] @ ''error'' @ [CHR 0x22] @ '':'' @ [CHR 0x22] @ msg @ [CHR 0x22] @ ''}'')"

definition api_response :: "api_reply \<Rightarrow> http_result" where
  "api_response r = (case r of JsonErr msg st \<Rightarrow> Response st (jsonErr msg) | JsonBody b \<Rightarrow> Response 200 b)"

definition arbiter_serves :: "rules_codec \<Rightarrow> caps_codec \<Rightarrow> bytes \<Rightarrow> bytes option \<Rightarrow> gotime \<Rightarrow> string \<Rightarrow> database \<Rightarrow> request \<Rightarrow> http_result" where
  "arbiter_serves C K priv rnd now base db rq =
     (let token = coalesce (map_of (rq_header rq) ''X-Node-Token''); none = (\<lambda>_. False) in
      if rq_url rq = base @ ''/api/whitelist'' then api_response (apiWhitelist C K priv none now token db)
      else if rq_url rq = base @ ''/api/service-blocks'' then api_response (apiServiceRegionBlocks C K priv none now token db)
      else if rq_url rq = base @ ''/api/anon-bootstrap'' then api_response (fst (apiAnonBootstrap C K priv none rnd now token db))
      else if rq_url rq = base @ ''/api/blacklist'' then api_response (apiBlacklist C K priv none now token db)
      else if rq_url rq = base @ ''/api/torrent-blocked'' then api_response (apiTorrentBlocked C K priv none now token db)
      else Response 404 [])"

lemma verified_own:
  assumes "signer_ok C priv pub" and "pk = None \<or> pk = Some pub"
  shows "verified C pk m (b64_encode (ed_sign C priv m))"
  using assms by (auto simp: verified_def signer_ok_def)

lemma for_exit:
  assumes "nodeByToken False K tok db = Some (Some node)" and "n_type node = ''exit''" and "tok \<noteq> []" and "''exit'' \<in> set types"
  shows "for_node False K types tok db = Inr node"
  using assms by (simp add: for_node_def)

lemma fetched_small:
  assumes "rl_http W rq = Response 200 body" and "length body \<le> n"
  shows "fetched W rq n = Some body"
  using assms by (simp add: fetched_def)

text \<open>The texts of the tables are valid UTF-8.\<close>

definition policies_utf8 :: "rules_codec \<Rightarrow> database \<Rightarrow> bool" where
  "policies_utf8 C db \<longleftrightarrow>
     (\<forall>r \<in> set (db_whitelist db) \<union> set (db_anon db). pair_ok C (r_type r, r_value r)) \<and>
     (\<forall>b \<in> set (db_blocks db). pair_ok C (b_type b, b_value b) \<and> (\<forall>x \<in> set (items (csv_regions (b_blocked_regions b))). valid_utf8 C x)) \<and>
     (\<forall>a \<in> set (db_blacklist db) \<union> set (db_torrent db). valid_utf8 C (a_addr a))"

lemma lower_addrs_iff: "ToLower a \<in> set (lower_addrs as) \<longleftrightarrow> a \<noteq> [] \<and> (\<exists>b \<in> set (items as). EqualFold a b)"
proof
  assume "ToLower a \<in> set (lower_addrs as)"
  then obtain b where b: "b \<in> set (items as)" "b \<noteq> []" "ToLower a = ToLower b" by (auto simp: lower_addrs_def)
  then show "a \<noteq> [] \<and> (\<exists>b \<in> set (items as). EqualFold a b)" unfolding EqualFold_def by (metis ToLower_simps(2))
next
  assume a: "a \<noteq> [] \<and> (\<exists>b \<in> set (items as). EqualFold a b)"
  then obtain b where b: "b \<in> set (items as)" "ToLower a = ToLower b" by (auto simp: EqualFold_def)
  then have "b \<noteq> []" using a by (metis ToLower_simps(2))
  then show "ToLower a \<in> set (lower_addrs as)" using b by (simp add: lower_addrs_def)
qed

lemma whitelist_parsed:
  assumes "rules_json_ok C" and "signer_ok C priv pub" and "pk = None \<or> pk = Some pub" and "policies_utf8 C db"
  shows "wl_parseAndVerify C E pk (signWhitelist C priv now (sort_key r_id (db_whitelist db))) =
    Some (List.map_filter (parse_rule E) (map (\<lambda>e. (r_type e, r_value e)) (sort_key r_id (db_whitelist db))))"
  using assms verified_own [OF assms(2,3)]
  by (simp add: wl_parseAndVerify_def signWhitelist_def Let_def rules_json_ok_def slice_all_def policies_utf8_def list_all_iff items_def)

lemma blocks_parsed:
  assumes "rules_json_ok C" and "signer_ok C priv pub" and "pk = None \<or> pk = Some pub" and "policies_utf8 C db"
    and "entries = map (\<lambda>e. \<lparr>rb_type = b_type e, rb_value = b_value e, rb_regions = csv_regions (b_blocked_regions e)\<rparr>) (sort_key b_id (db_blocks db))"
  shows "sb_parseAndVerify C E pk (signServiceRegionBlocks C priv now entries) =
    Some (List.map_filter (parse_block E) (map (\<lambda>e. (b_type e, b_value e, csv_regions (b_blocked_regions e))) (sort_key b_id (db_blocks db))))"
proof -
  let ?w = "map (\<lambda>e. (b_type e, b_value e, csv_regions (b_blocked_regions e))) (sort_key b_id (db_blocks db))"
  have "slice_all (\<lambda>(t, v, rs). pair_ok C (t, v) \<and> slice_all (valid_utf8 C) rs) (Some ?w)"
    using assms(4) by (auto simp: slice_all_def list_all_iff policies_utf8_def items_def split: option.splits)
  then have "dec_blocks C (enc_blocks C \<lparr>sb_TS = ts, sb_Entries = Some ?w, sb_Sig = b64_encode s\<rparr>) =
      Some \<lparr>sb_TS = ts, sb_Entries = Some ?w, sb_Sig = b64_encode s\<rparr>" for ts s
    using assms(1) by (simp add: rules_json_ok_def)
  then show ?thesis using verified_own [OF assms(2,3)]
    by (simp add: sb_parseAndVerify_def signServiceRegionBlocks_def Let_def assms(5) items_def comp_def)
qed

lemma anon_parsed:
  assumes "rules_json_ok C" and "signer_ok C priv pub" and "pk = None \<or> pk = Some pub" and "policies_utf8 C db" and "valid_utf8 C t"
  shows "ab_parseAndVerify C E pk (signAnonBootstrap C priv now t (sort_key r_id (db_anon db))) =
    Some (t, List.map_filter (parse_rule E) (map (\<lambda>e. (r_type e, r_value e)) (sort_key r_id (db_anon db))))"
  using assms verified_own [OF assms(2,3)]
  by (simp add: ab_parseAndVerify_def signAnonBootstrap_def Let_def rules_json_ok_def slice_all_def policies_utf8_def list_all_iff items_def)

lemma blacklist_parsed:
  assumes "rules_json_ok C" and "signer_ok C priv pub" and "pk = None \<or> pk = Some pub" and "policies_utf8 C db"
  shows "bl_parseAndVerify C pk (signBlacklist C priv now (sort_key a_id (db_blacklist db))) = Some (lower_addrs (Some (map a_addr (sort_key a_id (db_blacklist db)))))"
  using assms verified_own [OF assms(2,3)]
  by (simp add: bl_parseAndVerify_def signBlacklist_def Let_def rules_json_ok_def slice_all_def policies_utf8_def list_all_iff)

lemma torrent_parsed:
  assumes "rules_json_ok C" and "signer_ok C priv pub" and "pk = None \<or> pk = Some pub" and "policies_utf8 C db"
  shows "ta_parseAndVerify C pk (signTorrentBlocked C priv now (sort_key a_id (db_torrent db)) self) =
    Some (lower_addrs (Some (map a_addr (sort_key a_id (db_torrent db)))), \<not> (\<exists>a \<in> set (db_torrent db). a_addr a = self))"
  using assms verified_own [OF assms(2,3)]
  by (simp add: ta_parseAndVerify_def signTorrentBlocked_def Let_def rules_json_ok_def slice_all_def policies_utf8_def list_all_iff list_ex_iff)

text \<open>An exit with its token, the arbiter behind the address it was given, and documents within the limit.\<close>

definition exit_of :: "rules_codec \<Rightarrow> caps_codec \<Rightarrow> bytes \<Rightarrow> bytes option \<Rightarrow> string \<Rightarrow> Node \<Rightarrow> string \<Rightarrow> string \<Rightarrow> database \<Rightarrow> rules_world \<Rightarrow> bool" where
  "exit_of C K priv pk tok node anon base db W \<longleftrightarrow> rules_json_ok C \<and> (\<exists>pub. signer_ok C priv pub \<and> (pk = None \<or> pk = Some pub)) \<and>
     (nodeByToken False K tok db = Some (Some node) \<and> n_type node = ''exit'' \<and> tok \<noteq> []) \<and>
     (policies_utf8 C db \<and> getSetting False anonBootstrapTokenSettingKey db = Some (Some anon) \<and> anon \<noteq> [] \<and> valid_utf8 C anon) \<and>
     (\<exists>rnd now. rl_http W = arbiter_serves C K priv rnd now base db) \<and>
     (\<forall>rq st body. rl_http W rq = Response st body \<longrightarrow> length body \<le> 2 ^ 16)"

lemma exit_gets:
  assumes "exit_of C K priv pk tok node anon base db W" and "2 ^ 16 \<le> n"
  shows "\<exists>now. fetched W (arbiter_get base ''/api/whitelist'' tok) n = Some (signWhitelist C priv now (sort_key r_id (db_whitelist db)))"
    and "\<exists>now. fetched W (arbiter_get base ''/api/service-blocks'' tok) n = Some (signServiceRegionBlocks C priv now
      (map (\<lambda>e. \<lparr>rb_type = b_type e, rb_value = b_value e, rb_regions = csv_regions (b_blocked_regions e)\<rparr>) (sort_key b_id (db_blocks db))))"
    and "\<exists>now. fetched W (arbiter_get base ''/api/anon-bootstrap'' tok) n = Some (signAnonBootstrap C priv now anon (sort_key r_id (db_anon db)))"
    and "\<exists>now. fetched W (arbiter_get base ''/api/blacklist'' tok) n = Some (signBlacklist C priv now (sort_key a_id (db_blacklist db)))"
    and "\<exists>now. fetched W (arbiter_get base ''/api/torrent-blocked'' tok) n = Some (signTorrentBlocked C priv now (sort_key a_id (db_torrent db)) (n_addr node))"
proof -
  from assms(1) obtain rnd now where net: "rl_http W = arbiter_serves C K priv rnd now base db" by (auto simp: exit_of_def)
  have node: "''exit'' \<in> set types \<Longrightarrow> for_node False K types tok db = Inr node" for types using assms(1) for_exit by (auto simp: exit_of_def)
  have anon: "getSetting False anonBootstrapTokenSettingKey db = Some (Some anon)" "anon \<noteq> []" using assms(1) by (simp_all add: exit_of_def)
  have get: "\<exists>now. fetched W rq n = Some (body now)" if "rl_http W rq = Response 200 (body now)" for rq body
    using fetched_small [OF that] that assms by (fastforce simp: exit_of_def)
  note serve = net arbiter_serves_def Let_def arbiter_get_def api_response_def coalesce_def node
  show "\<exists>now. fetched W (arbiter_get base ''/api/whitelist'' tok) n = Some (signWhitelist C priv now (sort_key r_id (db_whitelist db)))"
    by (rule get) (simp add: serve apiWhitelist_def listWhitelistEntries_def)
  show "\<exists>now. fetched W (arbiter_get base ''/api/service-blocks'' tok) n = Some (signServiceRegionBlocks C priv now
      (map (\<lambda>e. \<lparr>rb_type = b_type e, rb_value = b_value e, rb_regions = csv_regions (b_blocked_regions e)\<rparr>) (sort_key b_id (db_blocks db))))"
    by (rule get) (simp add: serve apiServiceRegionBlocks_def listServiceRegionBlocks_def)
  show "\<exists>now. fetched W (arbiter_get base ''/api/anon-bootstrap'' tok) n = Some (signAnonBootstrap C priv now anon (sort_key r_id (db_anon db)))"
    using anon by (intro get) (simp add: serve apiAnonBootstrap_def listAnonAllowlistEntries_def getOrCreateAnonBootstrapToken_def)
  show "\<exists>now. fetched W (arbiter_get base ''/api/blacklist'' tok) n = Some (signBlacklist C priv now (sort_key a_id (db_blacklist db)))"
    by (rule get) (simp add: serve apiBlacklist_def listBlacklistEntries_def)
  show "\<exists>now. fetched W (arbiter_get base ''/api/torrent-blocked'' tok) n = Some (signTorrentBlocked C priv now (sort_key a_id (db_torrent db)) (n_addr node))"
    by (rule get) (simp add: serve apiTorrentBlocked_def listTorrentBlockedEntries_def)
qed

lemma exit_laws:
  assumes "exit_of C K priv pk tok node anon base db W"
  obtains pub where "rules_json_ok C" and "signer_ok C priv pub" and "pk = None \<or> pk = Some pub" and "policies_utf8 C db" and "valid_utf8 C anon" and "anon \<noteq> []"
  using assms unfolding exit_of_def by blast

lemma whitelist_enforced:
  assumes "exit_of C K priv pk tok node anon (TrimRight CHR ''/'' url) db W"
  shows "\<exists>wl. wl_refresh C E W (newWhitelistCache url tok pk f) = (True, wl) \<and>
    (\<forall>host ip. IsWhitelisted E wl host ip \<longleftrightarrow> (\<exists>r \<in> set (db_whitelist db). covers E (r_type r) (r_value r) host ip))"
proof -
  from assms obtain pub where laws: "rules_json_ok C" "signer_ok C priv pub" "pk = None \<or> pk = Some pub" "policies_utf8 C db" by (rule exit_laws)
  obtain now where "fetched W (arbiter_get (TrimRight CHR ''/'' url) ''/api/whitelist'' tok) (2 ^ 20) =
      Some (signWhitelist C priv now (sort_key r_id (db_whitelist db)))" using exit_gets(1) [OF assms, of "2 ^ 20"] by auto
  then have "wl_refresh C E W (newWhitelistCache url tok pk f) = (True, newWhitelistCache url tok pk f\<lparr>wl_entries :=
      List.map_filter (parse_rule E) (map (\<lambda>e. (r_type e, r_value e)) (sort_key r_id (db_whitelist db))), wl_fetchedAt := rl_now W\<rparr>)"
    by (simp add: wl_refresh_def wl_fetch_def newWhitelistCache_def whitelist_parsed [OF laws])
  then show ?thesis by (simp add: whitelist_match)
qed

lemma blocks_enforced:
  assumes "exit_of C K priv pk tok node anon (TrimRight CHR ''/'' url) db W"
  shows "\<exists>sb. sb_refresh C E W (newServiceBlockCache url tok pk f) = (True, sb) \<and>
    (\<forall>host ip region. IsBlockedForRegion E sb host ip region \<longleftrightarrow>
       region \<noteq> [] \<and> (\<exists>b \<in> set (db_blocks db). blocks E host ip region (b_type b, b_value b, csv_regions (b_blocked_regions b))))"
proof -
  let ?es = "map (\<lambda>e. \<lparr>rb_type = b_type e, rb_value = b_value e, rb_regions = csv_regions (b_blocked_regions e)\<rparr>) (sort_key b_id (db_blocks db))"
  from assms obtain pub where laws: "rules_json_ok C" "signer_ok C priv pub" "pk = None \<or> pk = Some pub" "policies_utf8 C db" by (rule exit_laws)
  obtain now where "fetched W (arbiter_get (TrimRight CHR ''/'' url) ''/api/service-blocks'' tok) (2 ^ 20) = Some (signServiceRegionBlocks C priv now ?es)"
    using exit_gets(2) [OF assms, of "2 ^ 20"] by auto
  then have "sb_refresh C E W (newServiceBlockCache url tok pk f) = (True, newServiceBlockCache url tok pk f\<lparr>sb_entries :=
      List.map_filter (parse_block E) (map (\<lambda>e. (b_type e, b_value e, csv_regions (b_blocked_regions e))) (sort_key b_id (db_blocks db))), sb_fetchedAt := rl_now W\<rparr>)"
    by (simp add: sb_refresh_def sb_fetch_def newServiceBlockCache_def blocks_parsed [OF laws refl])
  then show ?thesis by (simp add: block_match list_ex_iff)
qed

lemma anon_enforced:
  assumes "exit_of C K priv pk tok node anon (TrimRight CHR ''/'' url) db W"
  shows "\<exists>ab. ab_refresh C E W (newAnonBootstrapCache url tok pk f) = (True, ab) \<and> (\<forall>t. IsBootstrapToken ab t \<longleftrightarrow> t = anon) \<and>
    (\<forall>host ip. ab_IsAllowed E ab host ip \<longleftrightarrow>
       (\<exists>r \<in> set (db_anon db). (r_type r \<noteq> ''cidr'' \<longrightarrow> host \<noteq> []) \<and> covers E (r_type r) (r_value r) host ip))"
proof -
  from assms obtain pub where laws: "rules_json_ok C" "signer_ok C priv pub" "pk = None \<or> pk = Some pub" "policies_utf8 C db" "valid_utf8 C anon" "anon \<noteq> []"
    by (rule exit_laws)
  obtain now where "fetched W (arbiter_get (TrimRight CHR ''/'' url) ''/api/anon-bootstrap'' tok) (2 ^ 20) =
      Some (signAnonBootstrap C priv now anon (sort_key r_id (db_anon db)))" using exit_gets(3) [OF assms, of "2 ^ 20"] by auto
  then obtain ab where ab: "ab_refresh C E W (newAnonBootstrapCache url tok pk f) = (True, ab)" "ab_token ab = anon"
    "ab_entries ab = List.map_filter (parse_rule E) (map (\<lambda>e. (r_type e, r_value e)) (sort_key r_id (db_anon db)))"
    by (simp add: ab_refresh_def ab_fetch_def newAnonBootstrapCache_def anon_parsed [OF laws(1-5)])
  have "IsBootstrapToken ab t \<longleftrightarrow> t = anon" for t using ab(2) laws(6) by (auto simp: IsBootstrapToken_def)
  moreover have "ab_IsAllowed E ab host ip \<longleftrightarrow>
      (\<exists>r \<in> set (db_anon db). (r_type r \<noteq> ''cidr'' \<longrightarrow> host \<noteq> []) \<and> covers E (r_type r) (r_value r) host ip)" for host ip
    unfolding ab_IsAllowed_def ab(3) rules_match by simp
  ultimately show ?thesis using ab(1) by blast
qed

lemma addresses_enforced:
  assumes "exit_of C K priv pk tok node anon (TrimRight CHR ''/'' url) db W"
  shows "\<exists>bl. bl_fetch C W (newBlacklistCache url tok pk) = (True, bl) \<and>
      (\<forall>host. IsBlacklisted bl host \<longleftrightarrow> host \<noteq> [] \<and> (\<exists>a \<in> set (db_blacklist db). EqualFold host (a_addr a)))"
    and "\<exists>ta. ta_fetch C W (newTorrentAllowedCache url tok pk) = (True, ta) \<and>
      (\<forall>addr. ta_IsAllowed ta addr \<longleftrightarrow> addr = [] \<or> (\<forall>a \<in> set (db_torrent db). \<not> EqualFold addr (a_addr a))) \<and>
      (SelfAllowed ta \<longleftrightarrow> (\<forall>a \<in> set (db_torrent db). a_addr a \<noteq> n_addr node))"
proof -
  from assms obtain pub where laws: "rules_json_ok C" "signer_ok C priv pub" "pk = None \<or> pk = Some pub" "policies_utf8 C db" by (rule exit_laws)
  obtain now where "fetched W (arbiter_get (TrimRight CHR ''/'' url) ''/api/blacklist'' tok) (2 ^ 16) =
      Some (signBlacklist C priv now (sort_key a_id (db_blacklist db)))" using exit_gets(4) [OF assms, of "2 ^ 16"] by auto
  then show "\<exists>bl. bl_fetch C W (newBlacklistCache url tok pk) = (True, bl) \<and>
      (\<forall>host. IsBlacklisted bl host \<longleftrightarrow> host \<noteq> [] \<and> (\<exists>a \<in> set (db_blacklist db). EqualFold host (a_addr a)))"
    by (simp add: bl_fetch_def newBlacklistCache_def blacklist_parsed [OF laws] IsBlacklisted_def lower_addrs_iff items_def)
  obtain now where "fetched W (arbiter_get (TrimRight CHR ''/'' url) ''/api/torrent-blocked'' tok) (2 ^ 16) =
      Some (signTorrentBlocked C priv now (sort_key a_id (db_torrent db)) (n_addr node))" using exit_gets(5) [OF assms, of "2 ^ 16"] by auto
  then show "\<exists>ta. ta_fetch C W (newTorrentAllowedCache url tok pk) = (True, ta) \<and>
      (\<forall>addr. ta_IsAllowed ta addr \<longleftrightarrow> addr = [] \<or> (\<forall>a \<in> set (db_torrent db). \<not> EqualFold addr (a_addr a))) \<and>
      (SelfAllowed ta \<longleftrightarrow> (\<forall>a \<in> set (db_torrent db). a_addr a \<noteq> n_addr node))"
    by (auto simp: ta_fetch_def newTorrentAllowedCache_def torrent_parsed [OF laws] ta_IsAllowed_def SelfAllowed_def lower_addrs_iff items_def)
qed


text \<open>An instance: documents as self-delimiting bytes, constant signatures, a wildcard, a region block and a blacklisted address.\<close>

definition put_rules :: "(string \<times> string) list option \<Rightarrow> bytes" where "put_rules = put_opt (put_list (put_pair put_str put_str))"
definition get_rules :: "bytes \<Rightarrow> ((string \<times> string) list option \<times> bytes) option" where "get_rules = get_opt (get_list (get_pair get_str get_str))"
definition put_blocks :: "(string \<times> string \<times> string list option) list option \<Rightarrow> bytes" where
  "put_blocks = put_opt (put_list (put_pair put_str (put_pair put_str (put_opt (put_list put_str)))))"
definition get_blocks :: "bytes \<Rightarrow> ((string \<times> string \<times> string list option) list option \<times> bytes) option" where
  "get_blocks = get_opt (get_list (get_pair get_str (get_pair get_str (get_opt (get_list get_str)))))"
definition put_addrs :: "string list option \<Rightarrow> bytes" where "put_addrs = put_opt (put_list put_str)"
definition get_addrs :: "bytes \<Rightarrow> (string list option \<times> bytes) option" where "get_addrs = get_opt (get_list get_str)"

definition sample_rules :: rules_codec where
  "sample_rules = \<lparr>canon_rules = (\<lambda>ts es. put_rules es), canon_blocks = (\<lambda>ts es. put_blocks es), canon_anon = (\<lambda>ts t es. put_rules es),
     canon_addrs = (\<lambda>ts as. put_addrs as),
     enc_whitelist = (\<lambda>w. put_pair put_int (put_pair put_rules put_str) (sw_TS w, sw_Entries w, sw_Sig w)),
     dec_whitelist = (\<lambda>b. map_option (\<lambda>(ts, es, sig). \<lparr>sw_TS = ts, sw_Entries = es, sw_Sig = sig\<rparr>) (whole (get_pair get_int (get_pair get_rules get_str)) b)),
     enc_blocks = (\<lambda>w. put_pair put_int (put_pair put_blocks put_str) (sb_TS w, sb_Entries w, sb_Sig w)),
     dec_blocks = (\<lambda>b. map_option (\<lambda>(ts, es, sig). \<lparr>sb_TS = ts, sb_Entries = es, sb_Sig = sig\<rparr>) (whole (get_pair get_int (get_pair get_blocks get_str)) b)),
     enc_anon = (\<lambda>w. put_pair put_int (put_pair put_str (put_pair put_rules put_str)) (sa_TS w, sa_Token w, sa_Entries w, sa_Sig w)),
     dec_anon = (\<lambda>b. map_option (\<lambda>(ts, t, es, sig). \<lparr>sa_TS = ts, sa_Token = t, sa_Entries = es, sa_Sig = sig\<rparr>)
       (whole (get_pair get_int (get_pair get_str (get_pair get_rules get_str))) b)),
     enc_blacklist = (\<lambda>w. put_pair put_int (put_pair put_addrs put_str) (bl_TS w, bl_Addrs w, bl_Sig w)),
     dec_blacklist = (\<lambda>b. map_option (\<lambda>(ts, as, sig). \<lparr>bl_TS = ts, bl_Addrs = as, bl_Sig = sig\<rparr>) (whole (get_pair get_int (get_pair get_addrs get_str)) b)),
     enc_torrent = (\<lambda>w. put_pair put_int (put_pair put_addrs (put_pair put_bool put_str)) (tb_TS w, tb_Addrs w, tb_SelfAllowed w, tb_Sig w)),
     dec_torrent = (\<lambda>b. map_option (\<lambda>(ts, as, self, sig). \<lparr>tb_TS = ts, tb_Addrs = as, tb_SelfAllowed = self, tb_Sig = sig\<rparr>)
       (whole (get_pair get_int (get_pair get_addrs (get_pair get_bool get_str))) b)),
     ed_sign = (\<lambda>priv m. replicate 64 0), ed_verify = (\<lambda>pub m sig. sig = replicate 64 0), valid_utf8 = (\<lambda>s. True)\<rparr>"

lemma sample_rules_ok: "rules_json_ok sample_rules" "signer_ok sample_rules priv pub"
proof -
  have rules: "prefix_code put_rules get_rules" unfolding put_rules_def get_rules_def by (intro prefix_codes)
  have blocks: "prefix_code put_blocks get_blocks" unfolding put_blocks_def get_blocks_def by (intro prefix_codes)
  have addrs: "prefix_code put_addrs get_addrs" unfolding put_addrs_def get_addrs_def by (intro prefix_codes)
  show "rules_json_ok sample_rules" unfolding rules_json_ok_def sample_rules_def
    using whole_code [OF pair_code [OF int_code pair_code [OF rules str_code]]] whole_code [OF pair_code [OF int_code pair_code [OF blocks str_code]]]
      whole_code [OF pair_code [OF int_code pair_code [OF addrs str_code]]]
      whole_code [OF pair_code [OF int_code pair_code [OF str_code pair_code [OF rules str_code]]]]
      whole_code [OF pair_code [OF int_code pair_code [OF addrs pair_code [OF bool_code str_code]]]] by simp
  show "signer_ok sample_rules priv pub" by (simp add: signer_ok_def sample_rules_def)
qed

definition policy_db :: database where
  "policy_db = empty_db\<lparr>db_users := [sample_user], db_nodes := [approved_node],
     db_whitelist := [\<lparr>r_id = 1, r_type = ''wildcard'', r_value = ''*.a.b'', r_created_at = 0\<rparr>],
     db_blocks := [\<lparr>b_id = 1, b_type = ''domain'', b_value = ''X.y'', b_blocked_regions = ''RU,EU'', b_reason = [], b_created_at = 0\<rparr>],
     db_blacklist := [\<lparr>a_id = 1, a_addr = ''Bad'', a_reason = [], a_created_at = 0\<rparr>],
     db_settings := [\<lparr>st_key = anonBootstrapTokenSettingKey, st_value = ''t'', st_updated_at = 0, st_updated_by = []\<rparr>]\<rparr>"

definition sample_net :: net_env where "sample_net = \<lparr>ParseCIDR = (\<lambda>s. None), ParseIP = (\<lambda>s. None)\<rparr>"

definition sample_exit_world :: rules_world where
  "sample_exit_world = \<lparr>rl_http = arbiter_serves sample_rules sample_caps [] None 0 ''u'' policy_db, rl_now = 0, rl_disk = None\<rparr>"

lemma policy_node: "nodeByToken False sample_caps (b64_encode [0, 0, 0]) policy_db = Some (Some (scan_node sample_caps sample_user approved_node))"
  by (simp add: nodeByToken_def scanNodes_def List.map_filter_def first_node_def approved_node_def sample_node_def new_node_def
      sample_user_def new_user_def sql_row_def policy_db_def empty_db_def)

lemma b64_length: "length (b64_encode bs) \<le> 2 * length bs"
proof -
  have "length (b64_sextets bs) \<le> 2 * length bs" by (induction bs rule: b64_sextets.induct) (simp_all add: Let_def)
  then show ?thesis by (simp add: b64_encode_def)
qed

lemma sample_regions: "csv_regions ''RU,EU'' = Some [''RU'', ''EU'']"
  by (simp add: csv_regions_def TrimSpace_def is_space_def)

lemma sample_documents:
  "length (signWhitelist sample_rules [] 0 (db_whitelist policy_db)) \<le> 500"
  "length (signServiceRegionBlocks sample_rules [] 0 [\<lparr>rb_type = ''domain'', rb_value = ''X.y'', rb_regions = Some [''RU'', ''EU'']\<rparr>]) \<le> 500"
  "length (signAnonBootstrap sample_rules [] 0 ''t'' (db_anon policy_db)) \<le> 500"
  "length (signBlacklist sample_rules [] 0 (db_blacklist policy_db)) \<le> 500"
  "length (signTorrentBlocked sample_rules [] 0 (db_torrent policy_db) self) \<le> 500"
  using b64_length [of "replicate 64 0"]
  by (simp_all add: signWhitelist_def signServiceRegionBlocks_def signBlacklist_def signTorrentBlocked_def signAnonBootstrap_def sample_rules_def
      put_rules_def put_blocks_def put_addrs_def time_unix_def policy_db_def empty_db_def Let_def)

definition reply_body :: "api_reply \<Rightarrow> bytes" where
  "reply_body r = (case r of JsonErr msg st \<Rightarrow> jsonErr msg | JsonBody b \<Rightarrow> b)"

lemma response_body: "api_response r = Response st body \<Longrightarrow> body = reply_body r"
  by (auto simp: api_response_def reply_body_def split: api_reply.splits)

lemma refused_body: "for_node False K types tok db = Inl e \<Longrightarrow> length (reply_body e) \<le> 500"
  by (auto simp: for_node_def reply_body_def jsonErr_def split: option.splits if_splits)

lemma sample_bodies:
  "length (reply_body (apiWhitelist sample_rules K [] (\<lambda>_. False) 0 tok policy_db)) \<le> 500"
  "length (reply_body (apiServiceRegionBlocks sample_rules K [] (\<lambda>_. False) 0 tok policy_db)) \<le> 500"
  "length (reply_body (apiBlacklist sample_rules K [] (\<lambda>_. False) 0 tok policy_db)) \<le> 500"
  "length (reply_body (apiTorrentBlocked sample_rules K [] (\<lambda>_. False) 0 tok policy_db)) \<le> 500"
proof -
  have one: "sort_key r_id (db_whitelist policy_db) = db_whitelist policy_db" "sort_key a_id (db_blacklist policy_db) = db_blacklist policy_db"
    "sort_key a_id (db_torrent policy_db) = db_torrent policy_db"
    "map (\<lambda>e. \<lparr>rb_type = b_type e, rb_value = b_value e, rb_regions = csv_regions (b_blocked_regions e)\<rparr>) (sort_key b_id (db_blocks policy_db)) =
       [\<lparr>rb_type = ''domain'', rb_value = ''X.y'', rb_regions = Some [''RU'', ''EU'']\<rparr>]"
    by (simp_all add: policy_db_def empty_db_def sample_regions)
  show "length (reply_body (apiWhitelist sample_rules K [] (\<lambda>_. False) 0 tok policy_db)) \<le> 500"
    "length (reply_body (apiServiceRegionBlocks sample_rules K [] (\<lambda>_. False) 0 tok policy_db)) \<le> 500"
    "length (reply_body (apiBlacklist sample_rules K [] (\<lambda>_. False) 0 tok policy_db)) \<le> 500"
    "length (reply_body (apiTorrentBlocked sample_rules K [] (\<lambda>_. False) 0 tok policy_db)) \<le> 500"
    using sample_documents
    by (auto simp: apiWhitelist_def apiServiceRegionBlocks_def apiBlacklist_def apiTorrentBlocked_def listWhitelistEntries_def
        listServiceRegionBlocks_def listBlacklistEntries_def listTorrentBlockedEntries_def one reply_body_def
        dest: refused_body [unfolded reply_body_def] split: sum.splits api_reply.splits)
qed

lemma sample_anon_body: "length (reply_body (fst (apiAnonBootstrap sample_rules K [] (\<lambda>_. False) None 0 tok policy_db))) \<le> 500"
proof (cases "for_node False K [''exit'', ''control''] tok policy_db")
  case (Inl e)
  then show ?thesis using refused_body [OF Inl] by (simp add: apiAnonBootstrap_def)
next
  case (Inr n)
  have "getOrCreateAnonBootstrapToken (\<lambda>i. False) None 0 policy_db = (Some ''t'', policy_db)"
    by (simp add: getOrCreateAnonBootstrapToken_def getSetting_def sql_row_def policy_db_def coalesce_def)
  moreover have "sort_key r_id (db_anon policy_db) = db_anon policy_db" by (simp add: policy_db_def empty_db_def)
  ultimately show ?thesis using Inr sample_documents(3) by (simp add: apiAnonBootstrap_def listAnonAllowlistEntries_def reply_body_def)
qed

lemma sample_small:
  assumes "rl_http sample_exit_world rq = Response st body"
  shows "length body \<le> 2 ^ 16"
proof -
  have "body = [] \<or> length body \<le> 500"
    using assms sample_bodies sample_anon_body
    unfolding sample_exit_world_def arbiter_serves_def Let_def
    by (auto dest!: response_body split: if_splits)
  then show ?thesis by auto
qed


end
