(* ===== verification/Arbiter_Keys.thy ===== *)
theory Arbiter_Keys
  imports Arbiter_Db
begin

text \<open>
  Keys of users (\<open>src/snc-arbiter/db_keys.go\<close>): issue, binding to a device, payment, reminders and expiry. The calendar of
  \<open>time.AddDate\<close> is modelled on day numbers; subscriptions are a table of key identifiers with their status.
\<close>

unbundle bit_operations_syntax

section \<open>Calendar\<close>

definition leap_year :: "int \<Rightarrow> bool" where
  "leap_year y \<longleftrightarrow> y mod 4 = 0 \<and> (y mod 100 \<noteq> 0 \<or> y mod 400 = 0)"

text \<open>Days before a year, counted from 1 January of year 1, and before a month of it.\<close>

definition days_before_year :: "int \<Rightarrow> int" where
  "days_before_year y = 365 * (y - 1) + (y - 1) div 4 - (y - 1) div 100 + (y - 1) div 400"

definition month_days :: "int \<Rightarrow> int \<Rightarrow> int" where
  "month_days y m = (if m = 2 then (if leap_year y then 29 else 28) else if m \<in> {4, 6, 9, 11} then 30 else 31)"

definition days_before_month :: "int \<Rightarrow> int \<Rightarrow> int" where
  "days_before_month y m = sum_list (map (month_days y) [1..m - 1])"

text \<open>\<open>time.Date\<close>: the month may be above 12, the day beyond the end of the month.\<close>

definition day_number :: "int \<Rightarrow> int \<Rightarrow> int \<Rightarrow> int" where
  "day_number y m d = (let y' = y + (m - 1) div 12; m' = (m - 1) mod 12 + 1 in days_before_year y' + days_before_month y' m' + d - 1)"

definition year_of :: "int \<Rightarrow> int" where
  "year_of n = (let n400 = n div 146097; d1 = n mod 146097;
     n100 = min 3 (d1 div 36524); d2 = d1 - 36524 * n100; n4 = d2 div 1461; d3 = d2 mod 1461; n1 = min 3 (d3 div 365) in
     400 * n400 + 100 * n100 + 4 * n4 + n1 + 1)"

definition month_of :: "int \<Rightarrow> int \<Rightarrow> int" where
  "month_of y yday = (case filter (\<lambda>m. yday < days_before_month y (m + 1)) [1..12] of [] \<Rightarrow> 12 | m # _ \<Rightarrow> m)"

definition civil :: "int \<Rightarrow> int \<times> int \<times> int" where
  "civil n = (let y = year_of n; yday = n - days_before_year y; m = month_of y yday in (y, m, yday - days_before_month y m + 1))"

definition unix_day0 :: int where "unix_day0 = 719162"

definition AddDate :: "gotime \<Rightarrow> int \<Rightarrow> int \<Rightarrow> int \<Rightarrow> gotime" where
  "AddDate t years months days = (let day = 86400 * second; (y, m, d) = civil (t div day + unix_day0) in
     (day_number (y + years) (m + months) (d + days) - unix_day0) * day + t mod day)"

section \<open>Keys\<close>

record KeyRow =
  kr_KeyID :: string
  kr_Username :: string
  kr_DeviceID :: string
  kr_DeviceName :: string
  kr_Enabled :: bool
  kr_IssuedAt :: gotime
  kr_BoundAt :: gotime
  kr_LastSeen :: gotime
  kr_PaidUntil :: "gotime option"
  kr_PlanPia :: int
  kr_ReminderSent :: nat
  kr_PreferredDurationDays :: int
  kr_UnlimitedDevices :: bool
  kr_SubStatus :: string
  kr_Source :: string

definition RegisterKey :: "bool \<Rightarrow> gotime \<Rightarrow> string \<Rightarrow> string \<Rightarrow> string \<Rightarrow> database \<Rightarrow> bool \<times> database" where
  "RegisterKey fails now keyID username source db = (if fails then (False, db)
     else (True, db\<lparr>db_keys := insert_ignore k_key_id \<lparr>k_key_id = keyID, k_username = username, k_device_id = None, k_device_name = None,
       k_enabled = True, k_issued_at = time_unix now, k_bound_at = 0, k_last_seen = 0, k_source = source, k_paid_until = None, k_plan_pia = 0,
       k_reminder_sent = 0, k_preferred_duration_days = 30, k_unlimited_devices = False, k_warn_count = 0, k_last_warned_at = 0\<rparr> (db_keys db)\<rparr>))"

definition update_key :: "bool \<Rightarrow> string \<Rightarrow> (KeyRecord \<Rightarrow> KeyRecord) \<Rightarrow> database \<Rightarrow> bool \<times> database" where
  "update_key fails keyID f db = (if fails then (False, db)
     else (True, db\<lparr>db_keys := sql_update (\<lambda>k. k_key_id k = keyID) f (db_keys db)\<rparr>))"

definition UpsertKeyDevice :: "bool \<Rightarrow> gotime \<Rightarrow> string \<Rightarrow> string \<Rightarrow> string \<Rightarrow> database \<Rightarrow> bool \<times> database" where
  "UpsertKeyDevice fails now keyID deviceID deviceName db = (if fails then (False, db)
     else (True, db\<lparr>db_keys := sql_update (\<lambda>k. k_key_id k = keyID \<and> k_device_id k = None)
       (\<lambda>k. k\<lparr>k_device_id := Some deviceID, k_device_name := Some deviceName, k_bound_at := time_unix now\<rparr>) (db_keys db)\<rparr>))"

definition scan_key :: "KeyRecord \<Rightarrow> KeyRow" where
  "scan_key k = \<lparr>kr_KeyID = k_key_id k, kr_Username = k_username k, kr_DeviceID = coalesce (k_device_id k), kr_DeviceName = coalesce (k_device_name k),
     kr_Enabled = k_enabled k, kr_IssuedAt = k_issued_at k * second, kr_BoundAt = k_bound_at k * second, kr_LastSeen = k_last_seen k * second,
     kr_PaidUntil = map_option (\<lambda>s. s * second) (k_paid_until k), kr_PlanPia = k_plan_pia k, kr_ReminderSent = k_reminder_sent k,
     kr_PreferredDurationDays = k_preferred_duration_days k, kr_UnlimitedDevices = k_unlimited_devices k, kr_SubStatus = [], kr_Source = []\<rparr>"

definition GetKey :: "bool \<Rightarrow> string \<Rightarrow> database \<Rightarrow> KeyRow option option" where
  "GetKey fails keyID db = (if fails then None else Some (map_option scan_key (sql_row k_key_id keyID (db_keys db))))"

definition SetKeyUnlimitedDevices :: "bool \<Rightarrow> string \<Rightarrow> bool \<Rightarrow> database \<Rightarrow> bool \<times> database" where
  "SetKeyUnlimitedDevices fails keyID unlimited = update_key fails keyID (\<lambda>k. k\<lparr>k_unlimited_devices := unlimited\<rparr>)"

definition SetKeyEnabled :: "bool \<Rightarrow> string \<Rightarrow> bool \<Rightarrow> database \<Rightarrow> bool \<times> database" where
  "SetKeyEnabled fails keyID enabled = update_key fails keyID (\<lambda>k. k\<lparr>k_enabled := enabled\<rparr>)"

definition QueryUserKeys :: "bool \<Rightarrow> (string \<times> string) list \<Rightarrow> string \<Rightarrow> database \<Rightarrow> KeyRow list option" where
  "QueryUserKeys fails subscriptions username db = (if fails then None
     else Some (concat (map (\<lambda>k.
       let statuses = map snd (filter (\<lambda>s. fst s = k_key_id k) subscriptions) in
       map (\<lambda>st. scan_key k\<lparr>kr_SubStatus := st, kr_Source := k_source k\<rparr>) (if statuses = [] then [[]] else statuses))
       (rev (sort_key k_issued_at (filter (\<lambda>k. k_username k = username) (db_keys db)))))))"

definition SetKeyPaidUntil :: "bool \<Rightarrow> string \<Rightarrow> gotime \<Rightarrow> int \<Rightarrow> database \<Rightarrow> bool \<times> database" where
  "SetKeyPaidUntil fails keyID paidUntil planPia =
     update_key fails keyID (\<lambda>k. k\<lparr>k_paid_until := Some (time_unix paidUntil), k_plan_pia := planPia, k_reminder_sent := 0\<rparr>)"

definition ClearKeyPaidUntil :: "bool \<Rightarrow> string \<Rightarrow> database \<Rightarrow> bool \<times> database" where
  "ClearKeyPaidUntil fails keyID = update_key fails keyID (\<lambda>k. k\<lparr>k_paid_until := None, k_plan_pia := 0, k_reminder_sent := 0\<rparr>)"

text \<open>A transaction: begin, read, write, commit are statements 0 to 3; the row lock and the engine make it one step.\<close>

datatype extend_error = TxFailed | KeyNotFound

definition ExtendKeyPaidUntil :: "faults \<Rightarrow> gotime \<Rightarrow> string \<Rightarrow> int \<Rightarrow> database \<Rightarrow> (extend_error + gotime) \<times> database" where
  "ExtendKeyPaidUntil faults now keyID planPia db =
     (if faults 0 \<or> faults 1 then (Inl TxFailed, db)
      else case sql_row k_key_id keyID (db_keys db) of
        None \<Rightarrow> (Inl KeyNotFound, db)
      | Some k \<Rightarrow>
          let base = (case k_paid_until k of Some p \<Rightarrow> (if p > time_unix now then p * second else now) | None \<Rightarrow> now);
              newUntil = AddDate base 0 1 0 in
          if faults 2 \<or> faults 3 then (Inl TxFailed, db)
          else (Inr newUntil, db\<lparr>db_keys := sql_update (\<lambda>k. k_key_id k = keyID)
            (\<lambda>k. k\<lparr>k_paid_until := Some (time_unix newUntil), k_plan_pia := planPia, k_reminder_sent := 0\<rparr>) (db_keys db)\<rparr>))"

definition GetKeysNeedingReminders :: "bool \<Rightarrow> gotime \<Rightarrow> gotime \<Rightarrow> duration list \<Rightarrow> database \<Rightarrow> KeyRow list option" where
  "GetKeysNeedingReminders fails now later thresholds db = (if fails then None
     else Some (filter (\<lambda>k. case kr_PaidUntil k of None \<Rightarrow> False
         | Some p \<Rightarrow> list_ex (\<lambda>(i, thresh). time_sub p later \<le> thresh \<and> kr_ReminderSent k AND push_bit i 1 = 0) (enumerate 0 thresholds))
       (map scan_key (filter (\<lambda>k. k_enabled k \<and> (case k_paid_until k of None \<Rightarrow> False | Some p \<Rightarrow> p > time_unix now)) (db_keys db)))))"

definition MarkReminderSent :: "bool \<Rightarrow> string \<Rightarrow> nat \<Rightarrow> database \<Rightarrow> bool \<times> database" where
  "MarkReminderSent fails keyID b = update_key fails keyID (\<lambda>k. k\<lparr>k_reminder_sent := k_reminder_sent k OR push_bit b 1\<rparr>)"

definition key_expired :: "gotime \<Rightarrow> KeyRecord \<Rightarrow> bool" where
  "key_expired now k \<longleftrightarrow> k_enabled k \<and> (case k_paid_until k of None \<Rightarrow> False | Some p \<Rightarrow> p < time_unix now)"

text \<open>Statement 0 selects, statement \<open>i + 1\<close> disables the key at position \<open>i\<close>; the errors of those are ignored.\<close>

definition DisableExpiredKeys :: "faults \<Rightarrow> gotime \<Rightarrow> database \<Rightarrow> (string \<times> string \<times> gotime) list option \<times> database" where
  "DisableExpiredKeys faults now db = (if faults 0 then (None, db)
     else let expired = map (\<lambda>k. (k_key_id k, k_username k, the (k_paid_until k) * second)) (filter (key_expired now) (db_keys db)) in
       (Some expired, fold (\<lambda>(i, e) d. snd (SetKeyEnabled (faults (Suc i)) (fst e) False d)) (enumerate 0 expired) db))"

definition GetKeyWarnState :: "bool \<Rightarrow> string \<Rightarrow> database \<Rightarrow> (int \<times> int) option" where
  "GetKeyWarnState fails keyID db = (if fails then None
     else Some (case sql_row k_key_id keyID (db_keys db) of None \<Rightarrow> (0, 0) | Some k \<Rightarrow> (k_warn_count k, k_last_warned_at k)))"

definition BumpKeyWarn :: "faults \<Rightarrow> gotime \<Rightarrow> string \<Rightarrow> database \<Rightarrow> int option \<times> database" where
  "BumpKeyWarn faults now keyID db =
     (case update_key (faults 0) keyID (\<lambda>k. k\<lparr>k_warn_count := k_warn_count k + 1, k_last_warned_at := time_unix now\<rparr>) db of
        (False, db1) \<Rightarrow> (None, db1)
      | (True, db1) \<Rightarrow> (Some (if faults 1 then 0 else case sql_row k_key_id keyID (db_keys db1) of None \<Rightarrow> 0 | Some k \<Rightarrow> k_warn_count k), db1))"

definition TouchKeyLastSeen :: "bool \<Rightarrow> gotime \<Rightarrow> string \<Rightarrow> database \<Rightarrow> bool \<times> database" where
  "TouchKeyLastSeen fails now keyID = update_key fails keyID (\<lambda>k. k\<lparr>k_last_seen := time_unix now\<rparr>)"

definition UnbindKey :: "bool \<Rightarrow> string \<Rightarrow> database \<Rightarrow> bool \<times> database" where
  "UnbindKey fails keyID = update_key fails keyID (\<lambda>k. k\<lparr>k_device_id := None, k_device_name := None, k_bound_at := 0\<rparr>)"

definition SetKeyPreferredDuration :: "bool \<Rightarrow> string \<Rightarrow> int \<Rightarrow> database \<Rightarrow> bool \<times> database" where
  "SetKeyPreferredDuration fails keyID durationDays = update_key fails keyID (\<lambda>k. k\<lparr>k_preferred_duration_days := durationDays\<rparr>)"

definition GetExpiredEnabledKeys :: "bool \<Rightarrow> gotime \<Rightarrow> database \<Rightarrow> KeyRow list option" where
  "GetExpiredEnabledKeys fails now db = (if fails then None else Some (map scan_key (filter (key_expired now) (db_keys db))))"

section \<open>Calendar arithmetic\<close>

lemma div_step:
  fixes y n :: int
  assumes "0 < n"
  shows "y div n = (y - 1) div n + (if y mod n = 0 then 1 else 0)"
proof (cases "y mod n = 0")
  case True
  have "y - 1 = n * (y div n - 1) + (n - 1)" using True mult_div_mod_eq [of n y] by (simp add: algebra_simps)
  then have "(y - 1) div n = y div n - 1" using assms by (intro int_div_pos_eq [where r = "n - 1"]) simp_all
  then show ?thesis using True by simp
next
  case False
  have "y - 1 = n * (y div n) + (y mod n - 1)" using mult_div_mod_eq [of n y] by (simp add: algebra_simps)
  moreover have "0 \<le> y mod n - 1" "y mod n - 1 < n" using assms False pos_mod_bound [of n y] pos_mod_sign [of n y] by linarith+
  ultimately have "(y - 1) div n = y div n" by (intro int_div_pos_eq)
  then show ?thesis using False by simp
qed

lemma year_length: "days_before_year (y + 1) = days_before_year y + (if leap_year y then 366 else 365)"
proof -
  have mods: "y mod 100 = 0 \<longrightarrow> y mod 4 = 0" "y mod 400 = 0 \<longrightarrow> y mod 100 = 0"
    using dvd_trans [of 4 100 y] dvd_trans [of 100 400 y] by (simp_all add: mod_eq_0_iff_dvd)
  define q4 q100 q400 where "q4 = (y - 1) div 4" and "q100 = (y - 1) div 100" and "q400 = (y - 1) div 400"
  define l4 l100 l400 where "l4 \<longleftrightarrow> y mod 4 = 0" and "l100 \<longleftrightarrow> y mod 100 = 0" and "l400 \<longleftrightarrow> y mod 400 = 0"
  have lm: "l100 \<longrightarrow> l4" "l400 \<longrightarrow> l100" using mods by (simp_all only: l4_def l100_def l400_def)
  have steps: "y div 4 = q4 + (if l4 then 1 else 0)" "y div 100 = q100 + (if l100 then 1 else 0)" "y div 400 = q400 + (if l400 then 1 else 0)"
    unfolding q4_def q100_def q400_def l4_def l100_def l400_def by (rule div_step, simp)+
  have "365 * (y + 1 - 1) + (q4 + (if l4 then 1 else 0)) - (q100 + (if l100 then 1 else 0)) + (q400 + (if l400 then 1 else 0)) =
      365 * (y - 1) + q4 - q100 + q400 + (if l4 \<and> (\<not> l100 \<or> l400) then 366 else 365)"
    using lm by (cases l4; cases l100; cases l400) simp_all
  then show ?thesis
    unfolding days_before_year_def leap_year_def add_diff_cancel_right' steps
    unfolding q4_def [symmetric] q100_def [symmetric] q400_def [symmetric] l4_def [symmetric] l100_def [symmetric] l400_def [symmetric] by simp
qed

lemma months_step: "1 \<le> m \<Longrightarrow> days_before_month y (m + 1) = days_before_month y m + month_days y m"
  by (simp add: days_before_month_def upto_rec2)

lemma months_first: "days_before_month y 1 = 0"
  by (simp add: days_before_month_def)

lemma months_total: "days_before_month y 13 = (if leap_year y then 366 else 365)"
  by (simp add: days_before_month_def upto_rec1 month_days_def)

lemma month_days_bounds: "28 \<le> month_days y m" "month_days y m \<le> 31"
  by (simp_all add: month_days_def)

lemma year_of_contains: "days_before_year (year_of n) \<le> n \<and> n < days_before_year (year_of n + 1)"
proof -
  define a where "a = n div 146097"
  define d1 where "d1 = n mod 146097"
  define b where "b = min 3 (d1 div 36524)"
  define d2 where "d2 = d1 - 36524 * b"
  define c where "c = d2 div 1461"
  define d3 where "d3 = d2 mod 1461"
  define e where "e = min 3 (d3 div 365)"
  have y: "year_of n = 400 * a + 100 * b + 4 * c + e + 1" by (simp add: year_of_def Let_def a_def b_def c_def d1_def d2_def d3_def e_def)
  have quot: "(k::int) * (x div k) \<le> x" "x < k * (x div k) + k" if "0 < k" for x k
    using that mult_div_mod_eq [of k x] pos_mod_bound [of k x] pos_mod_sign [of k x] by linarith+
  have n: "n = 146097 * a + d1" "0 \<le> d1" "d1 < 146097" by (simp_all add: a_def d1_def)
  have b: "0 \<le> b" "b \<le> 3" "0 \<le> d2" "d2 \<le> 36524" "b < 3 \<Longrightarrow> d2 < 36524" using n quot [of 36524 d1] unfolding d2_def b_def by linarith+
  have c0: "d2 = 1461 * c + d3" "0 \<le> d3" "d3 < 1461" by (simp_all add: c_def d3_def)
  then have c: "d2 = 1461 * c + d3" "0 \<le> d3" "d3 < 1461" "0 \<le> c" "c \<le> 24" using b by linarith+
  have e: "0 \<le> e" "e \<le> 3" "365 * e \<le> d3" "d3 \<le> 365 * e + 365" "e < 3 \<Longrightarrow> d3 < 365 * e + 365" using c quot [of 365 d3] unfolding e_def by linarith+
  have "(400 * a + 100 * b + 4 * c + e) div 4 = 100 * a + 25 * b + c" using e by (intro int_div_pos_eq [where r = e]) simp_all
  moreover have "(400 * a + 100 * b + 4 * c + e) div 100 = 4 * a + b" using c e by (intro int_div_pos_eq [where r = "4 * c + e"]) simp_all
  moreover have "(400 * a + 100 * b + 4 * c + e) div 400 = a" using b c e by (intro int_div_pos_eq [where r = "100 * b + 4 * c + e"]) simp_all
  ultimately have start: "days_before_year (year_of n) = 146097 * a + 36524 * b + 1461 * c + 365 * e"
    unfolding days_before_year_def y by simp
  have "n < days_before_year (year_of n) + (if leap_year (year_of n) then 366 else 365)"
  proof (cases "e = 3 \<and> d3 = 1460")
    case True
    have c24: "c < 24 \<or> b = 3" using b c True by linarith
    define Y where "Y = 400 * a + 100 * b + 4 * c + 4"
    have "Y mod 4 = 0" unfolding Y_def by presburger
    moreover have "Y mod 100 \<noteq> 0 \<or> Y mod 400 = 0"
    proof (cases "c < 24")
      case True
      then have "Y mod 100 = 4 * c + 4" unfolding Y_def using c by (intro int_mod_pos_eq [where q = "4 * a + b"]) simp_all
      then show ?thesis using c(4) by simp
    next
      case False
      then have "Y mod 400 = 0" unfolding Y_def using c24 c(5) by (intro int_mod_pos_eq [where q = "a + 1"]) simp_all
      then show ?thesis ..
    qed
    moreover have "year_of n = Y" using y True by (simp add: Y_def)
    ultimately have "leap_year (year_of n)" by (simp only: leap_year_def)
    then show ?thesis using start n(1) c(1) d2_def True by simp
  next
    case False
    then have "d3 < 365 * e + 365" using e c by linarith
    then show ?thesis using start n(1) c(1) d2_def by simp
  qed
  moreover have "days_before_year (year_of n) \<le> n" using start n(1) c(1) d2_def e(3) by simp
  ultimately show ?thesis unfolding year_length by simp
qed

lemma month_of_contains:
  assumes "0 \<le> yday" and "yday < days_before_month y 13"
  shows "1 \<le> month_of y yday \<and> month_of y yday \<le> 12 \<and> days_before_month y (month_of y yday) \<le> yday \<and> yday < days_before_month y (month_of y yday + 1)"
proof -
  let ?P = "\<lambda>m. yday < days_before_month y (m + 1)"
  have "12 \<in> set (filter ?P [1..12])" using assms(2) by simp
  then obtain m r where m: "filter ?P [1..12] = m # r" by (cases "filter ?P [1..12]") auto
  have "m \<in> set (filter ?P [1..12])" unfolding m by simp
  then have in12: "m \<in> {1..12}" "?P m" by simp_all
  have "sorted (m # r)" unfolding m [symmetric] by (simp add: sorted_wrt_filter)
  moreover have "x \<in> set (m # r)" if "x \<in> {1..12}" "?P x" for x using that unfolding m [symmetric] by simp
  ultimately have first: "m \<le> x" if "x \<in> {1..12}" "?P x" for x using that by fastforce
  have "days_before_month y m \<le> yday"
  proof (cases "m = 1")
    case False
    then show ?thesis using first [of "m - 1"] in12 by fastforce
  qed (simp add: months_first assms(1))
  moreover have "month_of y yday = m" by (simp add: month_of_def m)
  ultimately show ?thesis using in12 by simp
qed

text \<open>The date of a day number: it lies in its month, and \<open>Date\<close> gives the number back.\<close>

lemma civil_date:
  assumes "civil n = (y, m, d)"
  shows "1 \<le> m" "m \<le> 12" "1 \<le> d" "d \<le> month_days y m" "day_number y m d = n"
proof -
  have y: "y = year_of n" and m: "m = month_of y (n - days_before_year y)" and d: "d = n - days_before_year y - days_before_month y m + 1"
    using assms by (auto simp: civil_def Let_def)
  have in_month: "1 \<le> m \<and> m \<le> 12 \<and> days_before_month y m \<le> n - days_before_year y \<and> n - days_before_year y < days_before_month y (m + 1)"
    unfolding m using year_of_contains [of n] year_length [of y] months_total [of y] by (intro month_of_contains) (simp_all add: y)
  then show "1 \<le> m" "m \<le> 12" "1 \<le> d" by (simp_all add: d)
  show "d \<le> month_days y m" using in_month months_step [of m y] by (simp add: d)
  have "(m - 1) div 12 = 0" "(m - 1) mod 12 = m - 1" using in_month by simp_all
  then show "day_number y m d = n" by (simp add: day_number_def d)
qed

lemma next_month:
  assumes "1 \<le> m" and "m \<le> 12"
  shows "day_number y (m + 1) d = day_number y m d + month_days y m"
proof (cases "m = 12")
  case True
  have "days_before_year (y + 1) = days_before_year y + days_before_month y 13" unfolding year_length months_total ..
  then show ?thesis using months_step [of 12 y] by (simp add: day_number_def True months_first)
next
  case False
  have "(m - 1) div 12 = 0" "(m - 1) mod 12 = m - 1" "m div 12 = 0" "m mod 12 = m" using assms False by simp_all
  then show ?thesis using months_step [OF assms(1)] by (simp add: day_number_def)
qed

text \<open>A month later is as many days later as the month has, at the same time of day.\<close>

lemma add_month: "\<exists>y m. AddDate t 0 1 0 = t + month_days y m * (86400 * second)"
proof -
  obtain y m d where c: "civil (t div (86400 * second) + unix_day0) = (y, m, d)" by (metis prod_cases3)
  have "day_number y (m + 1) d = t div (86400 * second) + unix_day0 + month_days y m"
    using next_month [OF civil_date(1,2) [OF c], of y d] civil_date(5) [OF c] by simp
  then have "AddDate t 0 1 0 = (t div (86400 * second) + month_days y m) * (86400 * second) + t mod (86400 * second)"
    by (simp add: AddDate_def c Let_def)
  then have "AddDate t 0 1 0 = t + month_days y m * (86400 * second)" using div_mult_mod_eq [of t "86400 * second"] by (simp add: algebra_simps)
  then show ?thesis by blast
qed

section \<open>Payment\<close>

text \<open>A history of payments of a key: their times and prices.\<close>

definition pay :: "string \<Rightarrow> gotime \<times> int \<Rightarrow> database \<Rightarrow> database" where
  "pay keyID p db = snd (ExtendKeyPaidUntil (\<lambda>_. False) (fst p) keyID (snd p) db)"

definition paid_until :: "string \<Rightarrow> database \<Rightarrow> int option" where
  "paid_until keyID db = (case sql_row k_key_id keyID (db_keys db) of None \<Rightarrow> None | Some k \<Rightarrow> k_paid_until k)"

lemma pay_row:
  assumes "sql_row k_key_id keyID (db_keys db) = Some k"
  shows "\<exists>k'. sql_row k_key_id keyID (db_keys (pay keyID p db)) = Some k' \<and> k_reminder_sent k' = 0 \<and> k_plan_pia k' = snd p \<and>
    (\<exists>days \<in> {28..31}. k_paid_until k' = Some ((case k_paid_until k of Some u \<Rightarrow> max u (time_unix (fst p)) | None \<Rightarrow> time_unix (fst p)) + days * 86400))"
proof -
  define base where "base = (case k_paid_until k of Some u \<Rightarrow> (if u > time_unix (fst p) then u * second else fst p) | None \<Rightarrow> fst p)"
  obtain y m where n: "AddDate base 0 1 0 = base + month_days y m * (86400 * second)" using add_month by blast
  have unix: "time_unix (base + month_days y m * (86400 * second)) = time_unix base + month_days y m * 86400"
    by (simp add: time_unix_def duration_defs)
  have "time_unix base = (case k_paid_until k of Some u \<Rightarrow> max u (time_unix (fst p)) | None \<Rightarrow> time_unix (fst p))"
    by (auto simp: base_def time_unix_def duration_defs split: option.splits)
  then show ?thesis using assms row_mem [OF assms] month_days_bounds [of y m]
    by (auto simp: pay_def ExtendKeyPaidUntil_def Let_def row_update base_def [symmetric] n unix)
qed

lemma pay_until:
  assumes "sql_row k_key_id keyID (db_keys db) \<noteq> None"
  shows "sql_row k_key_id keyID (db_keys (pay keyID p db)) \<noteq> None \<and>
    (\<exists>days \<in> {28..31}. paid_until keyID (pay keyID p db) =
      Some ((case paid_until keyID db of Some u \<Rightarrow> max u (time_unix (fst p)) | None \<Rightarrow> time_unix (fst p)) + days * 86400))"
proof -
  obtain k where k: "sql_row k_key_id keyID (db_keys db) = Some k" using assms by blast
  from pay_row [OF k, of p] show ?thesis by (auto simp: paid_until_def k)
qed

lemma pay_others: "sql_row k_key_id other (db_keys db) = None \<or> other \<noteq> keyID \<Longrightarrow>
  sql_row k_key_id other (db_keys (pay keyID p db)) = sql_row k_key_id other (db_keys db)"
proof -
  assume a: "sql_row k_key_id other (db_keys db) = None \<or> other \<noteq> keyID"
  have "map_option (\<lambda>r. if k_key_id r = keyID then f r else r) (sql_row k_key_id other (db_keys db)) = sql_row k_key_id other (db_keys db)" for f
    using a row_mem [of k_key_id other "db_keys db"] by (cases "sql_row k_key_id other (db_keys db)") auto
  then show ?thesis by (simp add: pay_def ExtendKeyPaidUntil_def Let_def row_update split: option.splits)
qed

lemma payments_stack:
  assumes "sql_row k_key_id keyID (db_keys db) \<noteq> None" and "ps \<noteq> []"
  shows "\<exists>u. paid_until keyID (fold (pay keyID) ps db) = Some u \<and> sql_row k_key_id keyID (db_keys (fold (pay keyID) ps db)) \<noteq> None \<and>
    (\<forall>old. paid_until keyID db = Some old \<longrightarrow> old + 28 * 86400 * int (length ps) \<le> u) \<and>
    (\<forall>i < length ps. time_unix (fst (ps ! i)) + 28 * 86400 * int (length ps - i) \<le> u) \<and>
    (\<forall>c. (\<forall>p \<in> set ps. time_unix (fst p) \<le> c) \<longrightarrow> (\<forall>old. paid_until keyID db = Some old \<longrightarrow> old \<le> c) \<longrightarrow> u \<le> c + 31 * 86400 * int (length ps))"
  using assms(2)
proof (induction ps rule: rev_nonempty_induct)
  case (single p)
  from pay_until [OF assms(1), of p] show ?case by (auto simp: max_def split: option.splits if_splits) (force+)?
next
  case (snoc p ps)
  then obtain u where u: "paid_until keyID (fold (pay keyID) ps db) = Some u" "sql_row k_key_id keyID (db_keys (fold (pay keyID) ps db)) \<noteq> None"
    "\<And>old. paid_until keyID db = Some old \<Longrightarrow> old + 28 * 86400 * int (length ps) \<le> u"
    "\<And>i. i < length ps \<Longrightarrow> time_unix (fst (ps ! i)) + 28 * 86400 * int (length ps - i) \<le> u"
    "\<And>c. (\<forall>p \<in> set ps. time_unix (fst p) \<le> c) \<Longrightarrow> (\<forall>old. paid_until keyID db = Some old \<longrightarrow> old \<le> c) \<Longrightarrow> u \<le> c + 31 * 86400 * int (length ps)"
    by blast
  from pay_until [OF u(2), of p] obtain days where d: "28 \<le> days" "days \<le> 31"
    "paid_until keyID (pay keyID p (fold (pay keyID) ps db)) = Some (max u (time_unix (fst p)) + days * 86400)"
    "sql_row k_key_id keyID (db_keys (pay keyID p (fold (pay keyID) ps db))) \<noteq> None"
    by (auto simp: u(1))
  let ?u = "max u (time_unix (fst p)) + days * 86400"
  have "old + 28 * 86400 * int (length (ps @ [p])) \<le> ?u" if "paid_until keyID db = Some old" for old using u(3) [OF that] d(1) by simp
  moreover have "time_unix (fst ((ps @ [p]) ! i)) + 28 * 86400 * int (length (ps @ [p]) - i) \<le> ?u" if "i < length (ps @ [p])" for i
  proof (cases "i < length ps")
    case True
    then have "time_unix (fst (ps ! i)) + 28 * 86400 * int (length ps - i) \<le> u" using u(4) by blast
    moreover have "int (length (ps @ [p]) - i) = int (length ps - i) + 1" using True by simp
    ultimately show ?thesis using d(1) True by (simp add: nth_append)
  next
    case False
    then have "i = length ps" using that by simp
    then show ?thesis using d(1) by simp
  qed
  moreover have "?u \<le> c + 31 * 86400 * int (length (ps @ [p]))"
    if "\<forall>q \<in> set (ps @ [p]). time_unix (fst q) \<le> c" "\<forall>old. paid_until keyID db = Some old \<longrightarrow> old \<le> c" for c
    using u(5) [of c] that d(2) by (auto simp: max_def)
  ultimately show ?case using d(3,4) by simp
qed

text \<open>Property C40: (paid months) payments of a key stack: whatever the times of the payments, none is lost. After any number of them
  the key is paid for at least 28 and at most 31 days per payment beyond what was paid before and beyond the time of each
  payment; other keys are not touched.\<close>

theorem paid_months:
  assumes "sql_row k_key_id keyID (db_keys db) \<noteq> None" and "ps \<noteq> []"
  shows "\<exists>u. paid_until keyID (fold (pay keyID) ps db) = Some u \<and>
    (\<forall>old. paid_until keyID db = Some old \<longrightarrow> old + 28 * 86400 * int (length ps) \<le> u) \<and>
    (\<forall>i < length ps. time_unix (fst (ps ! i)) + 28 * 86400 * int (length ps - i) \<le> u) \<and>
    (\<forall>c. (\<forall>p \<in> set ps. time_unix (fst p) \<le> c) \<longrightarrow> (\<forall>old. paid_until keyID db = Some old \<longrightarrow> old \<le> c) \<longrightarrow> u \<le> c + 31 * 86400 * int (length ps)) \<and>
    (\<forall>other. other \<noteq> keyID \<longrightarrow> paid_until other (fold (pay keyID) ps db) = paid_until other db)"
proof -
  have "sql_row k_key_id other (db_keys (fold (pay keyID) ps d)) = sql_row k_key_id other (db_keys d)" if "other \<noteq> keyID" for other d
    using that by (induction ps arbitrary: d) (simp_all add: pay_others)
  then have "\<forall>other. other \<noteq> keyID \<longrightarrow> paid_until other (fold (pay keyID) ps db) = paid_until other db" by (simp add: paid_until_def)
  then show ?thesis using payments_stack [OF assms] by blast
qed

definition sample_key_db :: database where
  "sample_key_db = snd (RegisterKey False 0 ''k'' ''ann'' [] empty_db)"

theorem paid_months_witness:
  "\<exists>u. paid_until ''k'' (fold (pay ''k'') [(0, 5), (0, 5)] sample_key_db) = Some u \<and> 56 * 86400 \<le> u \<and> u \<le> 62 * 86400"
proof -
  have row: "sql_row k_key_id ''k'' (db_keys sample_key_db) \<noteq> None" and none: "paid_until ''k'' sample_key_db = None"
    by (simp_all add: sample_key_db_def RegisterKey_def empty_db_def insert_ignore_def sql_row_def paid_until_def)
  obtain u where "paid_until ''k'' (fold (pay ''k'') [(0, 5), (0, 5)] sample_key_db) = Some u"
    "\<forall>i < 2. time_unix (fst ([(0 :: gotime, 5 :: int), (0, 5)] ! i)) + 28 * 86400 * int (2 - i) \<le> u"
    "\<forall>c. (\<forall>p \<in> set [(0 :: gotime, 5 :: int), (0, 5)]. time_unix (fst p) \<le> c) \<longrightarrow> u \<le> c + 31 * 86400 * 2"
    using paid_months [OF row, of "[(0, 5), (0, 5)]"] none by auto
  moreover from this(2) have "56 * 86400 \<le> u" by (auto dest!: spec [of _ 0] simp: time_unix_def)
  moreover from calculation(3) have "u \<le> 62 * 86400" by (auto dest!: spec [of _ 0] simp: time_unix_def)
  ultimately show ?thesis by blast
qed

text \<open>A payment clears the reminders, so that the next expiry is announced again.\<close>

lemma payment_clears_reminders:
  assumes "sql_row k_key_id keyID (db_keys db) = Some k"
  shows "\<exists>k'. sql_row k_key_id keyID (db_keys (pay keyID p db)) = Some k' \<and> k_reminder_sent k' = 0"
  using pay_row [OF assms] by blast

text \<open>A key that has been bound stays bound to its device until it is unbound.\<close>

lemma first_device_wins:
  assumes "sql_row k_key_id keyID (db_keys db) = Some k" and "k_device_id k = None"
  shows "map_option k_device_id (sql_row k_key_id keyID (db_keys (snd (UpsertKeyDevice f2 t2 keyID dev2 name2
    (snd (UpsertKeyDevice False t1 keyID dev1 name1 db)))))) = Some (Some dev1)"
  using assms row_mem [OF assms(1)] by (auto simp: UpsertKeyDevice_def row_update)

end
