(* ===== verification/Camerlengo.thy ===== *)
theory Camerlengo
  imports Http
begin

text \<open>
  The arbiter's client of the account service (\<open>src/snc-arbiter/auth.go\<close>). The service is the argument \<open>cm_post\<close>: what the
  \<open>n\<close>-th request of an operation returns, or \<open>None\<close> when the transport fails. JSON and SHA-256 are arguments. The
  waiting between login attempts shows in the clock \<open>cm_clock\<close>, the time after the \<open>n\<close>-th response.
\<close>

section \<open>Standard base64\<close>

definition std_char :: "char \<Rightarrow> char" where
  "std_char c = (if c = CHR ''-'' then CHR ''+'' else if c = CHR ''_'' then CHR ''/'' else c)"

definition url_char :: "char \<Rightarrow> char option" where
  "url_char c = (if c = CHR ''+'' then Some CHR ''-'' else if c = CHR ''/'' then Some CHR ''_''
     else if c = CHR ''-'' \<or> c = CHR ''_'' then None else Some c)"

definition b64_std_encode :: "bytes \<Rightarrow> string" where
  "b64_std_encode bs = (let s = map std_char (b64_encode bs) in s @ replicate ((4 - length s mod 4) mod 4) CHR ''='')"

definition unpad :: "string \<Rightarrow> string" where
  "unpad s = (if s \<noteq> [] \<and> last s = CHR ''='' then
     (let t = butlast s in if t \<noteq> [] \<and> last t = CHR ''='' then butlast t else t) else s)"

definition b64_std_decode :: "string \<Rightarrow> bytes option" where
  "b64_std_decode s = (let t = filter (\<lambda>c. \<not> is_line_break c) s in
     if length t mod 4 \<noteq> 0 then None
     else case those (map url_char (unpad t)) of None \<Rightarrow> None | Some u \<Rightarrow> b64_decode u)"

section \<open>Requests\<close>

datatype pval = PStr string | PBool bool

record v2Result =
  v2_Status :: string
  v2_ErrCode :: string
  v2_Reason :: string
  v2_User :: string
  v2_Session :: string
  v2_Content :: string
  v2_Data :: string

record cam_env =
  cm_post :: "nat \<Rightarrow> string \<Rightarrow> bytes \<Rightarrow> bytes option"
  cm_clock :: "nat \<Rightarrow> gotime"
  cm_marshal :: "(string \<times> pval) list \<Rightarrow> bytes"
  cm_unmarshal :: "bytes \<Rightarrow> v2Result option"
  cm_sha256 :: "bytes \<Rightarrow> bytes"
  cm_profile_enc :: "(string, string) gomap \<Rightarrow> bytes"
  cm_profile_dec :: "bytes \<Rightarrow> (string, string) gomap option"

record cacheEntry =
  ca_username :: string
  ca_validated :: gotime

record camClient =
  cc_url :: string
  cc_apiKey :: string
  cc_cache :: "(string, cacheEntry) gomap"

definition sessionCacheTTL :: duration where "sessionCacheTTL = 600 * second"
definition camerlengoNamespace :: string where "camerlengoNamespace = ''users''"

definition trim_slashes :: "string \<Rightarrow> string" where "trim_slashes s = rev (dropWhile (\<lambda>c. c = CHR ''/'') (rev s))"

definition newCamClient :: "string \<Rightarrow> string \<Rightarrow> camClient" where
  "newCamClient rawURL apiKey = \<lparr>cc_url = trim_slashes rawURL @ ''/'', cc_apiKey = apiKey, cc_cache = gm_empty\<rparr>"

text \<open>A failure of the transport or a response that is no JSON object is \<open>None\<close>; the HTTP status is not looked at.\<close>

definition v2Call :: "cam_env \<Rightarrow> camClient \<Rightarrow> nat \<Rightarrow> string \<Rightarrow> (string \<times> pval) list \<Rightarrow> v2Result option" where
  "v2Call V a n command payload = (case cm_post V n (cc_url a) (cm_marshal V ((''command'', PStr command) # payload)) of
     None \<Rightarrow> None | Some raw \<Rightarrow> cm_unmarshal V raw)"

definition querySession :: "cam_env \<Rightarrow> camClient \<Rightarrow> string \<Rightarrow> string option" where
  "querySession V a token = map_option v2_User
     (v2Call V a 1 ''user:getSessionUser'' [(''session'', PStr token), (''key'', PStr (cc_apiKey a))])"

text \<open>The lock is released during the query; \<open>meanwhile\<close> is what others do to the cache then.\<close>

definition note_session :: "gotime \<Rightarrow> string \<Rightarrow> string \<Rightarrow> camClient \<Rightarrow> camClient" where
  "note_session now token username a =
     (if username \<noteq> [] then a\<lparr>cc_cache := gm_sweep (\<lambda>_ v. ca_validated v < now - 2 * sessionCacheTTL)
        (gm_put token \<lparr>ca_username = username, ca_validated = now\<rparr> (cc_cache a))\<rparr>
      else a\<lparr>cc_cache := gm_del token (cc_cache a)\<rparr>)"

definition validateSession :: "cam_env \<Rightarrow> gotime \<Rightarrow> (camClient \<Rightarrow> camClient) \<Rightarrow> string \<Rightarrow> camClient \<Rightarrow> string \<times> camClient" where
  "validateSession V now meanwhile token a =
     (if token = [] then ([], a)
      else let stale = gm_get (cc_cache a) token in
        case stale of Some e \<Rightarrow>
          (if time_sub now (ca_validated e) < sessionCacheTTL then (ca_username e, a)
           else case querySession V a token of None \<Rightarrow> (ca_username e, meanwhile a)
             | Some username \<Rightarrow> (username, note_session now token username (meanwhile a)))
        | None \<Rightarrow> (case querySession V a token of None \<Rightarrow> ([], meanwhile a)
             | Some username \<Rightarrow> (username, note_session now token username (meanwhile a))))"

text \<open>A session is only ever attributed to the user the service named for it, now or when it was cached.\<close>

lemma validated_provenance:
  assumes "validateSession V now meanwhile token a = (u, a')" and "u \<noteq> []"
  shows "querySession V a token = Some u \<or> map_option ca_username (gm_get (cc_cache a) token) = Some u"
  using assms by (auto simp: validateSession_def Let_def split: if_splits option.splits)

datatype cam_error = Transport | Reason string | Rejected string | EmptySession | NoProfile | BadProfile

definition rejection :: "v2Result \<Rightarrow> cam_error" where
  "rejection r = (if v2_Reason r \<noteq> [] then Reason (v2_Reason r) else Rejected (v2_ErrCode r))"

definition addUser :: "cam_env \<Rightarrow> camClient \<Rightarrow> string \<Rightarrow> string \<Rightarrow> cam_error option" where
  "addUser V a email password =
     (case v2Call V a 1 ''user:add'' [(''path'', PStr camerlengoNamespace), (''user'', PStr email), (''password'', PStr password)] of
        None \<Rightarrow> Some Transport | Some r \<Rightarrow> if v2_Status r = ''error'' then Some (rejection r) else None)"

definition forceChangePassword :: "cam_env \<Rightarrow> camClient \<Rightarrow> string \<Rightarrow> string \<Rightarrow> cam_error option" where
  "forceChangePassword V a email password =
     (case v2Call V a 1 ''user:forceChangePassword''
        [(''path'', PStr camerlengoNamespace), (''user'', PStr email), (''password'', PStr password), (''key'', PStr (cc_apiKey a))] of
        None \<Rightarrow> Some Transport | Some r \<Rightarrow> if v2_Status r = ''error'' then Some (rejection r) else None)"

definition sendEmailFrom :: "cam_env \<Rightarrow> camClient \<Rightarrow> string \<Rightarrow> string \<Rightarrow> string \<Rightarrow> string \<Rightarrow> cam_error option" where
  "sendEmailFrom V a to sender subject htmlBody =
     (case v2Call V a 1 ''email:send'' [(''to'', PStr to), (''from'', PStr sender), (''subject'', PStr subject), (''text'', PStr htmlBody),
        (''html'', PBool True), (''key'', PStr (cc_apiKey a))] of
        None \<Rightarrow> Some Transport
      | Some r \<Rightarrow> if v2_Status r \<noteq> ''ok'' \<and> v2_Reason r \<noteq> [] then Some (Reason (v2_Reason r)) else None)"

definition sendEmail :: "cam_env \<Rightarrow> camClient \<Rightarrow> string \<Rightarrow> string \<Rightarrow> string \<Rightarrow> cam_error option" where
  "sendEmail V a to subject htmlBody = sendEmailFrom V a to ''The Tunnel Cat <cat@navlink.net>'' subject htmlBody"

definition profilePathPrefix :: string where "profilePathPrefix = ''tunnelcat-profiles/''"

definition profilePath :: "cam_env \<Rightarrow> string \<Rightarrow> string" where
  "profilePath V email = profilePathPrefix @ hex_encode (cm_sha256 V (str_bytes (map to_lower (TrimSpace email)))) @ ''.json''"

definition readUserProfile :: "cam_env \<Rightarrow> camClient \<Rightarrow> string \<Rightarrow> cam_error + (string, string) gomap option" where
  "readUserProfile V a email =
     (case v2Call V a 1 ''file:read'' [(''key'', PStr (cc_apiKey a)), (''path'', PStr (profilePath V email))] of
        None \<Rightarrow> Inl Transport
      | Some r \<Rightarrow>
          if v2_Status r \<noteq> ''ok'' then (if v2_ErrCode r = ''102'' then Inr None else Inl (rejection r))
          else case b64_std_decode (v2_Content r) of None \<Rightarrow> Inl BadProfile
            | Some raw \<Rightarrow> (case cm_profile_dec V raw of None \<Rightarrow> Inl BadProfile | Some p \<Rightarrow> Inr (Some p)))"

definition writeUserProfile :: "cam_env \<Rightarrow> camClient \<Rightarrow> string \<Rightarrow> (string, string) gomap \<Rightarrow> cam_error option" where
  "writeUserProfile V a email profile =
     (case v2Call V a 1 ''file:write'' [(''key'', PStr (cc_apiKey a)), (''path'', PStr (profilePath V email)),
        (''content'', PStr (b64_std_encode (cm_profile_enc V profile)))] of
        None \<Rightarrow> Some Transport | Some r \<Rightarrow> if v2_Status r \<noteq> ''ok'' then Some (rejection r) else None)"

definition generateQRCodeBase64 :: "cam_env \<Rightarrow> camClient \<Rightarrow> string \<Rightarrow> string" where
  "generateQRCodeBase64 V a txt =
     (case v2Call V a 1 ''misc:generateQr'' [(''key'', PStr (cc_apiKey a)), (''text'', PStr txt), (''errorLevel'', PStr ''M'')] of
        Some r \<Rightarrow> if v2_Status r = ''ok'' then v2_Data r else [] | None \<Rightarrow> [])"

section \<open>Login\<close>

definition loginMaxRetryDuration :: duration where "loginMaxRetryDuration = 5 * minute"
definition maxRetryDelay :: duration where "maxRetryDelay = 30 * second"

definition next_delay :: "duration \<Rightarrow> duration" where
  "next_delay d = (if d * 2 > maxRetryDelay then maxRetryDelay else d * 2)"

text \<open>What one response means: a verdict, or that the service has to be asked again.\<close>

definition login_payload :: "camClient \<Rightarrow> string \<Rightarrow> string \<Rightarrow> (string \<times> pval) list" where
  "login_payload a username password =
     [(''path'', PStr camerlengoNamespace), (''user'', PStr username), (''password'', PStr password), (''key'', PStr (cc_apiKey a))]"

definition login_attempt :: "cam_env \<Rightarrow> camClient \<Rightarrow> string \<Rightarrow> string \<Rightarrow> nat \<Rightarrow> (cam_error + string) \<times> bool" where
  "login_attempt V a username password n = (case v2Call V a n ''user:verify'' (login_payload a username password) of
     None \<Rightarrow> (Inl Transport, True)
   | Some r \<Rightarrow> if v2_Status r = ''error'' then (Inl (rejection r), False)
       else if v2_Session r \<noteq> [] then (Inr (v2_Session r), False) else (Inl EmptySession, True))"

text \<open>The loop has no bound of its own: it ends with a verdict or when the clock is past the deadline. It returns the
  verdict and the number of attempts.\<close>

partial_function (option) login_loop :: "cam_env \<Rightarrow> camClient \<Rightarrow> string \<Rightarrow> string \<Rightarrow> gotime \<Rightarrow> nat \<Rightarrow> ((cam_error + string) \<times> nat) option" where
  "login_loop V a username password deadline attempt =
     (case login_attempt V a username password attempt of (verdict, transient) \<Rightarrow>
        if \<not> transient \<or> cm_clock V attempt > deadline then Some (verdict, attempt)
        else login_loop V a username password deadline (Suc attempt))"

definition login :: "cam_env \<Rightarrow> camClient \<Rightarrow> string \<Rightarrow> string \<Rightarrow> ((cam_error + string) \<times> nat) option" where
  "login V a username password = login_loop V a username password (cm_clock V 0 + loginMaxRetryDuration) 1"

text \<open>The delay before attempt \<open>n\<close>, and a clock that shows it: \<open>time.Sleep\<close> pauses for at least its argument.\<close>

fun delay_before :: "nat \<Rightarrow> duration" where
  "delay_before 0 = 0"
| "delay_before (Suc 0) = 0"
| "delay_before (Suc (Suc 0)) = 5 * second"
| "delay_before (Suc (Suc (Suc n))) = next_delay (delay_before (Suc (Suc n)))"

definition sleeps :: "cam_env \<Rightarrow> bool" where
  "sleeps V \<longleftrightarrow> (\<forall>n. cm_clock V n + delay_before (Suc n) \<le> cm_clock V (Suc n))"

lemma delay_values:
  "delay_before 2 = 5 * second" "delay_before 3 = 10 * second" "delay_before 4 = 20 * second" "delay_before (n + 5) = 30 * second"
proof -
  show "delay_before 2 = 5 * second" "delay_before 3 = 10 * second" "delay_before 4 = 20 * second"
    by (simp_all add: numeral_2_eq_2 numeral_3_eq_3 eval_nat_numeral next_delay_def maxRetryDelay_def duration_defs)
  show "delay_before (n + 5) = 30 * second"
    by (induction n) (simp_all add: eval_nat_numeral next_delay_def maxRetryDelay_def duration_defs)
qed

lemma clock_runs:
  assumes "sleeps V"
  shows "cm_clock V 0 + 35 * second + int k * (30 * second) \<le> cm_clock V (k + 4)"
proof (induction k)
  case 0
  have c: "cm_clock V n + delay_before (Suc n) \<le> cm_clock V (Suc n)" for n using assms by (simp add: sleeps_def)
  have "cm_clock V 0 \<le> cm_clock V 1" using c [of 0] by simp
  moreover have "cm_clock V 1 + 5 * second \<le> cm_clock V 2" using c [of 1] delay_values(1) by (simp add: numeral_2_eq_2)
  moreover have "cm_clock V 2 + 10 * second \<le> cm_clock V 3" using c [of 2] delay_values(2) by (simp add: numeral_3_eq_3 numeral_2_eq_2)
  moreover have "cm_clock V 3 + 20 * second \<le> cm_clock V 4" using c [of 3] delay_values(3) by (simp add: eval_nat_numeral)
  ultimately show ?case by (simp add: duration_defs)
next
  case (Suc k)
  have "cm_clock V (k + 4) + delay_before (k + 5) \<le> cm_clock V (k + 5)" using assms unfolding sleeps_def by (metis add_Suc_right eval_nat_numeral(3))
  then show ?case using Suc delay_values(4) [of k] by (simp add: algebra_simps eval_nat_numeral)
qed

text \<open>Whether the loop stops after attempt \<open>n\<close>.\<close>

definition login_stops :: "cam_env \<Rightarrow> camClient \<Rightarrow> string \<Rightarrow> string \<Rightarrow> gotime \<Rightarrow> nat \<Rightarrow> bool" where
  "login_stops V a username password deadline n \<longleftrightarrow> \<not> snd (login_attempt V a username password n) \<or> cm_clock V n > deadline"

lemma loop_returns:
  assumes "login_stops V a u p d m" and "i \<le> m"
  shows "\<exists>n. i \<le> n \<and> n \<le> m \<and> login_loop V a u p d i = Some (fst (login_attempt V a u p n), n) \<and> login_stops V a u p d n \<and>
    (\<forall>k. i \<le> k \<and> k < n \<longrightarrow> \<not> login_stops V a u p d k)"
  using assms(2)
proof (induction "m - i" arbitrary: i)
  case 0
  then have "login_stops V a u p d i" using assms(1) by simp
  then show ?case using 0 by (intro exI [of _ i]) (auto simp: login_loop.simps login_stops_def split: prod.splits)
next
  case (Suc k)
  show ?case
  proof (cases "login_stops V a u p d i")
    case True
    then show ?thesis using Suc.prems by (intro exI [of _ i]) (auto simp: login_loop.simps login_stops_def split: prod.splits)
  next
    case False
    have "k = m - Suc i" "Suc i \<le> m" using Suc.hyps(2) by linarith+
    from Suc.hyps(1) [OF this] obtain n where n: "Suc i \<le> n" "n \<le> m"
      "login_loop V a u p d (Suc i) = Some (fst (login_attempt V a u p n), n)" "login_stops V a u p d n"
      "\<forall>k. Suc i \<le> k \<and> k < n \<longrightarrow> \<not> login_stops V a u p d k" by blast
    have "login_loop V a u p d i = login_loop V a u p d (Suc i)"
      using False by (subst login_loop.simps) (auto simp: login_stops_def split: prod.splits)
    moreover have "\<not> login_stops V a u p d k" if "i \<le> k" "k < n" for k using that False n(5) by (cases "k = i") auto
    ultimately show ?thesis using n by (intro exI [of _ n]) auto
  qed
qed

lemma login_verdict:
  assumes "sleeps V"
  shows "\<exists>n. login V a u p = Some (fst (login_attempt V a u p n), n) \<and> 1 \<le> n \<and> n \<le> 13 \<and>
    login_stops V a u p (cm_clock V 0 + loginMaxRetryDuration) n \<and>
    (\<forall>k. 1 \<le> k \<and> k < n \<longrightarrow> \<not> login_stops V a u p (cm_clock V 0 + loginMaxRetryDuration) k)"
proof -
  let ?d = "cm_clock V 0 + loginMaxRetryDuration"
  have "?d < cm_clock V 13" using clock_runs [OF assms, of 9] by (simp add: loginMaxRetryDuration_def duration_defs)
  then have "login_stops V a u p ?d 13" by (simp add: login_stops_def)
  from loop_returns [OF this, of 1] show ?thesis by (auto simp: login_def)
qed

text \<open>Property C39: (logins end) a login at the account service always returns, whatever the service answers: after at most 13
  requests. It returns the verdict of the first request that was answered with a session or a rejection, or, when all were
  transient failures for five minutes, the last failure; after a transient failure within the five minutes it does not give up.\<close>

theorem login_returns:
  assumes "sleeps V"
  shows "\<exists>n. login V a u p = Some (fst (login_attempt V a u p n), n) \<and> 1 \<le> n \<and> n \<le> 13 \<and>
    (\<not> snd (login_attempt V a u p n) \<or> cm_clock V n > cm_clock V 0 + loginMaxRetryDuration) \<and>
    (\<forall>k. 1 \<le> k \<and> k < n \<longrightarrow> snd (login_attempt V a u p k) \<and> cm_clock V k \<le> cm_clock V 0 + loginMaxRetryDuration)"
  using login_verdict [OF assms, of a u p] by (auto simp: login_stops_def not_less)

definition sample_result :: v2Result where
  "sample_result = \<lparr>v2_Status = ''ok'', v2_ErrCode = [], v2_Reason = [], v2_User = [], v2_Session = [], v2_Content = [], v2_Data = []\<rparr>"

text \<open>A service that fails, answers without a session, and then accepts.\<close>

definition sample_cam :: cam_env where
  "sample_cam = \<lparr>cm_post = (\<lambda>n url body. if n = 1 then None else Some (replicate n 0)), cm_clock = (\<lambda>n. int n * (30 * second)),
     cm_marshal = (\<lambda>p. []), cm_unmarshal = (\<lambda>b. Some (if length b = 2 then sample_result else sample_result\<lparr>v2_Session := ''s''\<rparr>)),
     cm_sha256 = (\<lambda>b. b), cm_profile_enc = (\<lambda>m. []), cm_profile_dec = (\<lambda>b. Some [])\<rparr>"

lemma delay_le: "delay_before n \<le> 30 * second"
  by (induction n rule: delay_before.induct) (auto simp: next_delay_def maxRetryDelay_def duration_defs)

lemma sample_sleeps: "sleeps sample_cam"
  using delay_le by (simp add: sleeps_def sample_cam_def algebra_simps)

theorem login_returns_witness: "login sample_cam (newCamClient [] []) ''ann'' ''pw'' = Some (Inr ''s'', 3)"
proof -
  let ?at = "login_attempt sample_cam (newCamClient [] []) ''ann'' ''pw''"
  have at: "snd (?at 1)" "snd (?at 2)" "?at 3 = (Inr ''s'', False)"
    by (simp_all add: login_attempt_def v2Call_def sample_cam_def sample_result_def)
  obtain n where n: "login sample_cam (newCamClient [] []) ''ann'' ''pw'' = Some (fst (?at n), n)" "1 \<le> n"
    "\<not> snd (?at n) \<or> cm_clock sample_cam n > cm_clock sample_cam 0 + loginMaxRetryDuration" "\<And>k. 1 \<le> k \<Longrightarrow> k < n \<Longrightarrow> snd (?at k)"
    using login_returns [OF sample_sleeps, of "newCamClient [] []" "''ann''" "''pw''"] by blast
  have "\<not> 3 < n" using n(4) [of 3] at(3) by auto
  moreover have "n \<noteq> 1" "n \<noteq> 2" using n(3) at(1,2) by (auto simp: sample_cam_def loginMaxRetryDuration_def duration_defs)
  ultimately have "n = 3" using n(2) by linarith
  then show ?thesis using n(1) at(3) by simp
qed

end
