(* ===== verification/Arbiter_Sessions.thy ===== *)
theory Arbiter_Sessions
  imports Arbiter_Keys Camerlengo Aead
begin

text \<open>
  Client sessions of the arbiter (\<open>src/snc-arbiter/sessions.go\<close>, the sessions table of \<open>db.go\<close>): logins with a password or a
  key, validation, periodic refresh. The account service is the environment of \<open>Camerlengo\<close>; a login there may, as a
  loop, not return, so logins and refreshes are options. Statements of an operation are numbered; \<open>faults n\<close> lets the
  engine fail at statement \<open>n\<close>. Log output and the ticker are not modelled.
\<close>

definition sessionValidateTTL :: duration where "sessionValidateTTL = 15 * minute"
definition sessionRetryCooldown :: duration where "sessionRetryCooldown = 1 * minute"
definition sessionStaleTTL :: duration where "sessionStaleTTL = 3 * hour"
definition multiDeviceWindow :: duration where "multiDeviceWindow = 10 * second"
definition warnCooldown :: duration where "warnCooldown = 1 * hour"
definition maxWarnings :: int where "maxWarnings = 3"

section \<open>The sessions table\<close>

definition createSession :: "bool \<Rightarrow> string \<Rightarrow> string \<Rightarrow> string \<Rightarrow> string \<Rightarrow> string \<Rightarrow> bytes \<Rightarrow> string \<Rightarrow> gotime \<Rightarrow> database \<Rightarrow> bool \<times> database" where
  "createSession fails token username clientID deviceID deviceName encPwd camSession now db =
     (if fails \<or> token \<in> s_token ` set (db_sessions db) then (False, db)
      else (True, db\<lparr>db_sessions := db_sessions db @ [\<lparr>s_token = token, s_username = username, s_client_id = clientID, s_device_id = deviceID,
        s_device_name = deviceName, s_enc_password = encPwd, s_cam_session = camSession, s_validated_at = time_unix now,
        s_last_attempt = time_unix now\<rparr>]\<rparr>))"

definition getSession :: "bool \<Rightarrow> string \<Rightarrow> database \<Rightarrow> SessionRow option option" where
  "getSession fails token db = (if fails then None else Some (sql_row s_token token (db_sessions db)))"

definition getRecentSessionByUsername :: "bool \<Rightarrow> string \<Rightarrow> database \<Rightarrow> SessionRow option option" where
  "getRecentSessionByUsername fails username db = (if fails then None
     else Some (case sort_key (\<lambda>s. - s_validated_at s) (filter (\<lambda>s. s_username s = username \<and> s_cam_session s \<noteq> []) (db_sessions db)) of
       [] \<Rightarrow> None | s # _ \<Rightarrow> Some s))"

definition update_session :: "bool \<Rightarrow> string \<Rightarrow> (SessionRow \<Rightarrow> SessionRow) \<Rightarrow> database \<Rightarrow> bool \<times> database" where
  "update_session fails token f db = (if fails then (False, db)
     else (True, db\<lparr>db_sessions := sql_update (\<lambda>s. s_token s = token) f (db_sessions db)\<rparr>))"

definition updateCamSession :: "bool \<Rightarrow> string \<Rightarrow> string \<Rightarrow> gotime \<Rightarrow> database \<Rightarrow> bool \<times> database" where
  "updateCamSession fails token camSession now =
     update_session fails token (\<lambda>s. s\<lparr>s_cam_session := camSession, s_validated_at := time_unix now, s_last_attempt := time_unix now\<rparr>)"

definition touchLastAttempt :: "bool \<Rightarrow> string \<Rightarrow> gotime \<Rightarrow> database \<Rightarrow> bool \<times> database" where
  "touchLastAttempt fails token now = update_session fails token (\<lambda>s. s\<lparr>s_last_attempt := time_unix now\<rparr>)"

definition touchSession :: "bool \<Rightarrow> string \<Rightarrow> gotime \<Rightarrow> database \<Rightarrow> bool \<times> database" where
  "touchSession fails token now = update_session fails token (\<lambda>s. s\<lparr>s_validated_at := time_unix now\<rparr>)"

definition deleteSession :: "bool \<Rightarrow> string \<Rightarrow> database \<Rightarrow> bool \<times> database" where
  "deleteSession fails token db = (if fails then (False, db)
     else (True, db\<lparr>db_sessions := sql_delete (\<lambda>s. s_token s = token) (db_sessions db)\<rparr>))"

definition listSessions :: "bool \<Rightarrow> database \<Rightarrow> SessionRow list option" where
  "listSessions fails db = (if fails then None else Some (db_sessions db))"

definition ValidatedAt :: "SessionRow \<Rightarrow> gotime" where "ValidatedAt s = s_validated_at s * second"
definition LastAttempt :: "SessionRow \<Rightarrow> gotime" where "LastAttempt s = s_last_attempt s * second"

section \<open>Stored passwords\<close>

definition deriveEncKey :: "crypto \<Rightarrow> bytes \<Rightarrow> bytes" where
  "deriveEncKey C seed = blake2b_256 C (seed @ str_bytes ''snc-arbiter-pwd-enc-v1'')"

definition sm_nonceSize :: nat where "sm_nonceSize = 12"

definition encrypt :: "crypto \<Rightarrow> bytes \<Rightarrow> bytes option \<Rightarrow> bytes \<Rightarrow> bytes option" where
  "encrypt C encKey rnd data = (if \<not> aead_New_ok encKey then None
     else case rnd of None \<Rightarrow> None | Some nonce \<Rightarrow> Some (nonce @ aead_seal C encKey nonce data))"

definition decrypt :: "crypto \<Rightarrow> bytes \<Rightarrow> bytes \<Rightarrow> bytes option" where
  "decrypt C encKey enc = (if \<not> aead_New_ok encKey then None
     else if length enc < sm_nonceSize + aead_overhead then None
     else aead_open C encKey (take sm_nonceSize enc) (drop sm_nonceSize enc))"

section \<open>Logins\<close>

record sess_env =
  se_crypto :: crypto
  se_key :: bytes
  se_cam :: cam_env
  se_client :: camClient
  se_now :: gotime
  se_faults :: faults
  se_nonce :: "bytes option"
  se_token :: "bytes option"
  se_clientID :: "bytes option"
  se_newid :: int

record LoginOpts =
  lo_KeyID :: string
  lo_DeviceID :: string
  lo_DeviceName :: string

datatype login_error = CamError cam_error | AccountDisabled | KeyDisabled | UserFailed | EncryptFailed | TokenFailed | SessionFailed

text \<open>The checks of a login that names a key; statements 1 to 4.\<close>

definition check_key :: "sess_env \<Rightarrow> string \<Rightarrow> LoginOpts \<Rightarrow> database \<Rightarrow> login_error option \<times> database" where
  "check_key E username opts db =
     (if lo_KeyID opts = [] then (None, db)
      else if IsUserEnabled (se_faults E 1) username db = Some False then (Some AccountDisabled, db)
      else case GetKey (se_faults E 2) (lo_KeyID opts) db of
        Some (Some key) \<Rightarrow>
          if \<not> kr_Enabled key then (Some KeyDisabled, db)
          else let db1 = (if \<not> kr_UnlimitedDevices key \<and> kr_DeviceID key = [] \<and> lo_DeviceID opts \<noteq> []
                 then snd (UpsertKeyDevice (se_faults E 3) (se_now E) (lo_KeyID opts) (lo_DeviceID opts) (lo_DeviceName opts) db) else db)
            in (None, snd (TouchKeyLastSeen (se_faults E 4) (se_now E) (lo_KeyID opts) db1))
      | _ \<Rightarrow> (None, db))"

text \<open>The account, the token and the row; statements 5 to 9. \<open>password\<close> is \<open>None\<close> for a login by key.\<close>

definition open_session :: "sess_env \<Rightarrow> string \<Rightarrow> string option \<Rightarrow> string \<Rightarrow> string \<Rightarrow> string \<Rightarrow> database \<Rightarrow> (login_error + string) \<times> database" where
  "open_session E username password camSession deviceID deviceName db =
     (case getOrCreateUser (\<lambda>i. se_faults E (i + 5)) (se_clientID E) (se_newid E) (\<lambda>d. d) username db of
        (None, db1) \<Rightarrow> (Inl UserFailed, db1)
      | (Some u, db1) \<Rightarrow>
          (case (case password of None \<Rightarrow> Some [] | Some p \<Rightarrow> encrypt (se_crypto E) (se_key E) (se_nonce E) (str_bytes p)) of
             None \<Rightarrow> (Inl EncryptFailed, db1)
           | Some encPwd \<Rightarrow>
               (case genToken (se_token E) of None \<Rightarrow> (Inl TokenFailed, db1)
                | Some token \<Rightarrow>
                    (case createSession (se_faults E 9) token username (u_client_id u) deviceID deviceName encPwd camSession (se_now E) db1 of
                       (False, db2) \<Rightarrow> (Inl SessionFailed, db2) | (True, db2) \<Rightarrow> (Inr token, db2)))))"

text \<open>The session a failed login at the account service falls back on; statement 0.\<close>

definition recent_session :: "sess_env \<Rightarrow> string \<Rightarrow> string \<Rightarrow> database \<Rightarrow> string option" where
  "recent_session E username password db = (case getRecentSessionByUsername (se_faults E 0) username db of
     Some (Some recent) \<Rightarrow>
       if time_sub (se_now E) (ValidatedAt recent) \<ge> sessionStaleTTL then None
       else if decrypt (se_crypto E) (se_key E) (s_enc_password recent) = Some (str_bytes password) then Some (s_cam_session recent) else None
   | _ \<Rightarrow> None)"

definition Login :: "sess_env \<Rightarrow> string \<Rightarrow> string \<Rightarrow> LoginOpts option \<Rightarrow> database \<Rightarrow> ((login_error + string) \<times> database) option" where
  "Login E username password opts db =
     (case Camerlengo.login (se_cam E) (se_client E) username password of
        None \<Rightarrow> None
      | Some (verdict, attempts) \<Rightarrow> Some
          (case (case verdict of Inr cam \<Rightarrow> Inr cam
             | Inl err \<Rightarrow> (case recent_session E username password db of None \<Rightarrow> Inl (CamError err) | Some cam \<Rightarrow> Inr cam)) of
             Inl err \<Rightarrow> (Inl err, db)
           | Inr camSession \<Rightarrow>
               (case (case opts of None \<Rightarrow> (None, db) | Some o' \<Rightarrow> check_key E username o' db) of
                  (Some err, db1) \<Rightarrow> (Inl err, db1)
                | (None, db1) \<Rightarrow>
                    open_session E username (Some password) camSession (case opts of None \<Rightarrow> [] | Some o' \<Rightarrow> lo_DeviceID o')
                      (case opts of None \<Rightarrow> [] | Some o' \<Rightarrow> lo_DeviceName o') db1)))"

definition LoginWithKey :: "sess_env \<Rightarrow> string \<Rightarrow> LoginOpts option \<Rightarrow> database \<Rightarrow> (login_error + string) \<times> database" where
  "LoginWithKey E username opts db =
     (case (case opts of None \<Rightarrow> (None, db) | Some o' \<Rightarrow> check_key E username o' db) of
        (Some err, db1) \<Rightarrow> (Inl err, db1)
      | (None, db1) \<Rightarrow> open_session E username None [] (case opts of None \<Rightarrow> [] | Some o' \<Rightarrow> lo_DeviceID o')
          (case opts of None \<Rightarrow> [] | Some o' \<Rightarrow> lo_DeviceName o') db1)"

definition LoginAsProxy :: "sess_env \<Rightarrow> string \<Rightarrow> string \<Rightarrow> database \<Rightarrow> ((login_error + string) \<times> database) option" where
  "LoginAsProxy E username password db =
     (case Camerlengo.login (se_cam E) (se_client E) username password of
        None \<Rightarrow> None
      | Some (Inl err, attempts) \<Rightarrow> Some (Inl (CamError err), db)
      | Some (Inr camSession, attempts) \<Rightarrow> Some
          (if IsUserEnabled (se_faults E 1) username db = Some False then (Inl AccountDisabled, db)
           else open_session E username (Some password) camSession [] ''BlackBadger proxy'' db))"

section \<open>Validation and refresh\<close>

definition Validate :: "faults \<Rightarrow> gotime \<Rightarrow> string \<Rightarrow> database \<Rightarrow> (string \<times> string \<times> string \<times> bool) \<times> database" where
  "Validate faults now token db =
     (if token = [] then (([], [], [], True), db)
      else case getSession (faults 0) token db of
        None \<Rightarrow> (([], [], [], False), db)
      | Some None \<Rightarrow> (([], [], [], True), db)
      | Some (Some s) \<Rightarrow>
          if IsUserEnabled (faults 1) (s_username s) db = Some False then (([], [], [], True), db)
          else ((s_username s, s_client_id s, s_device_id s, False), snd (touchSession (faults 2) token now db)))"

text \<open>Statement 0 deletes, 1 marks the attempt, 2 stores the result.\<close>

definition refreshOne :: "sess_env \<Rightarrow> SessionRow \<Rightarrow> gotime \<Rightarrow> database \<Rightarrow> database option" where
  "refreshOne E s now db =
     (if time_sub now (ValidatedAt s) < sessionValidateTTL then Some db
      else if time_sub now (ValidatedAt s) > sessionStaleTTL then Some (snd (deleteSession (se_faults E 0) (s_token s) db))
      else if s_cam_session s = [] then Some db
      else if time_sub now (LastAttempt s) < sessionRetryCooldown then Some db
      else let db1 = snd (touchLastAttempt (se_faults E 1) (s_token s) now db) in
        case querySession (se_cam E) (se_client E) (s_cam_session s) of
          None \<Rightarrow> Some db1
        | Some username \<Rightarrow>
            if username \<noteq> [] then Some (snd (updateCamSession (se_faults E 2) (s_token s) (s_cam_session s) now db1))
            else case decrypt (se_crypto E) (se_key E) (s_enc_password s) of
              None \<Rightarrow> Some db1
            | Some pwd \<Rightarrow>
                (case Camerlengo.login (se_cam E) (se_client E) (s_username s) (bytes_str pwd) of
                   None \<Rightarrow> None
                 | Some (Inl err, attempts) \<Rightarrow> Some db1
                 | Some (Inr newCam, attempts) \<Rightarrow> Some (snd (updateCamSession (se_faults E 2) (s_token s) newCam now db1))))"

fun refresh_list :: "(SessionRow \<Rightarrow> sess_env) \<Rightarrow> gotime \<Rightarrow> SessionRow list \<Rightarrow> database \<Rightarrow> database option" where
  "refresh_list Es now [] db = Some db"
| "refresh_list Es now (s # ss) db = (case refreshOne (Es s) s now db of None \<Rightarrow> None | Some db1 \<Rightarrow> refresh_list Es now ss db1)"

definition refreshAll :: "bool \<Rightarrow> (SessionRow \<Rightarrow> sess_env) \<Rightarrow> gotime \<Rightarrow> database \<Rightarrow> database option" where
  "refreshAll fails Es now db = (case listSessions fails db of None \<Rightarrow> Some db | Some sessions \<Rightarrow> refresh_list Es now sessions db)"

section \<open>Keys used on several devices\<close>

record keyDeviceSeen =
  ds_deviceID :: string
  ds_at :: gotime

text \<open>Returns whether a warning is issued, which happens in the background.\<close>

definition checkMultiDevice :: "gotime \<Rightarrow> string \<Rightarrow> string \<Rightarrow> (string, keyDeviceSeen) gomap \<Rightarrow> bool \<times> (string, keyDeviceSeen) gomap" where
  "checkMultiDevice now keyID deviceID lastSeen =
     ((case gm_get lastSeen keyID of None \<Rightarrow> False
       | Some prev \<Rightarrow> ds_deviceID prev \<noteq> deviceID \<and> time_sub now (ds_at prev) \<le> multiDeviceWindow),
      gm_put keyID \<lparr>ds_deviceID = deviceID, ds_at = now\<rparr> lastSeen)"

definition multiDeviceWarningMessage :: "int \<Rightarrow> string" where
  "multiDeviceWarningMessage count =
     (if count = 1 then ''You are using the same key on multiple devices. This violates the key usage policy. Please obtain a separate key for each device.''
      else if count = 2 then ''You are using one key on multiple devices. Please obtain additional keys, otherwise we will be forced to suspend your account.''
      else ''Your account has been suspended due to using one key on multiple devices. Please contact support for reactivation.'')"

text \<open>The notification it stores, if any, and the tables after it. Statements: state, count (two), suspension.\<close>

definition maybeWarn :: "faults \<Rightarrow> gotime \<Rightarrow> string \<Rightarrow> string \<Rightarrow> database \<Rightarrow> (string \<times> string) option \<times> database" where
  "maybeWarn faults now keyID username db =
     (case GetKeyWarnState (faults 0) keyID db of
        None \<Rightarrow> (None, db)
      | Some (count, lastAt) \<Rightarrow>
          if count \<ge> maxWarnings then (None, db)
          else if lastAt > 0 \<and> time_sub now (lastAt * second) < warnCooldown then (None, db)
          else case BumpKeyWarn (\<lambda>i. faults (i + 1)) now keyID db of
            (None, db1) \<Rightarrow> (None, db1)
          | (Some newCount, db1) \<Rightarrow>
              (Some (username, multiDeviceWarningMessage newCount),
               if newCount \<ge> maxWarnings then snd (SetUserEnabled (faults 3) username False db1) else db1))"

end
