(* ===== verification/Session_History.thy ===== *)
theory Session_History
  imports Arbiter_Sessions
begin

text \<open>
  What the sessions of the arbiter mean over any history of logins, validations and refreshes: whose tokens are accepted,
  which passwords open a session, and how long a session lives.
\<close>

section \<open>Histories\<close>

definition cam_accepts :: "sess_env \<Rightarrow> string \<Rightarrow> string \<Rightarrow> bool" where
  "cam_accepts E u p \<longleftrightarrow> (\<exists>cam n. Camerlengo.login (se_cam E) (se_client E) u p = Some (Inr cam, n))"

text \<open>All operations use the arbiter's key, and random nonces have the length of a nonce.\<close>

definition env_ok :: "crypto \<Rightarrow> bytes \<Rightarrow> sess_env \<Rightarrow> bool" where
  "env_ok C K E \<longleftrightarrow> se_crypto E = C \<and> se_key E = K \<and> (\<forall>n. se_nonce E = Some n \<longrightarrow> length n = sm_nonceSize)"

definition issued_by :: "login_error + string \<Rightarrow> string \<Rightarrow> string \<Rightarrow> (string \<times> string \<times> string) set" where
  "issued_by r u dev = (case r of Inl e \<Rightarrow> {} | Inr t \<Rightarrow> {(t, u, dev)})"

definition device_of :: "LoginOpts option \<Rightarrow> string" where
  "device_of opts = (case opts of None \<Rightarrow> [] | Some o' \<Rightarrow> lo_DeviceID o')"

text \<open>The tokens issued, with user and device, and the passwords the account service has accepted. A refresh may act on a row
  read earlier, so it takes any row; \<open>elsewhere\<close> is every operation that does not touch the sessions.\<close>

inductive sess_history :: "crypto \<Rightarrow> bytes \<Rightarrow> (string \<times> string \<times> string) set \<Rightarrow> (string \<times> string) set \<Rightarrow> database \<Rightarrow> bool" for C K where
  start: "sess_history C K {} {} empty_db"
| password_login: "sess_history C K I A db \<Longrightarrow> env_ok C K E \<Longrightarrow> Login E u p opts db = Some (r, db') \<Longrightarrow>
    sess_history C K (I \<union> issued_by r u (device_of opts)) (A \<union> {x. x = (u, p) \<and> cam_accepts E u p}) db'"
| key_login: "sess_history C K I A db \<Longrightarrow> env_ok C K E \<Longrightarrow> LoginWithKey E u opts db = (r, db') \<Longrightarrow>
    sess_history C K (I \<union> issued_by r u (device_of opts)) A db'"
| proxy_login: "sess_history C K I A db \<Longrightarrow> env_ok C K E \<Longrightarrow> LoginAsProxy E u p db = Some (r, db') \<Longrightarrow>
    sess_history C K (I \<union> issued_by r u []) (A \<union> {x. x = (u, p) \<and> cam_accepts E u p}) db'"
| validation: "sess_history C K I A db \<Longrightarrow> Validate faults now token db = (v, db') \<Longrightarrow> sess_history C K I A db'"
| refreshed: "sess_history C K I A db \<Longrightarrow> env_ok C K E \<Longrightarrow> refreshOne E s now db = Some db' \<Longrightarrow> sess_history C K I A db'"
| elsewhere: "sess_history C K I A db \<Longrightarrow> db_sessions db' = db_sessions db \<Longrightarrow> sess_history C K I A db'"

definition row_ok :: "crypto \<Rightarrow> bytes \<Rightarrow> (string \<times> string \<times> string) set \<Rightarrow> (string \<times> string) set \<Rightarrow> SessionRow \<Rightarrow> bool" where
  "row_ok C K I A s \<longleftrightarrow> (s_token s, s_username s, s_device_id s) \<in> I \<and>
     (\<forall>pw. decrypt C K (s_enc_password s) = Some pw \<longrightarrow> (s_username s, bytes_str pw) \<in> A)"

definition sessions_ok :: "crypto \<Rightarrow> bytes \<Rightarrow> (string \<times> string \<times> string) set \<Rightarrow> (string \<times> string) set \<Rightarrow> database \<Rightarrow> bool" where
  "sessions_ok C K I A db \<longleftrightarrow> unique_on s_token (db_sessions db) \<and> (\<forall>s \<in> set (db_sessions db). row_ok C K I A s)"

lemma row_ok_mono: "row_ok C K I A s \<Longrightarrow> I \<subseteq> I' \<Longrightarrow> A \<subseteq> A' \<Longrightarrow> row_ok C K I' A' s"
  unfolding row_ok_def by blast

lemma sessions_ok_mono: "sessions_ok C K I A db \<Longrightarrow> I \<subseteq> I' \<Longrightarrow> A \<subseteq> A' \<Longrightarrow> sessions_ok C K I' A' db"
  unfolding sessions_ok_def using row_ok_mono by blast

lemma decrypt_encrypt:
  assumes "crypto_ok C" and "encrypt C K rnd data = Some enc" and "\<And>n. rnd = Some n \<Longrightarrow> length n = sm_nonceSize"
  shows "decrypt C K enc = Some data"
  using assms by (auto simp: encrypt_def decrypt_def crypto_ok_def sm_nonceSize_def split: if_splits option.splits)

lemma decrypt_nothing: "decrypt C K [] = None"
  by (simp add: decrypt_def sm_nonceSize_def)

subsection \<open>Operations\<close>

lemma user_keeps_sessions: "getOrCreateUser f rnd i (\<lambda>d. d) u db = (r, db') \<Longrightarrow> db_sessions db' = db_sessions db"
  by (auto simp: getOrCreateUser_def Let_def split: if_splits option.splits)

lemma check_keeps_sessions: "check_key E u o' db = (r, db') \<Longrightarrow> db_sessions db' = db_sessions db"
  by (auto simp: check_key_def Let_def UpsertKeyDevice_def TouchKeyLastSeen_def update_key_def split: if_splits option.splits)

lemma created_ok:
  assumes "sessions_ok C K I A db" and "createSession f token u cid dev name enc cam now db = (ok, db')"
    and "(token, u, dev) \<in> I \<or> \<not> ok" and "\<And>pw. ok \<Longrightarrow> decrypt C K enc = Some pw \<Longrightarrow> (u, bytes_str pw) \<in> A"
  shows "sessions_ok C K I A db'"
  using assms by (auto simp: createSession_def sessions_ok_def row_ok_def unique_on_def split: if_splits)

lemma opened_ok:
  assumes inv: "sessions_ok C K I A db" and env: "env_ok C K E" "crypto_ok C" and run: "open_session E u pw cam dev name db = (r, db')"
    and acc: "\<And>p. pw = Some p \<Longrightarrow> (u, p) \<in> A"
  shows "sessions_ok C K (I \<union> issued_by r u dev) A db'"
proof -
  obtain r1 db1 where user: "getOrCreateUser (\<lambda>i. se_faults E (i + 5)) (se_clientID E) (se_newid E) (\<lambda>d. d) u db = (r1, db1)" by fastforce
  have inv1: "sessions_ok C K I A db1" using inv user_keeps_sessions [OF user] by (simp add: sessions_ok_def)
  let ?enc = "case pw of None \<Rightarrow> Some [] | Some p \<Rightarrow> encrypt (se_crypto E) (se_key E) (se_nonce E) (str_bytes p)"
  have stored: "(u, bytes_str q) \<in> A" if "?enc = Some enc" "decrypt C K enc = Some q" for enc q
  proof (cases pw)
    case None
    then show ?thesis using that decrypt_nothing [of C K] by simp
  next
    case (Some p)
    then have "decrypt C K enc = Some (str_bytes p)"
      using that env decrypt_encrypt [of C K "se_nonce E" "str_bytes p" enc] by (auto simp: env_ok_def)
    then show ?thesis using that acc [OF Some] by simp
  qed
  show ?thesis
  proof (cases "r1 = None \<or> ?enc = None \<or> genToken (se_token E) = None")
    case True
    then have "db' = db1" using run unfolding open_session_def user
      by (cases r1; cases ?enc; cases "genToken (se_token E)") (simp_all del: option.case_eq_if)
    then show ?thesis using inv1 sessions_ok_mono by blast
  next
    case False
    then obtain us enc token where x: "r1 = Some us" "?enc = Some enc" "genToken (se_token E) = Some token" unfolding de_Morgan_disj not_None_eq by blast
    obtain ok db2 where made: "createSession (se_faults E 9) token u (u_client_id us) dev name enc cam (se_now E) db1 = (ok, db2)" by fastforce
    have res: "r = (if ok then Inr token else Inl SessionFailed)" "db' = db2"
      using run unfolding open_session_def user x(1) option.case prod.case x(2) x(3) made by (auto split: bool.splits)
    have inv2: "sessions_ok C K (I \<union> issued_by r u dev) A db1" by (rule sessions_ok_mono [OF inv1]) auto
    have "(token, u, dev) \<in> I \<union> issued_by r u dev \<or> \<not> ok" by (simp add: issued_by_def res)
    from created_ok [OF inv2 made this stored [OF x(2)]] show ?thesis unfolding res(2) by simp
  qed
qed

lemma update_session_ok:
  assumes "sessions_ok C K I A db" and "\<And>s. s_token (g s) = s_token s \<and> s_username (g s) = s_username s \<and> s_device_id (g s) = s_device_id s \<and> s_enc_password (g s) = s_enc_password s"
  shows "sessions_ok C K I A (snd (update_session f token g db))"
  using assms by (auto simp: update_session_def sessions_ok_def row_ok_def sql_update_set intro: unique_update)

lemma touched_ok:
  assumes "sessions_ok C K I A db"
  shows "sessions_ok C K I A (snd (touchSession f token now db))" "sessions_ok C K I A (snd (touchLastAttempt f token now db))"
    "sessions_ok C K I A (snd (updateCamSession f token cam now db))" "sessions_ok C K I A (snd (deleteSession f token db))"
  using assms update_session_ok [OF assms] by (simp_all add: touchSession_def touchLastAttempt_def updateCamSession_def)
    (auto simp: deleteSession_def sessions_ok_def)

lemma recent_accepted:
  assumes "sessions_ok C K I A db" and "env_ok C K E" and "recent_session E u p db = Some cam"
  shows "(u, p) \<in> A"
proof -
  obtain s where s: "getRecentSessionByUsername (se_faults E 0) u db = Some (Some s)" "decrypt C K (s_enc_password s) = Some (str_bytes p)"
    using assms(2,3) by (auto simp: recent_session_def env_ok_def split: option.splits if_splits)
  let ?l = "sort_key (\<lambda>s. - s_validated_at s) (filter (\<lambda>s. s_username s = u \<and> s_cam_session s \<noteq> []) (db_sessions db))"
  have "s \<in> set ?l" using s(1) by (cases ?l) (auto simp: getRecentSessionByUsername_def split: if_splits)
  then have "s \<in> set (db_sessions db)" "s_username s = u" by auto
  then show ?thesis using assms(1) s(2) unfolding sessions_ok_def row_ok_def by fastforce
qed

text \<open>What a refresh can do to the table.\<close>

lemma refresh_effect:
  assumes "refreshOne E s now db = Some db'"
  shows "db' = db \<or>
    (sessionStaleTTL < time_sub now (ValidatedAt s) \<and> (\<exists>f. db' = snd (deleteSession f (s_token s) db))) \<or>
    (\<exists>f. db' = snd (touchLastAttempt f (s_token s) now db)) \<or>
    (\<exists>f g cam. db' = snd (updateCamSession f (s_token s) cam now (snd (touchLastAttempt g (s_token s) now db))))"
proof (cases "time_sub now (ValidatedAt s) < sessionValidateTTL \<or> sessionStaleTTL < time_sub now (ValidatedAt s) \<or>
    s_cam_session s = [] \<or> time_sub now (LastAttempt s) < sessionRetryCooldown")
  case True
  then show ?thesis using assms by (auto simp: refreshOne_def split: if_splits)
next
  case False
  let ?d = "snd (touchLastAttempt (se_faults E 1) (s_token s) now db)"
  have run: "refreshOne E s now db = (case querySession (se_cam E) (se_client E) (s_cam_session s) of
      None \<Rightarrow> Some ?d
    | Some username \<Rightarrow> if username \<noteq> [] then Some (snd (updateCamSession (se_faults E 2) (s_token s) (s_cam_session s) now ?d))
        else case decrypt (se_crypto E) (se_key E) (s_enc_password s) of
          None \<Rightarrow> Some ?d
        | Some pwd \<Rightarrow> (case Camerlengo.login (se_cam E) (se_client E) (s_username s) (bytes_str pwd) of
             None \<Rightarrow> None | Some (Inl err, attempts) \<Rightarrow> Some ?d
           | Some (Inr newCam, attempts) \<Rightarrow> Some (snd (updateCamSession (se_faults E 2) (s_token s) newCam now ?d))))"
    using False unfolding refreshOne_def Let_def by (simp only: if_False de_Morgan_disj simp_thms)
  have "db' = ?d \<or> (\<exists>cam. db' = snd (updateCamSession (se_faults E 2) (s_token s) cam now ?d))"
    using assms unfolding run
    by (cases "querySession (se_cam E) (se_client E) (s_cam_session s)"; cases "decrypt (se_crypto E) (se_key E) (s_enc_password s)")
      (auto split: option.splits if_splits prod.splits sum.splits)
  then show ?thesis by blast
qed

lemma refreshed_ok:
  assumes "sessions_ok C K I A db" and "refreshOne E s now db = Some db'"
  shows "sessions_ok C K I A db'"
  using refresh_effect [OF assms(2)] assms(1) touched_ok by (elim disjE exE conjE) simp_all

lemma checked_ok:
  assumes "sessions_ok C K I A db" and "(case opts of None \<Rightarrow> (None, db) | Some o' \<Rightarrow> check_key E u o' db) = (e, db1)"
  shows "sessions_ok C K I A db1"
  using assms check_keeps_sessions [of E u _ db] by (cases opts) (auto simp: sessions_ok_def)

lemma key_login_ok:
  assumes "sessions_ok C K I A db" and "env_ok C K E" "crypto_ok C" and "LoginWithKey E u opts db = (r, db')"
  shows "sessions_ok C K (I \<union> issued_by r u (device_of opts)) A db'"
proof -
  obtain e db1 where c: "(case opts of None \<Rightarrow> (None, db) | Some o' \<Rightarrow> check_key E u o' db) = (e, db1)" by fastforce
  note ok1 = checked_ok [OF assms(1) c]
  show ?thesis
  proof (cases e)
    case None
    then have "open_session E u None [] (device_of opts) (case opts of None \<Rightarrow> [] | Some o' \<Rightarrow> lo_DeviceName o') db1 = (r, db')"
      using assms(4) unfolding LoginWithKey_def c device_of_def by simp
    from opened_ok [OF ok1 assms(2,3) this] show ?thesis by simp
  next
    case (Some err)
    then have "db' = db1" using assms(4) unfolding LoginWithKey_def c by simp
    then show ?thesis using ok1 sessions_ok_mono by blast
  qed
qed

lemma login_split:
  assumes "Login E u p opts db = Some (r, db')"
  obtains (refused) "db' = db" "\<And>t. r \<noteq> Inr t"
  | (checked) e db1 where "cam_accepts E u p \<or> recent_session E u p db \<noteq> None"
      "(case opts of None \<Rightarrow> (None, db) | Some o' \<Rightarrow> check_key E u o' db) = (Some e, db1)" "db' = db1" "\<And>t. r \<noteq> Inr t"
  | (opened) cam db1 name where "cam_accepts E u p \<or> recent_session E u p db \<noteq> None"
      "(case opts of None \<Rightarrow> (None, db) | Some o' \<Rightarrow> check_key E u o' db) = (None, db1)"
      "open_session E u (Some p) cam (device_of opts) name db1 = (r, db')"
proof -
  obtain verdict n where v: "Camerlengo.login (se_cam E) (se_client E) u p = Some (verdict, n)"
    using assms by (auto simp: Login_def split: option.splits)
  obtain e db1 where c: "(case opts of None \<Rightarrow> (None, db) | Some o' \<Rightarrow> check_key E u o' db) = (e, db1)" by fastforce
  let ?w = "case verdict of Inr cam \<Rightarrow> Inr cam
     | Inl err \<Rightarrow> (case recent_session E u p db of None \<Rightarrow> Inl (CamError err) | Some cam \<Rightarrow> Inr cam)"
  show ?thesis
  proof (cases ?w)
    case (Inl err)
    then have "r = Inl err" "db' = db" using assms by (auto simp: Login_def v)
    then show ?thesis using refused by simp
  next
    case (Inr cam)
    then have acc: "cam_accepts E u p \<or> recent_session E u p db \<noteq> None"
      using v by (auto simp: cam_accepts_def split: sum.splits option.splits)
    show ?thesis
    proof (cases e)
      case None
      then have "open_session E u (Some p) cam (device_of opts) (case opts of None \<Rightarrow> [] | Some o' \<Rightarrow> lo_DeviceName o') db1 = (r, db')"
        using assms Inr unfolding Login_def v device_of_def by (simp add: c)
      then show ?thesis using opened [OF acc] c None by blast
    next
      case (Some err)
      then have "r = Inl err" "db' = db1" using assms Inr unfolding Login_def v by (simp_all add: c)
      then show ?thesis using checked [OF acc] c Some by simp
    qed
  qed
qed

lemma password_login_ok:
  assumes inv: "sessions_ok C K I A db" and env: "env_ok C K E" "crypto_ok C" and run: "Login E u p opts db = Some (r, db')"
  shows "sessions_ok C K (I \<union> issued_by r u (device_of opts)) (A \<union> {x. x = (u, p) \<and> cam_accepts E u p}) db'"
  using run
proof (cases rule: login_split)
  case refused
  then show ?thesis using inv sessions_ok_mono by blast
next
  case (checked e db1)
  then show ?thesis using checked_ok [OF inv checked(2)] sessions_ok_mono by blast
next
  case (opened cam db1 name)
  have acc: "(u, p) \<in> A \<union> {x. x = (u, p) \<and> cam_accepts E u p}" using opened(1) recent_accepted [OF inv env(1)] by auto
  have "sessions_ok C K I (A \<union> {x. x = (u, p) \<and> cam_accepts E u p}) db1" using checked_ok [OF inv opened(2)] sessions_ok_mono by blast
  from opened_ok [OF this env opened(3)] show ?thesis using acc by simp
qed

lemma proxy_login_ok:
  assumes inv: "sessions_ok C K I A db" and env: "env_ok C K E" "crypto_ok C" and run: "LoginAsProxy E u p db = Some (r, db')"
  shows "sessions_ok C K (I \<union> issued_by r u []) (A \<union> {x. x = (u, p) \<and> cam_accepts E u p}) db'"
proof -
  obtain verdict n where v: "Camerlengo.login (se_cam E) (se_client E) u p = Some (verdict, n)"
    using run by (auto simp: LoginAsProxy_def split: option.splits)
  show ?thesis
  proof (cases "\<exists>cam. verdict = Inr cam \<and> IsUserEnabled (se_faults E 1) u db \<noteq> Some False")
    case True
    then obtain cam where cam: "verdict = Inr cam" "IsUserEnabled (se_faults E 1) u db \<noteq> Some False" by blast
    have "open_session E u (Some p) cam [] ''BlackBadger proxy'' db = (r, db')" using run cam by (simp add: LoginAsProxy_def v)
    moreover have "sessions_ok C K I (A \<union> {x. x = (u, p) \<and> cam_accepts E u p}) db" using inv sessions_ok_mono by blast
    moreover have "cam_accepts E u p" using v cam by (auto simp: cam_accepts_def)
    ultimately show ?thesis using opened_ok [OF _ env, of I "A \<union> {x. x = (u, p) \<and> cam_accepts E u p}" db u "Some p"] by simp
  next
    case False
    then have "db' = db" using run by (auto simp: LoginAsProxy_def v split: sum.splits if_splits)
    then show ?thesis using inv sessions_ok_mono by blast
  qed
qed

lemma history_ok: "sess_history C K I A db \<Longrightarrow> crypto_ok C \<Longrightarrow> sessions_ok C K I A db"
proof (induction rule: sess_history.induct)
  case start
  then show ?case by (simp add: sessions_ok_def empty_db_def)
next
  case (validation I A db faults now token v db')
  then have "db' = db \<or> db' = snd (touchSession (faults 2) token now db)"
    by (auto simp: Validate_def split: if_splits option.splits)
  then show ?case using validation touched_ok(1) by auto
next
  case (elsewhere I A db db')
  then show ?case by (simp add: sessions_ok_def)
next
  case password_login
  show ?case by (rule password_login_ok [OF password_login.IH [OF password_login.prems] password_login.hyps(2) password_login.prems password_login.hyps(3)])
next
  case key_login
  show ?case by (rule key_login_ok [OF key_login.IH [OF key_login.prems] key_login.hyps(2) key_login.prems key_login.hyps(3)])
next
  case proxy_login
  show ?case by (rule proxy_login_ok [OF proxy_login.IH [OF proxy_login.prems] proxy_login.hyps(2) proxy_login.prems proxy_login.hyps(3)])
next
  case refreshed
  show ?case by (rule refreshed_ok [OF refreshed.IH [OF refreshed.prems] refreshed.hyps(3)])
qed


definition quick_cam :: "string \<Rightarrow> cam_env" where
  "quick_cam session = sample_cam\<lparr>cm_post := (\<lambda>n url body. Some []),
     cm_unmarshal := (\<lambda>b. Some (sample_result\<lparr>v2_Status := if session = [] then ''error'' else ''ok'', v2_Session := session\<rparr>))\<rparr>"

definition sample_sess :: "string \<Rightarrow> byte \<Rightarrow> sess_env" where
  "sample_sess session x = \<lparr>se_crypto = plain_crypto, se_key = replicate 32 0, se_cam = quick_cam session, se_client = newCamClient [] [], se_now = 0,
     se_faults = (\<lambda>i. False), se_nonce = Some (replicate 12 0), se_token = Some [x, x, x], se_clientID = Some [1], se_newid = 1\<rparr>"

definition first_session :: SessionRow where
  "first_session = \<lparr>s_token = b64_encode [0, 0, 0], s_username = ''ann'', s_client_id = ''clt_'' @ hex_encode [1], s_device_id = [], s_device_name = [],
     s_enc_password = replicate 12 0 @ str_bytes ''pw'' @ replicate 16 0, s_cam_session = ''s'', s_validated_at = 0, s_last_attempt = 0\<rparr>"

definition session_db :: database where
  "session_db = empty_db\<lparr>db_users := [new_user 1 ''ann'' ''admin'' (''clt_'' @ hex_encode [1])], db_sessions := [first_session]\<rparr>"

lemma quick_login:
  "Camerlengo.login (quick_cam ''s'') a u p = Some (Inr ''s'', 1)" "Camerlengo.login (quick_cam []) a u p = Some (Inl (Rejected []), 1)"
  unfolding Camerlengo.login_def
  by (subst login_loop.simps; simp add: login_attempt_def v2Call_def quick_cam_def sample_cam_def sample_result_def rejection_def)+

lemma sample_user_created:
  "getOrCreateUser (\<lambda>i. False) (Some [1]) 1 (\<lambda>d. d) ''ann'' empty_db =
    (Some (new_user 1 ''ann'' ''admin'' (''clt_'' @ hex_encode [1])), empty_db\<lparr>db_users := [new_user 1 ''ann'' ''admin'' (''clt_'' @ hex_encode [1])]\<rparr>)"
  by (simp add: getOrCreateUser_def genClientID_def insert_ignore_def empty_db_def Let_def sql_row_def new_user_def)

lemma sample_login: "Login (sample_sess ''s'' 0) ''ann'' ''pw'' None empty_db = Some (Inr (b64_encode [0, 0, 0]), session_db)"
proof -
  have none: "db_sessions empty_db = []" by (simp add: empty_db_def)
  have enc: "encrypt plain_crypto (replicate 32 0) (Some (replicate 12 0)) (str_bytes ''pw'') = Some (replicate 12 0 @ str_bytes ''pw'' @ replicate 16 0)"
    by (simp add: encrypt_def aead_New_ok_def plain_crypto_def)
  have "open_session (sample_sess ''s'' 0) ''ann'' (Some ''pw'') ''s'' [] [] empty_db = (Inr (b64_encode [0, 0, 0]), session_db)"
    unfolding open_session_def
    by (simp add: sample_sess_def sample_user_created enc genToken_def createSession_def session_db_def first_session_def none time_unix_def)
      (simp add: new_user_def)
  then show ?thesis by (simp add: Login_def sample_sess_def quick_login)
qed


section \<open>How long a session lives\<close>

lemma refresh_keeps_users: "refreshOne E s now db = Some db' \<Longrightarrow> db_users db' = db_users db"
  by (drule refresh_effect)
    (auto simp: deleteSession_def touchLastAttempt_def updateCamSession_def update_session_def split: if_splits)

definition alive :: "string \<Rightarrow> string \<times> string \<times> string \<Rightarrow> int \<Rightarrow> database \<Rightarrow> bool" where
  "alive t who v db \<longleftrightarrow> unique_on s_token (db_sessions db) \<and>
     (\<exists>s. sql_row s_token t (db_sessions db) = Some s \<and> (s_username s, s_client_id s, s_device_id s) = who \<and> v \<le> s_validated_at s)"

lemma alive_update:
  assumes "alive t who v db" and "\<And>s. s_token (g s) = s_token s \<and> s_username (g s) = s_username s \<and> s_client_id (g s) = s_client_id s \<and>
      s_device_id (g s) = s_device_id s \<and> (v \<le> s_validated_at s \<longrightarrow> v \<le> s_validated_at (g s))"
  shows "alive t who v (snd (update_session f token g db))"
  using assms by (auto simp: alive_def update_session_def row_update intro: unique_update)

lemma refresh_alive:
  assumes "alive t who v db" and "s_token s = t \<Longrightarrow> time_sub now (ValidatedAt s) \<le> sessionStaleTTL" and "v \<le> time_unix now"
    and "refreshOne E s now db = Some db'"
  shows "alive t who v db'"
proof -
  have upd: "alive t who v (snd (touchLastAttempt f (s_token s) now d))" "alive t who v (snd (updateCamSession f (s_token s) cam now d))"
    if "alive t who v d" for f cam d
    unfolding touchLastAttempt_def updateCamSession_def by (rule alive_update [OF that], simp add: assms(3))+
  from refresh_effect [OF assms(4)] show ?thesis
  proof (elim disjE exE conjE)
    fix f
    assume d: "sessionStaleTTL < time_sub now (ValidatedAt s)" "db' = snd (deleteSession f (s_token s) db)"
    then have "s_token s \<noteq> t" using assms(2) by auto
    then show ?thesis using assms(1) unfolding d(2) by (auto simp: alive_def deleteSession_def row_delete)
  qed (use assms(1) upd in simp_all)
qed

lemma refresh_returns:
  assumes "sleeps (se_cam E)"
  shows "\<exists>db'. refreshOne E s now db = Some db'"
proof -
  have "\<exists>r n. Camerlengo.login (se_cam E) (se_client E) u p = Some (r, n)" for u p using login_verdict [OF assms] by blast
  then have "(Camerlengo.login (se_cam E) (se_client E) u p = None) = False" for u p by (metis option.distinct(1))
  note no = this
  show ?thesis by (simp add: refreshOne_def Let_def no split: option.splits prod.splits sum.splits)
qed

lemma list_alive:
  assumes "alive t who v db" and "\<And>s. s \<in> set ss \<Longrightarrow> s_token s = t \<Longrightarrow> time_sub now (ValidatedAt s) \<le> sessionStaleTTL"
    and "v \<le> time_unix now" and "\<And>s. sleeps (se_cam (Es s))"
  shows "\<exists>db'. refresh_list Es now ss db = Some db' \<and> alive t who v db' \<and> db_users db' = db_users db"
  using assms(1,2)
proof (induction ss arbitrary: db)
  case (Cons s ss)
  obtain d where d: "refreshOne (Es s) s now db = Some d" using refresh_returns [OF assms(4)] by blast
  have "alive t who v d" using refresh_alive [OF Cons.prems(1) _ assms(3) d] Cons.prems(2) by simp
  from Cons.IH [OF this] Cons.prems(2) obtain db' where "refresh_list Es now ss d = Some db' \<and> alive t who v db' \<and> db_users db' = db_users d" by auto
  then show ?case using d refresh_keeps_users [OF d] by auto
qed simp

lemma all_alive:
  assumes "alive t who v db" and "v \<le> time_unix now" and "now \<le> v * second + sessionStaleTTL" and "\<And>s. sleeps (se_cam (Es s))"
  shows "\<exists>db'. refreshAll fails Es now db = Some db' \<and> alive t who v db' \<and> db_users db' = db_users db"
proof (cases fails)
  case False
  have "time_sub now (ValidatedAt s) \<le> sessionStaleTTL" if "s \<in> set (db_sessions db)" "s_token s = t" for s
  proof -
    have "v \<le> s_validated_at s" using assms(1) that row_Some [of s_token "db_sessions db" t s] by (auto simp: alive_def)
    then have "now - ValidatedAt s \<le> sessionStaleTTL" using assms(3) by (simp add: ValidatedAt_def duration_defs)
    then show ?thesis by (simp add: sessionStaleTTL_def go_time duration_defs)
  qed
  from list_alive [OF assms(1) this assms(2,4)] show ?thesis using False by (simp add: refreshAll_def listSessions_def)
qed (use assms(1) in \<open>simp add: refreshAll_def listSessions_def\<close>)

lemma refresh_list_returns: "(\<And>s. sleeps (se_cam (Es s))) \<Longrightarrow> \<exists>db'. refresh_list Es now ss db = Some db'"
proof (induction ss arbitrary: db)
  case (Cons s ss)
  obtain d where "refreshOne (Es s) s now db = Some d" using refresh_returns [OF Cons.prems] by blast
  then show ?case using Cons.IH [OF Cons.prems, of d] by simp
qed simp

lemma list_expires:
  assumes "s \<in> set ss" and "s_token s = t" and "sessionStaleTTL < time_sub now (ValidatedAt s)" and "\<And>x. \<not> se_faults (Es x) 0"
    and "refresh_list Es now ss db = Some db'"
  shows "sql_row s_token t (db_sessions db') = None"
proof -
  have gone: "sql_row s_token t (db_sessions d') = None" if "sql_row s_token t (db_sessions d) = None" "refreshOne E x now d = Some d'" for E x d d'
    using refresh_effect [OF that(2)] that(1)
    by (auto simp: deleteSession_def touchLastAttempt_def updateCamSession_def update_session_def row_delete row_update)
  have gone_list: "sql_row s_token t (db_sessions d') = None" if "sql_row s_token t (db_sessions d) = None" "refresh_list Es now xs d = Some d'" for xs d d'
    using that by (induction xs arbitrary: d) (auto split: option.splits dest: gone)
  show ?thesis using assms(1,5)
  proof (induction ss arbitrary: db)
    case (Cons x ss)
    then obtain d where d: "refreshOne (Es x) x now db = Some d" "refresh_list Es now ss d = Some db'" by (auto split: option.splits)
    show ?case
    proof (cases "x = s")
      case True
      have "sessionValidateTTL \<le> sessionStaleTTL" by (simp add: sessionValidateTTL_def sessionStaleTTL_def duration_defs)
      then have "refreshOne (Es x) x now db = Some (snd (deleteSession False t db))" using assms(2-4) True by (simp add: refreshOne_def)
      then have "sql_row s_token t (db_sessions d) = None" using d(1) by (auto simp: deleteSession_def row_delete)
      then show ?thesis using gone_list d(2) by blast
    next
      case False
      then show ?thesis using Cons d(2) by auto
    qed
  qed simp
qed

text \<open>Rounds of refreshes, each with its environments and its time.\<close>

fun rounds :: "(bool \<times> (SessionRow \<Rightarrow> sess_env) \<times> gotime) list \<Rightarrow> database \<Rightarrow> database option" where
  "rounds [] db = Some db"
| "rounds ((f, Es, now) # xs) db = (case refreshAll f Es now db of None \<Rightarrow> None | Some db1 \<Rightarrow> rounds xs db1)"

lemma rounds_alive:
  assumes "alive t who v db" and "\<forall>(f, Es, now) \<in> set xs. v \<le> time_unix now \<and> now \<le> v * second + sessionStaleTTL \<and> (\<forall>s. sleeps (se_cam (Es s)))"
  shows "\<exists>db'. rounds xs db = Some db' \<and> alive t who v db' \<and> db_users db' = db_users db"
  using assms
proof (induction xs arbitrary: db)
  case (Cons x xs)
  obtain f Es now where x: "x = (f, Es, now)" by (cases x)
  from all_alive [OF Cons.prems(1), of now Es f] Cons.prems(2) obtain d where
    d: "refreshAll f Es now db = Some d" "alive t who v d" "db_users d = db_users db" by (auto simp: x)
  from Cons.IH [OF d(2)] Cons.prems(2) d show ?case by (auto simp: x)
qed simp



end
